(* ===== verification/Prelude.thy ===== *)
theory Prelude
  imports Main "HOL-Library.Word"
begin

section \<open>Prelude: the effects of a Go reconciler and the shared lemmas\<close>

text \<open>
  What every component of the development shares.
  \<^item> The effect monad. A method of a reconciler returns \<open>error\<close> as a value, may panic (a nil
    dereference, an index out of range) and acts on a world it does not own: the API
    server. It is a function from a world to an outcome and the next world. The world's type
    is a parameter everywhere, because no code under src/ implements it.
  \<^item> Log predicates: the calls a method makes, whatever the API server answers.
  \<^item> Mealy runs: the shape of a loop that carries a state over a slice and emits one output
    per element, used by the retention loop.
  \<^item> The named collections \<open>go_run\<close> (how the combinators execute), \<open>emits_intros\<close> (the
    syntax-directed rules for logs) and \<open>no_panic_intros\<close> (the same for methods that cannot
    panic).
\<close>

named_theorems go_run \<open>execution of the effect combinators\<close>
named_theorems emits_intros \<open>syntax-directed rules for the calls a method makes\<close>
named_theorems no_panic_intros \<open>syntax-directed rules for methods that cannot panic\<close>

subsection \<open>Errors and outcomes\<close>

text \<open>
  An error of the API server: the code distinguishes only \<open>errors.IsNotFound\<close> from the rest.
\<close>

datatype api_error = NotFound | OtherError string

fun IsNotFound :: "api_error \<Rightarrow> bool" where
  "IsNotFound NotFound = True"
| "IsNotFound (OtherError _) = False"

text \<open>
  How a Go call ends: with a value, with a non-nil \<open>error\<close>, or by a panic that unwinds the
  caller. A caller can inspect and drop an error; it cannot drop a panic.
\<close>

datatype 'a go_result = Ret 'a | Fail api_error | Panic

type_synonym ('w, 'a) go = "'w \<Rightarrow> 'a go_result \<times> 'w"

definition ret :: "'a \<Rightarrow> ('w, 'a) go" where
  "ret a = (\<lambda>w. (Ret a, w))"

definition fail :: "api_error \<Rightarrow> ('w, 'a) go" where
  "fail e = (\<lambda>w. (Fail e, w))"

definition panic :: "('w, 'a) go" where
  "panic = (\<lambda>w. (Panic, w))"

text \<open>Sequencing with \<open>if err != nil { return err }\<close> after the first call.\<close>

definition bind_go :: "('w, 'a) go \<Rightarrow> ('a \<Rightarrow> ('w, 'b) go) \<Rightarrow> ('w, 'b) go" where
  "bind_go m k = (\<lambda>w. case m w of
     (Ret a, w') \<Rightarrow> k a w'
   | (Fail e, w') \<Rightarrow> (Fail e, w')
   | (Panic, w') \<Rightarrow> (Panic, w'))"

text \<open>The error of a call as a value, for callers that look at it or drop it.\<close>

definition try_go :: "('w, 'a) go \<Rightarrow> ('w, api_error + 'a) go" where
  "try_go m = (\<lambda>w. case m w of
     (Ret a, w') \<Rightarrow> (Ret (Inr a), w')
   | (Fail e, w') \<Rightarrow> (Ret (Inl e), w')
   | (Panic, w') \<Rightarrow> (Panic, w'))"

text \<open>\<open>_ = f()\<close>, and the call sites that only log the error.\<close>

definition ignore_err :: "('w, 'a) go \<Rightarrow> ('w, unit) go" where
  "ignore_err m = bind_go (try_go m) (\<lambda>_. ret ())"

text \<open>A read of a possibly nil pointer or of a slice element: \<open>None\<close> panics.\<close>

definition of_option :: "'a option \<Rightarrow> ('w, 'a) go" where
  "of_option x = (case x of None \<Rightarrow> panic | Some a \<Rightarrow> ret a)"

text \<open>\<open>for _, x := range xs { if err := f(x); err != nil { return err } }\<close>\<close>

fun for_each :: "('x \<Rightarrow> ('w, unit) go) \<Rightarrow> 'x list \<Rightarrow> ('w, unit) go" where
  "for_each f [] = ret ()"
| "for_each f (x # xs) = bind_go (f x) (\<lambda>_. for_each f xs)"

lemma ret_run [go_run]: "ret a w = (Ret a, w)"
  by (simp add: ret_def)

lemma fail_run [go_run]: "fail e w = (Fail e, w)"
  by (simp add: fail_def)

lemma panic_run [go_run]: "panic w = (Panic, w)"
  by (simp add: panic_def)

lemma bind_go_run [go_run]:
  "m w = (Ret a, w') \<Longrightarrow> bind_go m k w = k a w'"
  "m w = (Fail e, w') \<Longrightarrow> bind_go m k w = (Fail e, w')"
  "m w = (Panic, w') \<Longrightarrow> bind_go m k w = (Panic, w')"
  by (simp_all add: bind_go_def)

lemma try_go_run [go_run]:
  "m w = (Ret a, w') \<Longrightarrow> try_go m w = (Ret (Inr a), w')"
  "m w = (Fail e, w') \<Longrightarrow> try_go m w = (Ret (Inl e), w')"
  "m w = (Panic, w') \<Longrightarrow> try_go m w = (Panic, w')"
  by (simp_all add: try_go_def)

lemma ignore_err_run [go_run]:
  "m w = (Ret a, w') \<Longrightarrow> ignore_err m w = (Ret (), w')"
  "m w = (Fail e, w') \<Longrightarrow> ignore_err m w = (Ret (), w')"
  "m w = (Panic, w') \<Longrightarrow> ignore_err m w = (Panic, w')"
  by (simp_all add: ignore_err_def go_run)

lemma of_option_run [go_run]:
  "of_option None w = (Panic, w)"
  "of_option (Some a) w = (Ret a, w)"
  by (simp_all add: of_option_def go_run)

lemma bind_ret [simp]: "bind_go (ret a) k = k a"
  by (rule ext) (simp add: go_run)

lemma bind_fail [simp]: "bind_go (fail e) k = fail e"
  by (rule ext) (simp add: go_run)

lemma bind_panic [simp]: "bind_go panic k = panic"
  by (rule ext) (simp add: go_run)

lemma bind_assoc: "bind_go (bind_go m k) l = bind_go m (\<lambda>a. bind_go (k a) l)"
  by (rule ext) (auto simp: bind_go_def split: prod.splits go_result.splits)

lemma for_each_append:
  "for_each f (xs @ ys) = bind_go (for_each f xs) (\<lambda>_. for_each f ys)"
  by (induction xs) (simp_all add: bind_assoc)

lemma try_go_never_fails: "try_go m w = (Fail e, w') \<Longrightarrow> False"
  by (auto simp: try_go_def split: prod.splits go_result.splits)

lemma ignore_err_never_fails: "ignore_err m w = (Fail e, w') \<Longrightarrow> False"
  by (auto simp: ignore_err_def bind_go_def try_go_def ret_def split: prod.splits go_result.splits)

subsection \<open>The calls a method makes\<close>

text \<open>
  A logging world pairs the API server's world with the list of calls made so far.
  \<open>emits P m Q\<close>: whatever the world answers, every call \<open>m\<close> makes satisfies \<open>P\<close>, calls are
  only appended, and a value it returns satisfies \<open>Q\<close>.
\<close>

definition emits :: "('l \<Rightarrow> bool) \<Rightarrow> ('w \<times> 'l list, 'a) go \<Rightarrow> ('a \<Rightarrow> bool) \<Rightarrow> bool" where
  "emits P m Q \<longleftrightarrow> (\<forall>w l. \<exists>r w' l'. m (w, l) = (r, (w', l @ l')) \<and> list_all P l' \<and>
     (\<forall>a. r = Ret a \<longrightarrow> Q a))"

lemma emitsI:
  assumes "\<And>w l. \<exists>r w' l'. m (w, l) = (r, (w', l @ l')) \<and> list_all P l' \<and> (\<forall>a. r = Ret a \<longrightarrow> Q a)"
  shows "emits P m Q"
  using assms by (simp add: emits_def)

lemma emitsD:
  assumes "emits P m Q"
  shows "\<exists>r w' l'. m (w, l) = (r, (w', l @ l')) \<and> list_all P l' \<and> (\<forall>a. r = Ret a \<longrightarrow> Q a)"
  using assms by (simp add: emits_def)

lemma emits_ret [emits_intros]: "Q a \<Longrightarrow> emits P (ret a) Q"
  by (rule emitsI) (simp add: go_run)

lemma emits_fail [emits_intros]: "emits P (fail e) Q"
  by (rule emitsI) (simp add: go_run)

lemma emits_panic [emits_intros]: "emits P panic Q"
  by (rule emitsI) (simp add: go_run)

lemma emits_of_option [emits_intros]: "(\<And>a. x = Some a \<Longrightarrow> Q a) \<Longrightarrow> emits P (of_option x) Q"
  by (cases x) (simp_all add: of_option_def emits_intros)

lemma emits_bind:
  assumes m: "emits P m R" and k: "\<And>a. R a \<Longrightarrow> emits P (k a) Q"
  shows "emits P (bind_go m k) Q"
proof (rule emitsI)
  fix w l
  obtain r w1 l1 where r: "m (w, l) = (r, (w1, l @ l1))" "list_all P l1" "\<And>a. r = Ret a \<Longrightarrow> R a"
    using emitsD [OF m, of w l] by blast
  show "\<exists>r w' l'. bind_go m k (w, l) = (r, (w', l @ l')) \<and> list_all P l' \<and> (\<forall>a. r = Ret a \<longrightarrow> Q a)"
  proof (cases r)
    case (Ret a)
    with r(3) have "emits P (k a) Q" by (simp add: k)
    then obtain r' w2 l2 where "k a (w1, l @ l1) = (r', (w2, (l @ l1) @ l2))" "list_all P l2"
      "\<And>b. r' = Ret b \<Longrightarrow> Q b"
      using emitsD [of P "k a" Q w1 "l @ l1"] by blast
    with Ret r(1,2) show ?thesis
      by (intro exI [of _ r'] exI [of _ w2] exI [of _ "l1 @ l2"]) (simp add: go_run)
  qed (use r in \<open>auto simp: go_run\<close>)
qed

lemma emits_bind_true [emits_intros]:
  "emits P m (\<lambda>_. True) \<Longrightarrow> (\<And>a. emits P (k a) Q) \<Longrightarrow> emits P (bind_go m k) Q"
  by (rule emits_bind [where R = "\<lambda>_. True"])

lemma emits_try:
  assumes "emits P m R" and "\<And>a. R a \<Longrightarrow> Q (Inr a)" and "\<And>e. Q (Inl e)"
  shows "emits P (try_go m) Q"
proof (rule emitsI)
  fix w l
  obtain r w1 l1 where r: "m (w, l) = (r, (w1, l @ l1))" "list_all P l1" "\<And>a. r = Ret a \<Longrightarrow> R a"
    using emitsD [OF assms(1), of w l] by blast
  then show "\<exists>r w' l'. try_go m (w, l) = (r, (w', l @ l')) \<and> list_all P l' \<and> (\<forall>a. r = Ret a \<longrightarrow> Q a)"
    using assms(2,3) by (cases r) (auto simp: go_run)
qed

lemma emits_try_true [emits_intros]:
  "emits P m (\<lambda>_. True) \<Longrightarrow> emits P (try_go m) (\<lambda>_. True)"
  by (rule emits_try) auto

lemma emits_ignore_err [emits_intros]:
  "emits P m (\<lambda>_. True) \<Longrightarrow> emits P (ignore_err m) (\<lambda>_. True)"
  unfolding ignore_err_def by (intro emits_intros) simp_all

lemma emits_for_each [emits_intros]:
  assumes "\<And>x. x \<in> set xs \<Longrightarrow> emits P (f x) (\<lambda>_. True)"
  shows "emits P (for_each f xs) (\<lambda>_. True)"
  using assms by (induction xs) (simp_all add: emits_intros)

lemma emits_if [emits_intros]:
  "(b \<Longrightarrow> emits P m Q) \<Longrightarrow> (\<not> b \<Longrightarrow> emits P n Q) \<Longrightarrow> emits P (if b then m else n) Q"
  by simp

lemma emits_case_sum [emits_intros]:
  "(\<And>e. x = Inl e \<Longrightarrow> emits P (f e) Q) \<Longrightarrow> (\<And>a. x = Inr a \<Longrightarrow> emits P (g a) Q) \<Longrightarrow>
   emits P (case x of Inl e \<Rightarrow> f e | Inr a \<Rightarrow> g a) Q"
  by (cases x) simp_all

lemma emits_case_option [emits_intros]:
  "(x = None \<Longrightarrow> emits P m Q) \<Longrightarrow> (\<And>a. x = Some a \<Longrightarrow> emits P (g a) Q) \<Longrightarrow>
   emits P (case x of None \<Rightarrow> m | Some a \<Rightarrow> g a) Q"
  by (cases x) simp_all

lemma emits_case_prod [emits_intros]:
  "(\<And>a b. x = (a, b) \<Longrightarrow> emits P (f a b) Q) \<Longrightarrow> emits P (case x of (a, b) \<Rightarrow> f a b) Q"
  by (cases x) simp

lemma emits_weaken:
  "emits P m R \<Longrightarrow> (\<And>c. P c \<Longrightarrow> P' c) \<Longrightarrow> (\<And>a. R a \<Longrightarrow> Q a) \<Longrightarrow> emits P' m Q"
  unfolding emits_def by (metis (no_types, lifting) list.pred_mono_strong)

text \<open>From an \<open>emits\<close> fact to the log of a run that starts with an empty log.\<close>

lemma emits_log:
  assumes "emits P m Q" shows "list_all P (snd (snd (m (w, []))))"
proof -
  obtain r w' l' where "m (w, []) = (r, (w', [] @ l'))" "list_all P l'"
    using emitsD [OF assms, of w "[]"] by blast
  then show ?thesis by simp
qed

subsection \<open>Methods that do not look at the log\<close>

named_theorems appends_intros \<open>syntax-directed rules for methods that only append to the log\<close>

definition appends :: "('w \<times> 'l list, 'a) go \<Rightarrow> bool" where
  "appends m \<longleftrightarrow> (\<forall>w l r w' l'. m (w, []) = (r, (w', l')) \<longrightarrow> m (w, l) = (r, (w', l @ l')))"

lemma appendsD: "appends m \<Longrightarrow> m (w, []) = (r, (w', l')) \<Longrightarrow> m (w, l) = (r, (w', l @ l'))"
  unfolding appends_def by blast

lemma appends_basic [appends_intros]:
  "appends (ret a)" "appends (fail e)" "appends panic" "appends (of_option x)"
  by (cases x; simp add: appends_def go_run of_option_def)+

lemma appends_bind [appends_intros]:
  assumes "appends m" "\<And>a. appends (k a)" shows "appends (bind_go m k)"
  unfolding appends_def
proof (intro allI impI)
  fix w l r w' l' assume run: "bind_go m k (w, []) = (r, (w', l'))"
  obtain r1 w1 l1 where m: "m (w, []) = (r1, (w1, l1))" by (metis prod.collapse)
  note m' = appendsD [OF assms(1) m]
  show "bind_go m k (w, l) = (r, (w', l @ l'))"
  proof (cases r1)
    case (Ret a)
    obtain r2 w2 l2 where k: "k a (w1, []) = (r2, (w2, l2))" by (metis prod.collapse)
    from run m' m appendsD [OF assms(2) k] Ret show ?thesis by (simp add: bind_go_run)
  qed (use run m m' in \<open>simp_all add: bind_go_run\<close>)
qed

lemma appends_try [appends_intros]: "appends m \<Longrightarrow> appends (try_go m)"
  unfolding appends_def
proof (intro allI impI)
  fix w l r w' l'
  assume m: "\<forall>w l r w' l'. m (w, []) = (r, (w', l')) \<longrightarrow> m (w, l) = (r, (w', l @ l'))"
    and run: "try_go m (w, []) = (r, (w', l'))"
  obtain r1 w1 l1 where 1: "m (w, []) = (r1, (w1, l1))" by (metis prod.collapse)
  with m have "m (w, l) = (r1, (w1, l @ l1))" by blast
  with 1 run show "try_go m (w, l) = (r, (w', l @ l'))" by (cases r1) (auto simp: try_go_run)
qed

lemma appends_ignore_err [appends_intros]: "appends m \<Longrightarrow> appends (ignore_err m)"
  unfolding ignore_err_def by (intro appends_intros)

lemma appends_for_each [appends_intros]:
  "(\<And>x. x \<in> set xs \<Longrightarrow> appends (f x)) \<Longrightarrow> appends (for_each f xs)"
  by (induction xs) (simp_all add: appends_intros)

lemma appends_branches [appends_intros]:
  "appends m \<Longrightarrow> appends n \<Longrightarrow> appends (if b then m else n)"
  "(\<And>e. appends (f e)) \<Longrightarrow> (\<And>a. appends (g a)) \<Longrightarrow> appends (case x of Inl e \<Rightarrow> f e | Inr a \<Rightarrow> g a)"
  "appends m \<Longrightarrow> (\<And>a. appends (h a)) \<Longrightarrow> appends (case y of None \<Rightarrow> m | Some a \<Rightarrow> h a)"
  by (simp_all split: sum.split option.split)

subsection \<open>Methods that never panic\<close>

definition no_panic :: "('w, 'a) go \<Rightarrow> bool" where
  "no_panic m \<longleftrightarrow> (\<forall>w. fst (m w) \<noteq> Panic)"

lemma no_panic_ret [no_panic_intros]: "no_panic (ret a)"
  by (simp add: no_panic_def go_run)

lemma no_panic_fail [no_panic_intros]: "no_panic (fail e)"
  by (simp add: no_panic_def go_run)

lemma no_panic_bind [no_panic_intros]:
  assumes "no_panic m" "\<And>a. no_panic (k a)" shows "no_panic (bind_go m k)"
  unfolding no_panic_def
proof
  fix w
  obtain r w' where m: "m w = (r, w')" by (cases "m w")
  with assms(1) have "r \<noteq> Panic" unfolding no_panic_def by (metis fst_conv)
  with m assms(2) show "fst (bind_go m k w) \<noteq> Panic"
    by (cases r) (auto simp: go_run no_panic_def)
qed

lemma no_panic_try [no_panic_intros]: "no_panic m \<Longrightarrow> no_panic (try_go m)"
  unfolding no_panic_def try_go_def by (auto split: prod.split go_result.split) (metis fst_conv)

lemma no_panic_ignore_err [no_panic_intros]: "no_panic m \<Longrightarrow> no_panic (ignore_err m)"
  unfolding ignore_err_def by (intro no_panic_intros)

lemma no_panic_for_each [no_panic_intros]:
  "(\<And>x. x \<in> set xs \<Longrightarrow> no_panic (f x)) \<Longrightarrow> no_panic (for_each f xs)"
  by (induction xs) (simp_all add: no_panic_intros)

lemma no_panic_case_sum [no_panic_intros]:
  "(\<And>e. x = Inl e \<Longrightarrow> no_panic (f e)) \<Longrightarrow> (\<And>a. x = Inr a \<Longrightarrow> no_panic (g a)) \<Longrightarrow>
   no_panic (case x of Inl e \<Rightarrow> f e | Inr a \<Rightarrow> g a)"
  by (cases x) simp_all

lemma no_panic_if [no_panic_intros]:
  "(b \<Longrightarrow> no_panic m) \<Longrightarrow> (\<not> b \<Longrightarrow> no_panic n) \<Longrightarrow> no_panic (if b then m else n)"
  by simp

text \<open>A logged method that cannot panic, its error dropped, returns.\<close>

lemma ignore_err_returns:
  assumes "no_panic m" "emits P m Q"
  obtains w' l' where "ignore_err m (w, l) = (Ret (), (w', l @ l'))" "list_all P l'"
proof -
  obtain r w' l' where m: "m (w, l) = (r, (w', l @ l'))" "list_all P l'"
    using emitsD [OF assms(2), of w l] by blast
  with assms(1) have "r \<noteq> Panic" unfolding no_panic_def by (metis fst_conv)
  with m that show ?thesis by (cases r) (auto simp: go_run)
qed

text \<open>Its error dropped, such a method that cannot panic makes the same calls.\<close>

lemma appends_ignored:
  assumes "appends m" "no_panic m" and run: "m (w, []) = (r, (w', l'))"
  shows "ignore_err m (w, l) = (Ret (), (w', l @ l'))"
proof -
  have "r \<noteq> Panic" using assms(2) run unfolding no_panic_def by (metis fst_conv)
  with appendsD [OF assms(1) run] show ?thesis by (cases r) (simp_all add: ignore_err_run)
qed

subsection \<open>Mealy runs: a loop that carries a state and emits one output per element\<close>

fun mealy :: "('s \<Rightarrow> 'x \<Rightarrow> 's \<times> 'y) \<Rightarrow> 's \<Rightarrow> 'x list \<Rightarrow> 'y list" where
  "mealy f s [] = []"
| "mealy f s (x # xs) = (case f s x of (s', y) \<Rightarrow> y # mealy f s' xs)"

lemma length_mealy [simp]: "length (mealy f s xs) = length xs"
  by (induction xs arbitrary: s) (simp_all split: prod.splits)

text \<open>The state after a run.\<close>

definition mealy_state :: "('s \<Rightarrow> 'x \<Rightarrow> 's \<times> 'y) \<Rightarrow> 's \<Rightarrow> 'x list \<Rightarrow> 's" where
  "mealy_state f = foldl (\<lambda>s x. fst (f s x))"

lemma mealy_state_simps [simp]:
  "mealy_state f s [] = s"
  "mealy_state f s (x # xs) = mealy_state f (fst (f s x)) xs"
  by (simp_all add: mealy_state_def)

text \<open>
  Where an element with a silent output leaves the state alone, dropping silent elements from
  the input drops exactly the silent outputs: a second run over what the first one kept repeats
  the first run's decisions.
\<close>

lemma mealy_drop_silent:
  assumes "\<And>s x s' y. f s x = (s', y) \<Longrightarrow> silent y \<Longrightarrow> s' = s"
  shows "mealy f s (map fst (filter (\<lambda>(x, y). \<not> silent y) (zip xs (mealy f s xs)))) =
         filter (\<lambda>y. \<not> silent y) (mealy f s xs)"
proof (induction xs arbitrary: s)
  case Nil
  show ?case by simp
next
  case (Cons x xs)
  obtain s' y where f: "f s x = (s', y)" by (cases "f s x")
  with assms have "silent y \<Longrightarrow> s' = s" by blast
  with f Cons.IH [of s'] show ?case by auto
qed

text \<open>A state component that a step reads and writes alone can be run on its own.\<close>

lemma mealy_project:
  assumes "\<And>s x. case f s x of (s', y) \<Rightarrow> g (p s) x = (p s', q y)"
  shows "map q (mealy f s xs) = mealy g (p s) xs"
proof (induction xs arbitrary: s)
  case Nil
  show ?case by simp
next
  case (Cons x xs)
  obtain s' y where f: "f s x = (s', y)" by (cases "f s x")
  with assms [of s x] have "g (p s) x = (p s', q y)" by simp
  with f Cons.IH [of s'] show ?case by simp
qed

lemma mealy_state_project:
  assumes "\<And>s x. case f s x of (s', y) \<Rightarrow> g (p s) x = (p s', q y)"
  shows "p (mealy_state f s xs) = mealy_state g (p s) xs"
proof (induction xs arbitrary: s)
  case (Cons x xs)
  obtain s' y where f: "f s x = (s', y)" by (cases "f s x")
  with assms [of s x] have "g (p s) x = (p s', q y)" by simp
  with f Cons.IH [of s'] show ?case by simp
qed simp

subsection \<open>Lists\<close>

lemma list_update_id_iff: "xs[i := xs ! i] = xs"
  by simp

lemma those_map_Some [simp]: "those (map (\<lambda>x. Some (f x)) xs) = Some (map f xs)"
  by (induction xs) simp_all

lemma those_eq_Some_iff: "those xs = Some ys \<longleftrightarrow> xs = map Some ys"
  by (induction xs arbitrary: ys) (auto split: option.splits)

lemma those_eq_None_iff: "those xs = None \<longleftrightarrow> None \<in> set xs"
  by (induction xs) (auto split: option.splits)

lemma map_fst_filter_map2:
  "map fst (filter (\<lambda>(x, y). P (g y)) (zip xs ys)) = map fst (filter (\<lambda>(x, b). P b) (zip xs (map g ys)))"
proof (induction xs arbitrary: ys)
  case (Cons x xs)
  then show ?case by (cases ys) auto
qed simp

lemma map_fst_filter_map1:
  "map f (map fst (filter (\<lambda>(x, y). P y) (zip xs ys))) = map fst (filter (\<lambda>(x, y). P y) (zip (map f xs) ys))"
proof (induction xs arbitrary: ys)
  case (Cons x xs)
  then show ?case by (cases ys) auto
qed simp

lemma length_filter_zip:
  "length xs = length ys \<Longrightarrow> length (filter (\<lambda>(x, y). P y) (zip xs ys)) = length (filter P ys)"
  by (induction xs ys rule: list_induct2) auto

lemma map2_filter_zip:
  "length xs = length ys \<Longrightarrow>
   map2 g (map fst (filter (\<lambda>(x, y). P y) (zip xs ys))) (filter P ys) =
   map (\<lambda>(x, y). g x y) (filter (\<lambda>(x, y). P y) (zip xs ys))"
  by (induction xs ys rule: list_induct2) auto

lemma filter_map2:
  "filter P (map2 f xs ys) = map (\<lambda>(x, y). f x y) (filter (\<lambda>(x, y). P (f x y)) (zip xs ys))"
proof (induction xs arbitrary: ys)
  case (Cons x xs)
  then show ?case by (cases ys) auto
qed simp

lemma length_filter_or:
  "length (filter (\<lambda>x. P x \<or> Q x) xs) \<le> length (filter P xs) + length (filter Q xs)"
  by (induction xs) auto

lemma length_filter_implies:
  "(\<And>x. x \<in> set xs \<Longrightarrow> P x \<Longrightarrow> Q x) \<Longrightarrow> length (filter P xs) \<le> length (filter Q xs)"
  by (induction xs) (auto intro: le_SucI)

text \<open>Signed 32-bit counters that are only decremented above zero.\<close>

lemma sint_pred_of_pos:
  fixes c :: "32 word"
  assumes "0 < sint c"
  shows "sint (c - 1) = sint c - 1"
proof -
  have "sint c < 2 ^ 31" using sint_lt [of c] by simp
  with assms show ?thesis
    by (simp add: sint_word_ariths signed_take_bit_int_eq_self)
qed

end
