(* ===== verification/GoTime.thy ===== *)
theory GoTime
  imports Prelude
begin

section \<open>Go's \<open>time.Time\<close>: the calendar the retention rules read\<close>

text \<open>
  The retention loop reads \<open>Unix\<close>, \<open>YearDay\<close>, \<open>Weekday\<close>, \<open>Day\<close>, \<open>Month\<close> and \<open>Year\<close> of a
  time and compares with the zero value \<open>time.Time{}\<close>. This is the proleptic Gregorian
  calendar of the standard library: days are counted from 1 January of year 1 (a Monday) and
  split into 400-, 100-, 4- and 1-year cycles. A time carries the offset of its location,
  because the calendar methods read local time. Sub-second parts play no role in the code.
\<close>

record go_time =
  tm_unix :: int     \<comment> \<open>seconds since 1970-01-01T00:00:00Z\<close>
  tm_offset :: int   \<comment> \<open>seconds east of UTC of the time's location at that instant\<close>

text \<open>The zero value: 1 January of year 1, 00:00:00 UTC.\<close>

definition zero_time :: go_time where
  "zero_time = \<lparr>tm_unix = -62135596800, tm_offset = 0\<rparr>"

definition tm_IsZero :: "go_time \<Rightarrow> bool" where
  "tm_IsZero t \<longleftrightarrow> tm_unix t = tm_unix zero_time"

text \<open>\<open>metav1.Time.IsZero\<close> on a pointer: nil is zero too.\<close>

definition ptr_IsZero :: "go_time option \<Rightarrow> bool" where
  "ptr_IsZero p = (case p of None \<Rightarrow> True | Some t \<Rightarrow> tm_IsZero t)"

definition Unix :: "go_time \<Rightarrow> int" where
  "Unix t = tm_unix t"

text \<open>Days since 1 January of year 1, in the time's location.\<close>

definition days :: "go_time \<Rightarrow> int" where
  "days t = (tm_unix t + tm_offset t + 62135596800) div 86400"

text \<open>Cycle decomposition of a day count: (year, zero-based day of the year).\<close>

definition year_yday :: "int \<Rightarrow> int \<times> int" where
  "year_yday d =
    (let n400 = d div 146097; d1 = d mod 146097;
         c = d1 div 36524; n100 = c - c div 4; d2 = d1 - 36524 * n100;
         n4 = d2 div 1461; d3 = d2 - 1461 * n4;
         q = d3 div 365; n1 = q - q div 4
     in (1 + 400 * n400 + 100 * n100 + 4 * n4 + n1, d3 - 365 * n1))"

definition isLeap :: "int \<Rightarrow> bool" where
  "isLeap y \<longleftrightarrow> y mod 4 = 0 \<and> (y mod 100 \<noteq> 0 \<or> y mod 400 = 0)"

definition daysBefore :: "int list" where
  "daysBefore = [0, 31, 59, 90, 120, 151, 181, 212, 243, 273, 304, 334, 365]"

text \<open>Month (1 to 12) and day of the month of a zero-based day of the year.\<close>

definition month_day :: "bool \<Rightarrow> int \<Rightarrow> int \<times> int" where
  "month_day leap yday =
    (if leap \<and> yday = 31 + 29 - 1 then (2, 29)
     else
       let d = (if leap \<and> yday > 31 + 29 - 1 then yday - 1 else yday);
           m = nat (d div 31);
           end = daysBefore ! (m + 1)
       in if d \<ge> end then (int m + 2, d - end + 1)
          else (int m + 1, d - daysBefore ! m + 1))"

definition Year :: "go_time \<Rightarrow> int" where
  "Year t = fst (year_yday (days t))"

definition YearDay :: "go_time \<Rightarrow> int" where
  "YearDay t = snd (year_yday (days t)) + 1"

definition Month :: "go_time \<Rightarrow> int" where
  "Month t = fst (month_day (isLeap (Year t)) (YearDay t - 1))"

definition Day :: "go_time \<Rightarrow> int" where
  "Day t = snd (month_day (isLeap (Year t)) (YearDay t - 1))"

text \<open>0 is Sunday: day 0 of the count is a Monday.\<close>

definition Weekday :: "go_time \<Rightarrow> int" where
  "Weekday t = (days t + 1) mod 7"

lemmas calendar_defs = Year_def YearDay_def Month_def Day_def Weekday_def days_def year_yday_def
  month_day_def isLeap_def daysBefore_def Let_def

subsection \<open>The zero value reads as the first of January\<close>

lemma zero_time_YearDay [simp]: "YearDay zero_time = 1"
  by (simp add: calendar_defs zero_time_def)

lemma zero_time_Year [simp]: "Year zero_time = 1"
  by (simp add: calendar_defs zero_time_def)

lemma zero_time_Month [simp]: "Month zero_time = 1"
  by (simp add: calendar_defs zero_time_def)

subsection \<open>The cycle decomposition is a date\<close>

text \<open>Days before 1 January of year \<open>y\<close>.\<close>

definition daysBeforeYear :: "int \<Rightarrow> int" where
  "daysBeforeYear y = 365 * (y - 1) + (y - 1) div 4 - (y - 1) div 100 + (y - 1) div 400"

text \<open>
  With \<open>y - 1 = 400 a + 100 b + 4 c + e\<close> in mixed radix, the leap-day corrections collapse.
\<close>

lemma daysBeforeYear_radix:
  assumes "0 \<le> b" "b < 4" "0 \<le> c" "c < 25" "0 \<le> e" "e < 4"
  shows "daysBeforeYear (1 + 400 * a + 100 * b + 4 * c + e) =
         146097 * a + 36524 * b + 1461 * c + 365 * e"
proof -
  have "(400 * a + 100 * b + 4 * c + e) div 4 = 100 * a + 25 * b + c"
    by (rule int_div_pos_eq [where r = e]) (use assms in auto)
  moreover have "(400 * a + 100 * b + 4 * c + e) div 100 = 4 * a + b"
    by (rule int_div_pos_eq [where r = "4 * c + e"]) (use assms in auto)
  moreover have "(400 * a + 100 * b + 4 * c + e) div 400 = a"
    by (rule int_div_pos_eq [where r = "100 * b + 4 * c + e"]) (use assms in auto)
  ultimately show ?thesis by (simp add: daysBeforeYear_def algebra_simps)
qed

lemma dvd_cycle_iff:
  fixes k :: int
  assumes "x = 1 + (k * q + m)" "0 \<le> m" "m < k"
  shows "x mod k = 0 \<longleftrightarrow> m = k - 1"
proof -
  have "x mod k = (1 + m) mod k" using mod_mult_self4 [of k q "1 + m"] assms(1) by (simp add: ac_simps)
  also have "\<dots> = 0 \<longleftrightarrow> m = k - 1"
    using assms(2,3) by (cases "m = k - 1") auto
  finally show ?thesis .
qed

lemma isLeap_radix:
  assumes "0 \<le> b" "b < 4" "0 \<le> c" "c < 25" "0 \<le> e" "e < 4"
  shows "isLeap (1 + 400 * a + 100 * b + 4 * c + e) \<longleftrightarrow> e = 3 \<and> (c \<noteq> 24 \<or> b = 3)"
proof -
  let ?y = "1 + 400 * a + 100 * b + 4 * c + e"
  have "?y mod 4 = 0 \<longleftrightarrow> e = 3"
    using dvd_cycle_iff [of ?y 4 "100 * a + 25 * b + c" e] assms by simp
  moreover have "?y mod 100 = 0 \<longleftrightarrow> 4 * c + e = 99"
    using dvd_cycle_iff [of ?y 100 "4 * a + b" "4 * c + e"] assms by simp
  moreover have "?y mod 400 = 0 \<longleftrightarrow> 100 * b + 4 * c + e = 399"
    using dvd_cycle_iff [of ?y 400 a "100 * b + 4 * c + e"] assms by simp
  ultimately show ?thesis unfolding isLeap_def using assms by auto
qed

lemma clipped_div:
  fixes r :: int
  assumes "0 \<le> r" "r \<le> 4 * k" "0 < k"
  shows "r div k - r div k div 4 = min 3 (r div k)" "0 \<le> r div k" "r div k \<le> 4"
proof -
  show "0 \<le> r div k" using assms by (simp add: pos_imp_zdiv_nonneg_iff)
  have "r div k \<le> 4 * k div k" using assms by (intro zdiv_mono1) auto
  then show le: "r div k \<le> 4" using assms by simp
  have "n - n div 4 = min 3 n" if "0 \<le> n" "n \<le> 4" for n :: int
    using that by presburger
  with le \<open>0 \<le> r div k\<close> show "r div k - r div k div 4 = min 3 (r div k)" by blast
qed

lemma clipped_rem:
  fixes r :: int
  assumes "0 \<le> r" "r \<le> 4 * k" "0 < k"
  shows "0 \<le> r - k * min 3 (r div k)" "min 3 (r div k) < 3 \<Longrightarrow> r - k * min 3 (r div k) < k"
    "min 3 (r div k) = 3 \<Longrightarrow> r - k * min 3 (r div k) \<le> k"
proof -
  have e: "r = k * (r div k) + r mod k" by simp
  have m: "0 \<le> r mod k" "r mod k < k" using assms by auto
  have le: "r div k \<le> 4" by (rule clipped_div(3) [OF assms])
  show "0 \<le> r - k * min 3 (r div k)"
  proof -
    have "k * min 3 (r div k) \<le> k * (r div k)" using assms(3) by (intro mult_left_mono) auto
    with e m show ?thesis by linarith
  qed
  show "min 3 (r div k) < 3 \<Longrightarrow> r - k * min 3 (r div k) < k"
    using m by (cases "r div k \<le> 3") (simp_all add: min_def minus_mult_div_eq_mod)
  show "min 3 (r div k) = 3 \<Longrightarrow> r - k * min 3 (r div k) \<le> k"
    using assms(2) by simp
qed

text \<open>
  Every day count is the day \<open>yd\<close> of a year \<open>y\<close>: \<open>yd\<close> stays below 365, or is day 366 of a leap
  year, and the days before \<open>y\<close> plus \<open>yd\<close> give the count back.
\<close>

lemma year_yday_correct:
  assumes "year_yday d = (y, yd)"
  shows "daysBeforeYear y + yd = d" and "0 \<le> yd" and "yd < (if isLeap y then 366 else 365)"
proof -
  define r1 where "r1 = d mod 146097"
  define b where "b = min 3 (r1 div 36524)"
  define r2 where "r2 = r1 - 36524 * b"
  define c where "c = r2 div 1461"
  define r3 where "r3 = r2 - 1461 * c"
  define e where "e = min 3 (r3 div 365)"
  have r1: "0 \<le> r1" "r1 \<le> 4 * 36524" "(0::int) < 36524"
    using pos_mod_bound [of 146097 d] by (simp_all add: r1_def)
  note b_clip = clipped_div [OF r1] clipped_rem [OF r1]
  have b: "0 \<le> b" "b < 4" using b_clip(2) by (auto simp: b_def)
  have r2: "0 \<le> r2" "b < 3 \<Longrightarrow> r2 < 36524" "b = 3 \<Longrightarrow> r2 \<le> 36524"
    using b_clip(4-6) by (simp_all add: b_def r2_def)
  have r2_le: "r2 \<le> 36524" using r2 b by (cases "b = 3") auto
  have c: "0 \<le> c" "c < 25" unfolding c_def using r2(1) r2_le by (auto simp: pos_imp_zdiv_nonneg_iff) 
  have r3_mod: "r3 = r2 mod 1461" by (simp add: r3_def c_def minus_mult_div_eq_mod)
  have r3: "0 \<le> r3" "r3 \<le> 4 * 365" "(0::int) < 365"
    using pos_mod_bound [of 1461 r2] by (simp_all add: r3_mod)
  note e_clip = clipped_div [OF r3] clipped_rem [OF r3]
  have e: "0 \<le> e" "e < 4" using e_clip(2) by (auto simp: e_def)
  have "year_yday d = (1 + 400 * (d div 146097) + 100 * b + 4 * c + e, r3 - 365 * e)"
    unfolding year_yday_def Let_def r1_def [symmetric] b_clip(1)
    by (simp only: b_def [symmetric] r2_def [symmetric] c_def [symmetric] r3_def [symmetric]
        e_clip(1) e_def [symmetric])
  with assms have y: "y = 1 + 400 * (d div 146097) + 100 * b + 4 * c + e"
    and yd: "yd = r3 - 365 * e" by simp_all
  have d: "d = 146097 * (d div 146097) + 36524 * b + 1461 * c + r3"
    by (simp add: r3_def r2_def r1_def minus_mod_eq_mult_div [symmetric])
  show "daysBeforeYear y + yd = d"
    unfolding y daysBeforeYear_radix [OF b c e] yd using d by linarith
  show "0 \<le> yd" using e_clip(4) by (simp add: yd e_def)
  have "e < 3 \<Longrightarrow> yd < 365" "e = 3 \<Longrightarrow> yd \<le> 365"
    using e_clip(5,6) by (simp_all add: yd e_def)
  moreover have "yd < 365" if "e = 3" "c = 24" "b \<noteq> 3"
    using that r2(2) b by (simp add: yd r3_def)
  ultimately show "yd < (if isLeap y then 366 else 365)"
    unfolding y isLeap_radix [OF b c e] using b e by force
qed

lemma YearDay_bounds: "1 \<le> YearDay t" "YearDay t \<le> (if isLeap (Year t) then 366 else 365)"
  using year_yday_correct(2,3) [of "days t" "Year t" "YearDay t - 1"]
  by (auto simp: Year_def YearDay_def split: if_splits)

text \<open>Day 1 of the year is the first of January, whatever the year.\<close>

lemma YearDay_1_first_of_January:
  assumes "YearDay t = 1" shows "Month t = 1" "Day t = 1"
  using assms by (simp_all add: Month_def Day_def month_day_def daysBefore_def)

end
