(* ===== verification/ApiTypes.thy ===== *)
theory ApiTypes
  imports GoTime
begin

section \<open>The API types (api/v1alpha1) and the Kubernetes objects the controllers touch\<close>

text \<open>
  The structs of \<open>api/v1alpha1/*_types.go\<close> as records with their fields in order, their string
  enums as datatypes. Of the Kubernetes objects (pods, cron jobs, roles, ...) the records keep
  the fields that the code of the repository reads or writes. A pointer field is an option,
  with \<open>None\<close> for nil. A Go slice is a list.
\<close>

subsection \<open>Session states (backupsession_types.go)\<close>

text \<open>
  \<open>SessionState\<close> is a string with nine named constants. \<open>Unset\<close> is the zero value, the empty
  string of a session or target that was just created; \<open>OtherState\<close> is any other string, which
  the API server accepts, as the field has no enum validation.
\<close>

datatype session_state = Unset | New | Initializing | Initialized | Running | Waiting
  | WaitingForJob | Finalize | Success | Failure | OtherState string

fun state_string :: "session_state \<Rightarrow> string" where
  "state_string Unset = ''''"
| "state_string New = ''New''"
| "state_string Initializing = ''Initializing''"
| "state_string Initialized = ''Initialized''"
| "state_string Running = ''Running''"
| "state_string Waiting = ''Waiting''"
| "state_string WaitingForJob = ''WaitingForJob''"
| "state_string Finalize = ''Finalize''"
| "state_string Success = ''Success''"
| "state_string Failure = ''Failure''"
| "state_string (OtherState s) = s"

definition named_states :: "session_state list" where
  "named_states = [Unset, New, Initializing, Initialized, Running, Waiting, WaitingForJob,
     Finalize, Success, Failure]"

text \<open>How a decoded string becomes a state: the constant it spells, if any.\<close>

definition state_of_string :: "string \<Rightarrow> session_state" where
  "state_of_string s = (case find (\<lambda>st. state_string st = s) named_states of
     Some st \<Rightarrow> st | None \<Rightarrow> OtherState s)"

text \<open>The states a decoded object can hold: \<open>OtherState\<close> never spells a constant.\<close>

definition decoded_state :: "session_state \<Rightarrow> bool" where
  "decoded_state st \<longleftrightarrow> st = state_of_string (state_string st)"

lemma state_string_of_string: "state_string (state_of_string s) = s"
proof (cases "find (\<lambda>st. state_string st = s) named_states")
  case None
  then show ?thesis by (simp add: state_of_string_def)
next
  case (Some st)
  then have "state_string st = s" by (auto simp: find_Some_iff)
  with Some show ?thesis by (simp add: state_of_string_def)
qed

lemma state_of_string_decoded: "decoded_state (state_of_string s)"
  by (simp add: decoded_state_def state_string_of_string)

lemma decoded_state_named: "st \<in> set named_states \<Longrightarrow> decoded_state st"
proof -
  have "list_all decoded_state named_states"
    by code_simp
  then show "st \<in> set named_states \<Longrightarrow> decoded_state st" by (simp add: list_all_iff)
qed

subsection \<open>Metadata\<close>

text \<open>\<open>client.ObjectKey\<close>: namespace and name.\<close>

type_synonym object_key = "string \<times> string"

record obj_meta =
  om_Namespace :: string
  om_Name :: string
  om_GenerateName :: string
  om_Finalizers :: "string list"
  om_DeletionTimestamp :: "go_time option"

definition named_meta :: "string \<Rightarrow> string \<Rightarrow> obj_meta" where
  "named_meta ns n = \<lparr>om_Namespace = ns, om_Name = n, om_GenerateName = '''',
     om_Finalizers = [], om_DeletionTimestamp = None\<rparr>"

definition meta_key :: "obj_meta \<Rightarrow> object_key" where
  "meta_key m = (om_Namespace m, om_Name m)"

subsection \<open>Backup configurations (backupconfiguration_types.go)\<close>

datatype target_kind = Deployment | StatefulSet | Pod

datatype backup_type = SnapshotKind | OnlineKind | JobKind

record step =
  st_Finalize :: "string option"
  st_Initialize :: "string option"
  st_Backup :: "string option"
  st_Restore :: "string option"

record target_container =
  tc_Name :: string
  tc_Paths :: "string list"
  tc_Steps :: "step list"
  tc_SharePath :: string
  tc_Job :: "step list"

text \<open>
  \<open>Retry\<close> is a Go \<open>int\<close>; the only arithmetic on retries is \<open>Try++\<close> below \<open>Retry\<close>, so an
  unbounded integer never leaves the 64-bit range (theory Session proves the bound).
\<close>

record target =
  tg_BackupType :: backup_type
  tg_TargetKind :: target_kind
  tg_TargetName :: string
  tg_Containers :: "target_container list"
  tg_Retry :: int
  tg_VolumeSnapshotClass :: string

text \<open>The retention policy: \<open>int32\<close> counters, negative values included.\<close>

record keep_policy =
  kp_Last :: "32 word"
  kp_Daily :: "32 word"
  kp_Weekly :: "32 word"
  kp_Monthly :: "32 word"
  kp_Yearly :: "32 word"

record backup_configuration_spec =
  bcs_Repository :: string
  bcs_Image :: string
  bcs_Suspend :: "bool option"
  bcs_Schedule :: string
  bcs_Keep :: keep_policy
  bcs_Targets :: "target list"

record backup_configuration_status =
  bct_LastBackupTime :: "go_time option"
  bct_Suspended :: bool
  bct_ActiveCronJob :: bool
  bct_ActiveSidecar :: bool

record backup_configuration =
  bc_Meta :: obj_meta
  bc_Spec :: backup_configuration_spec
  bc_Status :: backup_configuration_status

subsection \<open>Backup sessions (backupsession_types.go)\<close>

record target_status =
  ts_BackupType :: backup_type
  ts_TargetName :: string
  ts_TargetKind :: target_kind
  ts_SessionState :: session_state
  ts_SnapshotId :: string
  ts_StartTime :: "go_time option"
  ts_Duration :: "int option"
  ts_Try :: int

text \<open>\<open>Spec.Ref\<close> is an object reference, of which namespace and name are used.\<close>

record backup_session_spec =
  bss_Ref :: object_key

record backup_session_status =
  bst_SessionState :: session_state
  bst_StartTime :: "go_time option"
  bst_Targets :: "target_status list"
  bst_Keep :: string

record backup_session =
  bs_Meta :: obj_meta
  bs_Spec :: backup_session_spec
  bs_Status :: backup_session_status

subsection \<open>Restore sessions (restoresession_types.go)\<close>

record backup_session_ref =
  bsr_Spec :: backup_session_spec
  bsr_Status :: backup_session_status

record restore_session_spec =
  rss_BackupSessionRef :: backup_session_ref

record restore_session_status =
  rst_SessionState :: session_state
  rst_StartTime :: "go_time option"
  rst_Targets :: "target_status list"

record restore_session =
  rs_Meta :: obj_meta
  rs_Spec :: restore_session_spec
  rs_Status :: restore_session_status

subsection \<open>Pods: containers, volumes\<close>

record env_var =
  ev_Name :: string
  ev_Value :: string
  ev_FieldPath :: "string option"   \<comment> \<open>\<open>ValueFrom.FieldRef.FieldPath\<close>\<close>

record volume_mount =
  vm_Name :: string
  vm_ReadOnly :: bool
  vm_MountPath :: string
  vm_SubPath :: string

record container =
  ct_Name :: string
  ct_Image :: string
  ct_Args :: "string list"
  ct_Env :: "env_var list"
  ct_VolumeMounts :: "volume_mount list"
  ct_Privileged :: "bool option"

text \<open>A volume's source: an empty directory, or any other source, which the code only copies.\<close>

datatype volume_source = EmptyDir | OtherSource string

record volume =
  vol_Name :: string
  vol_Source :: volume_source

record pod_spec =
  ps_Containers :: "container list"
  ps_InitContainers :: "container list"
  ps_Volumes :: "volume list"
  ps_RestartPolicy :: string
  ps_ServiceAccountName :: string
  ps_ShareProcessNamespace :: "bool option"

text \<open>Deployments and stateful sets: the two workloads whose pod template a target names.\<close>

datatype workload_kind = DeploymentWorkload | StatefulSetWorkload

record workload =
  wl_Meta :: obj_meta
  wl_PodSpec :: pod_spec

subsection \<open>Repositories (repo_types.go)\<close>

record s3 =
  s3_Server :: string
  s3_Bucket :: string
  s3_Prefix :: string

record repo_backend =
  be_S3 :: "s3 option"
  be_Local :: "volume_source option"

record repo =
  rp_Meta :: obj_meta
  rp_Backend :: repo_backend
  rp_RepositorySecrets :: string

subsection \<open>Functions (function_types.go)\<close>

text \<open>The status has no fields, and the spec is a container.\<close>

record formol_function =
  fn_Meta :: obj_meta
  fn_Spec :: container

subsection \<open>Jobs, cron jobs and access control\<close>

record cron_job =
  cj_Meta :: obj_meta
  cj_Owner :: "object_key option"
  cj_Suspend :: "bool option"
  cj_Schedule :: string
  cj_PodSpec :: pod_spec

record job =
  jb_Meta :: obj_meta
  jb_TTLSecondsAfterFinished :: "int option"
  jb_PodSpec :: pod_spec

record service_account =
  sa_Meta :: obj_meta

record policy_rule =
  pr_Verbs :: "string list"
  pr_APIGroups :: "string list"
  pr_Resources :: "string list"

record role =
  ro_Meta :: obj_meta
  ro_Rules :: "policy_rule list"

record subject =
  sj_Kind :: string
  sj_Name :: string
  sj_Namespace :: string

record role_ref =
  rr_APIGroup :: string
  rr_Kind :: string
  rr_Name :: string

record role_binding =
  rb_Meta :: obj_meta
  rb_Subjects :: "subject list"
  rb_RoleRef :: role_ref

text \<open>Any object a write call can take (\<open>client.Object\<close>).\<close>

datatype kobject =
    OBackupConfiguration backup_configuration
  | OBackupSession backup_session
  | ORestoreSession restore_session
  | OWorkload workload_kind workload
  | OCronJob cron_job
  | OJob job
  | OServiceAccount service_account
  | ORole role
  | ORoleBinding role_binding
  | OClusterRole role
  | OClusterRoleBinding role_binding

subsection \<open>The pod template a target names\<close>

text \<open>
  \<open>GetTargetObjects\<close> returns an empty object of the target's kind together with a pointer to
  the pod spec inside it; for \<open>Pod\<close> both results keep their nil zero values.
\<close>

fun GetTargetObjects :: "target_kind \<Rightarrow> workload_kind option" where
  "GetTargetObjects Deployment = Some DeploymentWorkload"
| "GetTargetObjects StatefulSet = Some StatefulSetWorkload"
| "GetTargetObjects Pod = None"

end
