(* ===== verification/Client.thy ===== *)
theory Client
  imports ApiTypes "HOL-Library.Multiset"
begin

section \<open>The API server and the libraries the controllers call\<close>

text \<open>
  The code the controllers rely on and that is not under src/: the client of
  controller-runtime, with its API server and cache behind it, the finalizer helpers of
  \<open>controllerutil\<close>, \<open>ctrl.SetControllerReference\<close> and the unstable \<open>sort.Slice\<close>. They are
  arguments of the model. A client call may answer anything and move the world anyhow (other
  controllers run, the cache lags), unless a theorem names a law.
\<close>

subsection \<open>The client\<close>

datatype resource = RBackupConfiguration | RBackupSession | RRestoreSession | RRepo
  | RWorkload "workload_kind option" | RCronJob | RServiceAccount | RRole | RRoleBinding
  | RClusterRole | RClusterRoleBinding

type_synonym ('w, 'a) answer = "'w \<Rightarrow> (api_error + 'a) \<times> 'w"

record 'w api =
  api_BackupConfiguration :: "object_key \<Rightarrow> ('w, backup_configuration) answer"
  api_BackupSession :: "object_key \<Rightarrow> ('w, backup_session) answer"
  api_RestoreSession :: "object_key \<Rightarrow> ('w, restore_session) answer"
  api_Repo :: "object_key \<Rightarrow> ('w, repo) answer"
  api_Workload :: "workload_kind option \<Rightarrow> object_key \<Rightarrow> ('w, workload) answer"
    \<comment> \<open>\<open>None\<close>: a read into the nil object that \<open>GetTargetObjects\<close> returns for \<open>Pod\<close>\<close>
  api_CronJob :: "object_key \<Rightarrow> ('w, cron_job) answer"
  api_ServiceAccount :: "object_key \<Rightarrow> ('w, service_account) answer"
  api_Role :: "object_key \<Rightarrow> ('w, role) answer"
  api_RoleBinding :: "object_key \<Rightarrow> ('w, role_binding) answer"
  api_ClusterRole :: "object_key \<Rightarrow> ('w, role) answer"
  api_ClusterRoleBinding :: "object_key \<Rightarrow> ('w, role_binding) answer"
  api_ListBackupSessions :: "string \<Rightarrow> string \<Rightarrow> ('w, backup_session list) answer"
    \<comment> \<open>namespace and the value of the \<open>.metadata.state\<close> index\<close>
  api_Create :: "kobject \<Rightarrow> ('w, unit) answer"
  api_Update :: "kobject \<Rightarrow> ('w, unit) answer"
  api_Delete :: "kobject \<Rightarrow> ('w, unit) answer"
  api_StatusUpdate :: "kobject \<Rightarrow> ('w, unit) answer"

text \<open>A client call as an effect: it answers or fails, it never panics.\<close>

definition call :: "('w, 'a) answer \<Rightarrow> ('w, 'a) go" where
  "call f = (\<lambda>w. case f w of (Inl e, w') \<Rightarrow> (Fail e, w') | (Inr a, w') \<Rightarrow> (Ret a, w'))"

lemma call_run [go_run]:
  "f w = (Inl e, w') \<Longrightarrow> call f w = (Fail e, w')"
  "f w = (Inr a, w') \<Longrightarrow> call f w = (Ret a, w')"
  by (simp_all add: call_def)

lemma no_panic_call [no_panic_intros]: "no_panic (call f)"
  by (simp add: no_panic_def call_def split: prod.split sum.split)

subsection \<open>The library functions\<close>

record lib =
  ContainsFinalizer :: "string list \<Rightarrow> string \<Rightarrow> bool"
  AddFinalizer :: "string list \<Rightarrow> string \<Rightarrow> string list"
  RemoveFinalizer :: "string list \<Rightarrow> string \<Rightarrow> string list"
  SetControllerReference :: "backup_configuration \<Rightarrow> cron_job \<Rightarrow> api_error + cron_job"
  SortByStartDesc :: "(backup_session \<times> go_time) list \<Rightarrow> (backup_session \<times> go_time) list"
    \<comment> \<open>\<open>sort.Slice\<close> with the comparison of the retention loop\<close>

text \<open>Documented behaviour of the finalizer helpers.\<close>

definition finalizer_laws :: "lib \<Rightarrow> bool" where
  "finalizer_laws L \<longleftrightarrow>
     (\<forall>fs f. ContainsFinalizer L fs f = (f \<in> set fs)) \<and>
     (\<forall>fs f. f \<in> set (AddFinalizer L fs f) \<and> set fs \<subseteq> set (AddFinalizer L fs f)) \<and>
     (\<forall>fs f. set (RemoveFinalizer L fs f) = set fs - {f})"

text \<open>
  Documented behaviour of \<open>sort.Slice\<close>: the result is a permutation in which no element is
  strictly before a predecessor; ties come in any order.
\<close>

definition sort_law :: "lib \<Rightarrow> bool" where
  "sort_law L \<longleftrightarrow> (\<forall>xs. mset (SortByStartDesc L xs) = mset xs \<and>
     sorted_wrt (\<lambda>a b. Unix (snd a) \<ge> Unix (snd b)) (SortByStartDesc L xs))"

subsection \<open>Results of a reconciliation\<close>

text \<open>\<open>ctrl.Result\<close>: the delay in seconds after which to be called again, 0 for none.\<close>

record result =
  RequeueAfter :: int

definition no_requeue :: result where
  "no_requeue = \<lparr>RequeueAfter = 0\<rparr>"

subsection \<open>Logging\<close>

datatype api_call = GetCall resource object_key | ListCall string string
  | CreateCall kobject | UpdateCall kobject | DeleteCall kobject | StatusUpdateCall kobject

definition log_call :: "'l \<Rightarrow> ('w, 'a) answer \<Rightarrow> ('w \<times> 'l list, 'a) answer" where
  "log_call c f = (\<lambda>(w, l). case f w of (r, w') \<Rightarrow> (r, (w', l @ [c])))"

text \<open>The same client over a world that records every call.\<close>

definition logged :: "'w api \<Rightarrow> ('w \<times> api_call list) api" where
  "logged A = \<lparr>
     api_BackupConfiguration = (\<lambda>k. log_call (GetCall RBackupConfiguration k) (api_BackupConfiguration A k)),
     api_BackupSession = (\<lambda>k. log_call (GetCall RBackupSession k) (api_BackupSession A k)),
     api_RestoreSession = (\<lambda>k. log_call (GetCall RRestoreSession k) (api_RestoreSession A k)),
     api_Repo = (\<lambda>k. log_call (GetCall RRepo k) (api_Repo A k)),
     api_Workload = (\<lambda>wk k. log_call (GetCall (RWorkload wk) k) (api_Workload A wk k)),
     api_CronJob = (\<lambda>k. log_call (GetCall RCronJob k) (api_CronJob A k)),
     api_ServiceAccount = (\<lambda>k. log_call (GetCall RServiceAccount k) (api_ServiceAccount A k)),
     api_Role = (\<lambda>k. log_call (GetCall RRole k) (api_Role A k)),
     api_RoleBinding = (\<lambda>k. log_call (GetCall RRoleBinding k) (api_RoleBinding A k)),
     api_ClusterRole = (\<lambda>k. log_call (GetCall RClusterRole k) (api_ClusterRole A k)),
     api_ClusterRoleBinding = (\<lambda>k. log_call (GetCall RClusterRoleBinding k) (api_ClusterRoleBinding A k)),
     api_ListBackupSessions = (\<lambda>ns st. log_call (ListCall ns st) (api_ListBackupSessions A ns st)),
     api_Create = (\<lambda>x. log_call (CreateCall x) (api_Create A x)),
     api_Update = (\<lambda>x. log_call (UpdateCall x) (api_Update A x)),
     api_Delete = (\<lambda>x. log_call (DeleteCall x) (api_Delete A x)),
     api_StatusUpdate = (\<lambda>x. log_call (StatusUpdateCall x) (api_StatusUpdate A x))\<rparr>"

lemma logged_sel [simp]:
  "api_BackupConfiguration (logged A) k = log_call (GetCall RBackupConfiguration k) (api_BackupConfiguration A k)"
  "api_BackupSession (logged A) k = log_call (GetCall RBackupSession k) (api_BackupSession A k)"
  "api_RestoreSession (logged A) k = log_call (GetCall RRestoreSession k) (api_RestoreSession A k)"
  "api_Repo (logged A) k = log_call (GetCall RRepo k) (api_Repo A k)"
  "api_Workload (logged A) wk k = log_call (GetCall (RWorkload wk) k) (api_Workload A wk k)"
  "api_CronJob (logged A) k = log_call (GetCall RCronJob k) (api_CronJob A k)"
  "api_ServiceAccount (logged A) k = log_call (GetCall RServiceAccount k) (api_ServiceAccount A k)"
  "api_Role (logged A) k = log_call (GetCall RRole k) (api_Role A k)"
  "api_RoleBinding (logged A) k = log_call (GetCall RRoleBinding k) (api_RoleBinding A k)"
  "api_ClusterRole (logged A) k = log_call (GetCall RClusterRole k) (api_ClusterRole A k)"
  "api_ClusterRoleBinding (logged A) k = log_call (GetCall RClusterRoleBinding k) (api_ClusterRoleBinding A k)"
  "api_ListBackupSessions (logged A) ns st = log_call (ListCall ns st) (api_ListBackupSessions A ns st)"
  "api_Create (logged A) x = log_call (CreateCall x) (api_Create A x)"
  "api_Update (logged A) x = log_call (UpdateCall x) (api_Update A x)"
  "api_Delete (logged A) x = log_call (DeleteCall x) (api_Delete A x)"
  "api_StatusUpdate (logged A) x = log_call (StatusUpdateCall x) (api_StatusUpdate A x)"
  by (simp_all add: logged_def)

lemma emits_logged_call [emits_intros]:
  assumes "P c" shows "emits P (call (log_call c f)) (\<lambda>_. True)"
proof (rule emitsI)
  fix w l
  obtain x w' where "f w = (x, w')" by (cases "f w")
  with assms show "\<exists>r w' l'. call (log_call c f) (w, l) = (r, (w', l @ l')) \<and> list_all P l' \<and>
      (\<forall>a. r = Ret a \<longrightarrow> True)"
    by (cases x) (auto simp: call_def log_call_def)
qed

lemma appends_call [appends_intros]: "appends (call (log_call c f))"
  by (auto simp: appends_def call_def log_call_def split: prod.splits sum.splits)

text \<open>One logged call, and one whose error is dropped.\<close>

lemma call_log_call:
  "f w = (Inl e, w') \<Longrightarrow> call (log_call c f) (w, l) = (Fail e, (w', l @ [c]))"
  "f w = (Inr a, w') \<Longrightarrow> call (log_call c f) (w, l) = (Ret a, (w', l @ [c]))"
  by (simp_all add: call_def log_call_def)

lemma ignore_log_call:
  "\<exists>w'. ignore_err (call (log_call c f)) (w, l) = (Ret (), (w', l @ [c]))"
proof -
  obtain x w' where f: "f w = (x, w')" by (cases "f w")
  then show ?thesis
  proof (cases x)
    case (Inl e)
    with f have "call (log_call c f) (w, l) = (Fail e, (w', l @ [c]))"
      by (simp add: call_def log_call_def)
    then show ?thesis by (auto simp: go_run)
  next
    case (Inr a)
    with f have "call (log_call c f) (w, l) = (Ret a, (w', l @ [c]))"
      by (simp add: call_def log_call_def)
    then show ?thesis by (auto simp: go_run)
  qed
qed

text \<open>The combinators unfolded, to execute a method on given answers.\<close>

lemmas go_exec = bind_go_def try_go_def ignore_err_def of_option_def call_def log_call_def
  ret_def fail_def panic_def

text \<open>The calls of a log that change the cluster.\<close>

fun is_write :: "api_call \<Rightarrow> bool" where
  "is_write (GetCall _ _) = False"
| "is_write (ListCall _ _) = False"
| "is_write _ = True"

definition writes :: "api_call list \<Rightarrow> api_call list" where
  "writes = filter is_write"

definition log_of :: "('w \<times> 'l list, 'a) go \<Rightarrow> 'w \<Rightarrow> 'l list" where
  "log_of m w = snd (snd (m (w, [])))"

end
