(* ===== verification/Samples.thy ===== *)
theory Samples
  imports Client
begin

section \<open>Concrete inputs for the witnesses\<close>

text \<open>
  Small objects and libraries at which the witness theorems evaluate the model: a configuration
  with a retention policy, sessions with a start time, library functions that satisfy the laws
  of theory Client, and a client that answers from fixed responses. None of them models code of
  the repository.
\<close>

definition sample_policy :: "int \<Rightarrow> int \<Rightarrow> keep_policy" where
  "sample_policy l d = \<lparr>kp_Last = word_of_int l, kp_Daily = word_of_int d, kp_Weekly = 0,
     kp_Monthly = 0, kp_Yearly = 0\<rparr>"

definition sample_container :: "string \<Rightarrow> target_container" where
  "sample_container n = \<lparr>tc_Name = n, tc_Paths = [''/data''], tc_Steps = [],
     tc_SharePath = ''/formol-shared'', tc_Job = []\<rparr>"

definition sample_target :: "string \<Rightarrow> int \<Rightarrow> target" where
  "sample_target n retry = \<lparr>tg_BackupType = OnlineKind, tg_TargetKind = Deployment,
     tg_TargetName = n, tg_Containers = [sample_container ''apache''], tg_Retry = retry,
     tg_VolumeSnapshotClass = ''''\<rparr>"

definition sample_conf :: "target list \<Rightarrow> keep_policy \<Rightarrow> backup_configuration" where
  "sample_conf tgs p = \<lparr>bc_Meta = named_meta ''demo'' ''backup-demo'',
     bc_Spec = \<lparr>bcs_Repository = ''repo-minio'', bcs_Image = ''formolcli'', bcs_Suspend = Some True,
       bcs_Schedule = ''15 * * * *'', bcs_Keep = p, bcs_Targets = tgs\<rparr>,
     bc_Status = \<lparr>bct_LastBackupTime = None, bct_Suspended = False, bct_ActiveCronJob = False,
       bct_ActiveSidecar = False\<rparr>\<rparr>"

definition utc :: "int \<Rightarrow> go_time" where
  "utc u = \<lparr>tm_unix = u, tm_offset = 0\<rparr>"

definition sample_session :: "string \<Rightarrow> session_state \<Rightarrow> int \<Rightarrow> backup_session" where
  "sample_session n st u = \<lparr>bs_Meta = named_meta ''demo'' n,
     bs_Spec = \<lparr>bss_Ref = (''demo'', ''backup-demo'')\<rparr>,
     bs_Status = \<lparr>bst_SessionState = st, bst_StartTime = Some (utc u), bst_Targets = [],
       bst_Keep = ''''\<rparr>\<rparr>"

definition sample_status :: "session_state \<Rightarrow> target_status" where
  "sample_status s = \<lparr>ts_BackupType = OnlineKind, ts_TargetName = ''apache'', ts_TargetKind = Deployment,
     ts_SessionState = s, ts_SnapshotId = '''', ts_StartTime = Some (utc 0), ts_Duration = None, ts_Try = 1\<rparr>"

text \<open>A stable insertion sort, which \<open>sort.Slice\<close> uses for short slices, satisfies its law.\<close>

definition sample_lib :: lib where
  "sample_lib = \<lparr>ContainsFinalizer = (\<lambda>fs f. List.member fs f),
     AddFinalizer = (\<lambda>fs f. if List.member fs f then fs else fs @ [f]),
     RemoveFinalizer = (\<lambda>fs f. filter (\<lambda>g. g \<noteq> f) fs),
     SetControllerReference = (\<lambda>conf cj. Inr (cj\<lparr>cj_Owner := Some (meta_key (bc_Meta conf))\<rparr>)),
     SortByStartDesc = sort_key (\<lambda>x. - Unix (snd x))\<rparr>"

lemma sample_lib_finalizers: "finalizer_laws sample_lib"
  by (auto simp: finalizer_laws_def sample_lib_def)

lemma sample_lib_sorts: "sort_law sample_lib"
proof -
  have "sorted_wrt (\<lambda>a b. Unix (snd a) \<ge> Unix (snd b)) (sort_key (\<lambda>x. - Unix (snd x)) xs)"
    for xs :: "(backup_session \<times> go_time) list"
    using sorted_sort_key [of "\<lambda>x. - Unix (snd x)" xs] by (simp add: sorted_map)
  then show ?thesis by (simp add: sort_law_def sample_lib_def)
qed

text \<open>Two successful sessions, newest first.\<close>

definition sample_newer :: backup_session where
  "sample_newer = sample_session ''newer'' Success 1700000000"

definition sample_older :: backup_session where
  "sample_older = sample_session ''older'' Success 1690000000"

definition sample_items :: "(backup_session \<times> go_time) list" where
  "sample_items = [(sample_newer, utc 1700000000), (sample_older, utc 1690000000)]"

lemmas sample_simps = sample_policy_def sample_conf_def sample_session_def utc_def sample_newer_def
  sample_older_def sample_items_def sample_lib_def

subsection \<open>A client with fixed answers\<close>

text \<open>It answers the two reads, lists nothing and accepts every write.\<close>

definition fixed_api :: "(api_error + backup_session) \<Rightarrow> (api_error + backup_configuration) \<Rightarrow>
    backup_session list \<Rightarrow> 'w api" where
  "fixed_api s conf items = \<lparr>
     api_BackupConfiguration = (\<lambda>_ w. (conf, w)), api_BackupSession = (\<lambda>_ w. (s, w)),
     api_RestoreSession = (\<lambda>_ w. (Inl NotFound, w)), api_Repo = (\<lambda>_ w. (Inl NotFound, w)),
     api_Workload = (\<lambda>_ _ w. (Inl NotFound, w)), api_CronJob = (\<lambda>_ w. (Inl NotFound, w)),
     api_ServiceAccount = (\<lambda>_ w. (Inl NotFound, w)), api_Role = (\<lambda>_ w. (Inl NotFound, w)),
     api_RoleBinding = (\<lambda>_ w. (Inl NotFound, w)), api_ClusterRole = (\<lambda>_ w. (Inl NotFound, w)),
     api_ClusterRoleBinding = (\<lambda>_ w. (Inl NotFound, w)),
     api_ListBackupSessions = (\<lambda>_ _ w. (Inr items, w)), api_Create = (\<lambda>_ w. (Inr (), w)),
     api_Update = (\<lambda>_ w. (Inr (), w)), api_Delete = (\<lambda>_ w. (Inr (), w)),
     api_StatusUpdate = (\<lambda>_ w. (Inr (), w))\<rparr>"

lemma fixed_api_sel [simp]:
  "api_BackupConfiguration (fixed_api s conf items) k w = (conf, w)"
  "api_BackupSession (fixed_api s conf items) k w = (s, w)"
  "api_ListBackupSessions (fixed_api s conf items) ns st w = (Inr items, w)"
  by (simp_all add: fixed_api_def)

end
