(* ===== verification/Session.thy ===== *)
theory Session
  imports Samples
begin

section \<open>Session (controllers/session.go): the checks both session controllers share\<close>

text \<open>
  The methods of the embedded struct \<open>Session\<close>: \<open>isBackupOngoing\<close>, \<open>initSession\<close> and
  \<open>checkSessionState\<close> with its three instances. \<open>checkSessionState\<close> is modelled twice: as the
  loop of the code, with its early returns, its \<open>continue\<close> and its deferred override of the
  result, and as an abstract description by the first target that is not settled
  (\<open>phase_outcome\<close>); the refinement lemma says that they agree. The locale \<open>phase_check\<close> is the
  contract the controllers use, interpreted for the three instances.
\<close>

subsection \<open>Operations\<close>

text \<open>
  \<open>isBackupOngoing\<close>: an error of the list call counts as an ongoing backup.
\<close>

definition isBackupOngoing :: "'w api \<Rightarrow> backup_configuration \<Rightarrow> ('w, bool) go" where
  "isBackupOngoing A conf =
     bind_go (try_go (call (api_ListBackupSessions A (om_Namespace (bc_Meta conf)) ''Running'')))
       (\<lambda>r. case r of Inl _ \<Rightarrow> ret True | Inr items \<Rightarrow> ret (length items > 0))"

text \<open>
  \<open>initSession\<close>: one status per target, in order. \<open>now i\<close> is the i-th reading of the clock.
\<close>

definition initSession :: "(nat \<Rightarrow> go_time) \<Rightarrow> backup_configuration \<Rightarrow> target_status list" where
  "initSession now conf =
     map (\<lambda>(i, tg). \<lparr>ts_BackupType = tg_BackupType tg, ts_TargetName = tg_TargetName tg,
            ts_TargetKind = tg_TargetKind tg, ts_SessionState = Unset, ts_SnapshotId = '''',
            ts_StartTime = Some (now i), ts_Duration = None, ts_Try = 1\<rparr>)
       (enumerate 0 (bcs_Targets (bc_Spec conf)))"

text \<open>
  The loop of \<open>checkSessionState\<close> from index \<open>i\<close> on: the state to return and the statuses, which
  the code updates in place. \<open>None\<close> is the panic of \<open>backupConf.Spec.Targets[i]\<close> out of range.
  A target in state \<open>WaitingForJob\<close> defers the override of the result by \<open>waitState\<close>, which
  happens whatever the rest of the loop returns. In the default case the code returns
  \<open>nextState\<close> at the last index (\<open>i == len(tss)-1\<close>, here: nothing is left) and goes on otherwise.
\<close>

fun checkLoop :: "go_time \<Rightarrow> target list \<Rightarrow> session_state \<Rightarrow> session_state \<Rightarrow> session_state \<Rightarrow>
    nat \<Rightarrow> target_status list \<Rightarrow> (session_state \<times> target_status list) option" where
  "checkLoop now tgs currentState waitState nextState i [] = Some (Unset, [])"
| "checkLoop now tgs currentState waitState nextState i (t # ts) =
    (if ts_SessionState t = currentState then
       Some (waitState, t\<lparr>ts_SessionState := waitState\<rparr> # ts)
     else if ts_SessionState t = Failure then
       (if i < length tgs then
          (if ts_Try t < tg_Retry (tgs ! i) then
             Some (waitState, t\<lparr>ts_SessionState := waitState, ts_Try := ts_Try t + 1,
                                ts_StartTime := Some now\<rparr> # ts)
           else Some (Failure, t # ts))
        else None)
     else if ts_SessionState t = waitState then Some (Unset, t # ts)
     else if ts_SessionState t = WaitingForJob then
       map_option (\<lambda>(_, ts'). (waitState, t # ts'))
         (checkLoop now tgs currentState waitState nextState (Suc i) ts)
     else if ts = [] then Some (nextState, [t])
     else map_option (\<lambda>(r, ts'). (r, t # ts'))
         (checkLoop now tgs currentState waitState nextState (Suc i) ts))"

definition checkSessionState :: "go_time \<Rightarrow> target_status list \<Rightarrow> backup_configuration \<Rightarrow>
    session_state \<Rightarrow> session_state \<Rightarrow> session_state \<Rightarrow> (session_state \<times> target_status list) option" where
  "checkSessionState now tss conf currentState waitState nextState =
     checkLoop now (bcs_Targets (bc_Spec conf)) currentState waitState nextState 0 tss"

definition checkInitialized :: "go_time \<Rightarrow> target_status list \<Rightarrow> backup_configuration \<Rightarrow>
    (session_state \<times> target_status list) option" where
  "checkInitialized now tss conf = checkSessionState now tss conf Unset Initializing Running"

definition checkWaiting :: "go_time \<Rightarrow> target_status list \<Rightarrow> backup_configuration \<Rightarrow>
    (session_state \<times> target_status list) option" where
  "checkWaiting now tss conf = checkSessionState now tss conf Initialized Running Finalize"

definition checkSuccess :: "go_time \<Rightarrow> target_status list \<Rightarrow> backup_configuration \<Rightarrow>
    (session_state \<times> target_status list) option" where
  "checkSuccess now tss conf = checkSessionState now tss conf Waiting Finalize Success"

subsection \<open>Abstract description of one check\<close>

text \<open>
  A target is settled for a phase when it is neither to be started (\<open>cur\<close>), nor busy (\<open>wt\<close>),
  nor failed. The check looks at the first target that is not settled and at nothing after it.
\<close>

definition settled :: "session_state \<Rightarrow> session_state \<Rightarrow> target_status \<Rightarrow> bool" where
  "settled cur wt t \<longleftrightarrow> ts_SessionState t \<notin> {cur, Failure, wt}"

definition frontier :: "session_state \<Rightarrow> session_state \<Rightarrow> target_status list \<Rightarrow> nat" where
  "frontier cur wt tss = length (takeWhile (settled cur wt) tss)"

definition retried :: "go_time \<Rightarrow> session_state \<Rightarrow> target_status \<Rightarrow> target_status" where
  "retried now wt t = t\<lparr>ts_SessionState := wt, ts_Try := ts_Try t + 1, ts_StartTime := Some now\<rparr>"

definition started :: "session_state \<Rightarrow> target_status \<Rightarrow> target_status" where
  "started wt t = t\<lparr>ts_SessionState := wt\<rparr>"

definition pending_job :: "target_status list \<Rightarrow> bool" where
  "pending_job tss \<longleftrightarrow> WaitingForJob \<in> ts_SessionState ` set tss"

text \<open>The retry limit of target \<open>i\<close>, \<open>None\<close> where the configuration has no target \<open>i\<close>.\<close>

definition retry_limit :: "target list \<Rightarrow> nat \<Rightarrow> int option" where
  "retry_limit tgs i = (if i < length tgs then Some (tg_Retry (tgs ! i)) else None)"

definition frontier_outcome :: "go_time \<Rightarrow> (nat \<Rightarrow> int option) \<Rightarrow> session_state \<Rightarrow> session_state \<Rightarrow>
    session_state \<Rightarrow> target_status list \<Rightarrow> (session_state \<times> target_status list) option" where
  "frontier_outcome now limit cur wt nx tss =
    (let k = frontier cur wt tss; t = tss ! k in
     if k = length tss then Some (if tss = [] then Unset else nx, tss)
     else if ts_SessionState t = cur then Some (wt, tss[k := started wt t])
     else if ts_SessionState t = Failure then
       (case limit k of None \<Rightarrow> None
        | Some n \<Rightarrow> if ts_Try t < n then Some (wt, tss[k := retried now wt t]) else Some (Failure, tss))
     else Some (Unset, tss))"

definition phase_outcome :: "go_time \<Rightarrow> (nat \<Rightarrow> int option) \<Rightarrow> session_state \<Rightarrow> session_state \<Rightarrow>
    session_state \<Rightarrow> target_status list \<Rightarrow> (session_state \<times> target_status list) option" where
  "phase_outcome now limit cur wt nx tss =
     map_option (\<lambda>(r, tss'). (if pending_job (take (frontier cur wt tss) tss) then wt else r, tss'))
       (frontier_outcome now limit cur wt nx tss)"

text \<open>The phases of a session use states that the override and the failure test do not.\<close>

definition phase_states :: "session_state \<Rightarrow> session_state \<Rightarrow> bool" where
  "phase_states cur wt \<longleftrightarrow> cur \<noteq> wt \<and> cur \<notin> {Failure, WaitingForJob} \<and> wt \<notin> {Failure, WaitingForJob, Unset}"

lemma frontier_Nil [simp]: "frontier cur wt [] = 0"
  by (simp add: frontier_def)

lemma frontier_Cons:
  "frontier cur wt (t # ts) = (if settled cur wt t then Suc (frontier cur wt ts) else 0)"
  by (simp add: frontier_def)

lemma frontier_le: "frontier cur wt tss \<le> length tss"
  by (simp add: frontier_def length_takeWhile_le)

lemma frontier_settled: "i < frontier cur wt tss \<Longrightarrow> settled cur wt (tss ! i)"
  by (simp add: frontier_def)
    (metis length_takeWhile_le less_le_trans nth_mem set_takeWhileD takeWhile_nth)

lemma frontier_unsettled: "frontier cur wt tss < length tss \<Longrightarrow> \<not> settled cur wt (tss ! frontier cur wt tss)"
  by (simp add: frontier_def nth_length_takeWhile)

lemma pending_job_Cons:
  "pending_job (t # ts) \<longleftrightarrow> ts_SessionState t = WaitingForJob \<or> pending_job ts"
  by (auto simp: pending_job_def)

lemma pending_job_Nil [simp]: "\<not> pending_job []"
  by (simp add: pending_job_def)

lemma phase_outcome_stop:
  assumes "\<not> settled cur wt t"
  shows "phase_outcome now limit cur wt nx (t # ts) =
    (if ts_SessionState t = cur then Some (wt, started wt t # ts)
     else if ts_SessionState t = Failure then
       (case limit 0 of None \<Rightarrow> None
        | Some n \<Rightarrow> if ts_Try t < n then Some (wt, retried now wt t # ts) else Some (Failure, t # ts))
     else Some (Unset, t # ts))"
  using assms
  by (simp add: phase_outcome_def frontier_outcome_def frontier_Cons Let_def split: option.split)

lemma phase_outcome_skip:
  assumes "settled cur wt t" "ts \<noteq> [] \<or> ts_SessionState t = WaitingForJob"
  shows "phase_outcome now limit cur wt nx (t # ts) =
    map_option (\<lambda>(r, ts'). (if ts_SessionState t = WaitingForJob then wt else r, t # ts'))
      (phase_outcome now (\<lambda>k. limit (Suc k)) cur wt nx ts)"
  using assms
  by (auto simp: phase_outcome_def frontier_outcome_def frontier_Cons pending_job_Cons Let_def
      split: option.split)

lemma phase_outcome_last:
  assumes "settled cur wt t" "ts_SessionState t \<noteq> WaitingForJob"
  shows "phase_outcome now limit cur wt nx [t] = Some (nx, [t])"
  using assms by (simp add: phase_outcome_def frontier_outcome_def frontier_Cons pending_job_Cons)

text \<open>The loop of the code computes the abstract description.\<close>

lemma checkLoop_refines:
  assumes "phase_states cur wt"
  shows "checkLoop now tgs cur wt nx i tss =
         phase_outcome now (\<lambda>k. retry_limit tgs (i + k)) cur wt nx tss"
proof (induction tss arbitrary: i)
  case Nil
  show ?case by (simp add: phase_outcome_def frontier_outcome_def)
next
  case (Cons t ts)
  show ?case
  proof (cases "settled cur wt t")
    case False
    then show ?thesis
      by (auto simp: phase_outcome_stop settled_def retry_limit_def started_def retried_def)
  next
    case True
    then show ?thesis
      using assms Cons.IH [of "Suc i"]
      by (auto simp: phase_outcome_skip phase_outcome_last settled_def phase_states_def
          intro!: map_option_cong)
  qed
qed

subsection \<open>Invariants of a phase\<close>

text \<open>
  The shape of a target list inside a phase: every target is to be started (\<open>cur\<close>), busy (\<open>wt\<close>),
  failed, or in a state that the phase leaves targets in (\<open>dn\<close>); before a busy or failed target
  all are done, and after it none is busy or failed.
\<close>

definition phase_shape :: "session_state \<Rightarrow> session_state \<Rightarrow> session_state set \<Rightarrow> target_status list \<Rightarrow> bool" where
  "phase_shape cur wt dn tss \<longleftrightarrow>
     (\<forall>i < length tss. ts_SessionState (tss ! i) \<in> {cur, wt, Failure} \<union> dn) \<and>
     (\<forall>i < length tss. ts_SessionState (tss ! i) \<in> {wt, Failure} \<longrightarrow>
        (\<forall>j < i. ts_SessionState (tss ! j) \<in> dn) \<and>
        (\<forall>j < length tss. i < j \<longrightarrow> ts_SessionState (tss ! j) \<in> insert cur dn))"

text \<open>A phase is entered with targets that are all to be started or done.\<close>

lemma phase_shape_enter:
  assumes "\<And>t. t \<in> set tss \<Longrightarrow> ts_SessionState t \<in> insert cur dn"
    and "insert cur dn \<inter> {wt, Failure} = {}"
  shows "phase_shape cur wt dn tss"
proof -
  have "ts_SessionState (tss ! i) \<in> insert cur dn" if "i < length tss" for i
    using assms(1) [of "tss ! i"] that by simp
  with assms(2) show ?thesis unfolding phase_shape_def by blast
qed

text \<open>Attempts are counted from 1 and never pass the configured limit (or 1, if that is less).\<close>

definition tries_bounded :: "target list \<Rightarrow> target_status list \<Rightarrow> bool" where
  "tries_bounded tgs tss \<longleftrightarrow> length tss = length tgs \<and>
     (\<forall>i < length tss. 1 \<le> ts_Try (tss ! i) \<and> ts_Try (tss ! i) \<le> max 1 (tg_Retry (tgs ! i)))"

text \<open>The target that a status is about.\<close>

definition status_target :: "target_status \<Rightarrow> string \<times> target_kind \<times> backup_type" where
  "status_target t = (ts_TargetName t, ts_TargetKind t, ts_BackupType t)"

definition named_target :: "target \<Rightarrow> string \<times> target_kind \<times> backup_type" where
  "named_target tg = (tg_TargetName tg, tg_TargetKind tg, tg_BackupType tg)"

lemma phase_shape_states:
  "phase_shape cur wt dn tss \<Longrightarrow> i < length tss \<Longrightarrow> ts_SessionState (tss ! i) \<in> {cur, wt, Failure} \<union> dn"
  by (simp add: phase_shape_def)

lemma phase_shape_before:
  "phase_shape cur wt dn tss \<Longrightarrow> i < length tss \<Longrightarrow> ts_SessionState (tss ! i) \<in> {wt, Failure} \<Longrightarrow>
   j < i \<Longrightarrow> ts_SessionState (tss ! j) \<in> dn"
  unfolding phase_shape_def by blast

lemma phase_shape_after:
  "phase_shape cur wt dn tss \<Longrightarrow> i < length tss \<Longrightarrow> ts_SessionState (tss ! i) \<in> {wt, Failure} \<Longrightarrow>
   i < j \<Longrightarrow> j < length tss \<Longrightarrow> ts_SessionState (tss ! j) \<in> insert cur dn"
  unfolding phase_shape_def by blast

text \<open>At most one target is busy in a phase.\<close>

lemma phase_shape_busy_unique:
  assumes "phase_shape cur wt dn tss" "wt \<notin> insert cur dn"
    and i: "i < length tss" "ts_SessionState (tss ! i) = wt"
    and j: "j < length tss" "ts_SessionState (tss ! j) = wt"
  shows "i = j"
proof -
  have "\<not> a < b" if "a < length tss" "ts_SessionState (tss ! a) = wt"
    "b < length tss" "ts_SessionState (tss ! b) = wt" for a b
  proof
    assume "a < b"
    with phase_shape_after [OF assms(1), of a b] that have "wt \<in> insert cur dn" by simp
    with assms(2) show False by simp
  qed
  with i j show ?thesis by (metis linorder_neqE_nat)
qed

text \<open>
  An update at \<open>k\<close> keeps the shape where every other target is to be started or done, or where
  the new state of \<open>k\<close> is a done state.
\<close>

lemma phase_shape_done:
  assumes shape: "phase_shape cur wt dn tss" and t': "ts_SessionState t' \<in> dn"
    and dn: "dn \<inter> {wt, Failure} = {}"
  shows "phase_shape cur wt dn (tss[k := t'])"
proof -
  have old: "ts_SessionState (tss ! i) \<in> {wt, Failure}" "i \<noteq> k"
    if "i < length tss" "ts_SessionState (tss[k := t'] ! i) \<in> {wt, Failure}" for i
    using that t' dn by (cases "i = k"; auto)+
  show ?thesis
    unfolding phase_shape_def length_list_update
  proof (intro conjI allI impI)
    fix i assume "i < length tss"
    then show "ts_SessionState (tss[k := t'] ! i) \<in> {cur, wt, Failure} \<union> dn"
      using phase_shape_states [OF shape] t' by (cases "i = k") auto
  next
    fix i j assume i: "i < length tss" "ts_SessionState (tss[k := t'] ! i) \<in> {wt, Failure}" "j < i"
    show "ts_SessionState (tss[k := t'] ! j) \<in> dn"
      using phase_shape_before [OF shape i(1) old(1) [OF i(1,2)] i(3)] i t' by (cases "j = k") auto
  next
    fix i j assume i: "i < length tss" "ts_SessionState (tss[k := t'] ! i) \<in> {wt, Failure}"
      and j: "j < length tss" "i < j"
    show "ts_SessionState (tss[k := t'] ! j) \<in> insert cur dn"
      using phase_shape_after [OF shape i(1) old(1) [OF i] j(2,1)] j t' by (cases "j = k") auto
  qed
qed

lemma phase_shape_focus:
  assumes k: "k < length tss"
    and before: "\<And>j. j < k \<Longrightarrow> ts_SessionState (tss ! j) \<in> dn"
    and after: "\<And>j. k < j \<Longrightarrow> j < length tss \<Longrightarrow> ts_SessionState (tss ! j) \<in> insert cur dn"
    and t': "ts_SessionState t' \<in> {cur, wt, Failure} \<union> dn"
    and dn: "insert cur dn \<inter> {wt, Failure} = {}"
  shows "phase_shape cur wt dn (tss[k := t'])"
proof -
  have other: "ts_SessionState (tss ! j) \<in> insert cur dn" if "j \<noteq> k" "j < length tss" for j
    using before [of j] after [of j] that by (cases "j < k") auto
  have at: "i = k" if "i < length tss" "ts_SessionState (tss[k := t'] ! i) \<in> {wt, Failure}" for i
    using that other [of i] dn by (cases "i = k") auto
  show ?thesis
    unfolding phase_shape_def length_list_update
  proof (intro conjI allI impI)
    fix i assume "i < length tss"
    then show "ts_SessionState (tss[k := t'] ! i) \<in> {cur, wt, Failure} \<union> dn"
      using other [of i] t' by (cases "i = k") auto
  next
    fix i j assume "i < length tss" "ts_SessionState (tss[k := t'] ! i) \<in> {wt, Failure}" "j < i"
    with at [of i] before [of j] show "ts_SessionState (tss[k := t'] ! j) \<in> dn" by simp
  next
    fix i j assume "i < length tss" "ts_SessionState (tss[k := t'] ! i) \<in> {wt, Failure}"
      "j < length tss" "i < j"
    with at [of i] after [of j] show "ts_SessionState (tss[k := t'] ! j) \<in> insert cur dn" by simp
  qed
qed

text \<open>A busy or failed target may report any state of the phase.\<close>

lemma phase_shape_report:
  assumes shape: "phase_shape cur wt dn tss"
    and k: "k < length tss" "ts_SessionState (tss ! k) \<in> {wt, Failure}"
    and "ts_SessionState t' \<in> {cur, wt, Failure} \<union> dn" "insert cur dn \<inter> {wt, Failure} = {}"
  shows "phase_shape cur wt dn (tss[k := t'])"
  using phase_shape_before [OF shape k] phase_shape_after [OF shape k] assms(4,5)
  by (intro phase_shape_focus [OF k(1)])

text \<open>The frontier may become busy.\<close>

lemma phase_shape_frontier:
  assumes shape: "phase_shape cur wt dn tss" and k: "k = frontier cur wt tss" "k < length tss"
    and dn: "dn \<inter> {cur, wt, Failure} = {}" "cur \<notin> {wt, Failure}" and t': "ts_SessionState t' = wt"
  shows "phase_shape cur wt dn (tss[k := t'])"
proof (rule phase_shape_focus [OF k(2)])
  fix j assume "j < k"
  with frontier_settled [of j cur wt tss] phase_shape_states [OF shape, of j] k
  show "ts_SessionState (tss ! j) \<in> dn" by (auto simp: settled_def)
next
  fix j assume j: "k < j" "j < length tss"
  have "ts_SessionState (tss ! k) \<notin> dn"
    using frontier_unsettled [of cur wt tss] k dn by (auto simp: settled_def)
  with phase_shape_before [OF shape j(2), of k] j(1) phase_shape_states [OF shape j(2)]
  show "ts_SessionState (tss ! j) \<in> insert cur dn" by auto
qed (use dn t' in auto)

lemma tries_bounded_update:
  assumes "tries_bounded tgs tss" "j < length tss"
    and "1 \<le> ts_Try t'" "ts_Try t' \<le> max 1 (tg_Retry (tgs ! j))"
  shows "tries_bounded tgs (tss[j := t'])"
  using assms by (auto simp: tries_bounded_def nth_list_update)

subsection \<open>The contract of a check\<close>

text \<open>
  What the session controllers rely on: each check follows \<open>phase_outcome\<close> for its three states.
  The lemmas of the locale are proved once and hold for the three instances.
\<close>

locale phase_check =
  fixes check :: "go_time \<Rightarrow> target_status list \<Rightarrow> backup_configuration \<Rightarrow>
      (session_state \<times> target_status list) option"
    and cur wt nx :: session_state
  assumes check_outcome: "check now tss conf =
      phase_outcome now (retry_limit (bcs_Targets (bc_Spec conf))) cur wt nx tss"
    and states: "phase_states cur wt"
    and nx_fresh: "nx \<notin> {Unset, Failure, wt}"
begin

lemma check_cases:
  assumes "check now tss conf = Some (r, tss')"
  obtains (empty) "tss = []" "r = Unset" "tss' = tss"
  | (all_settled) "tss \<noteq> []" "frontier cur wt tss = length tss" "tss' = tss"
      "r = (if pending_job tss then wt else nx)"
  | (start) k where "k = frontier cur wt tss" "k < length tss" "ts_SessionState (tss ! k) = cur"
      "tss' = tss[k := started wt (tss ! k)]" "r = wt"
  | (retry) k where "k = frontier cur wt tss" "k < length tss" "ts_SessionState (tss ! k) = Failure"
      "k < length (bcs_Targets (bc_Spec conf))"
      "ts_Try (tss ! k) < tg_Retry (bcs_Targets (bc_Spec conf) ! k)"
      "tss' = tss[k := retried now wt (tss ! k)]" "r = wt"
  | (give_up) k where "k = frontier cur wt tss" "k < length tss" "ts_SessionState (tss ! k) = Failure"
      "k < length (bcs_Targets (bc_Spec conf))"
      "\<not> ts_Try (tss ! k) < tg_Retry (bcs_Targets (bc_Spec conf) ! k)"
      "tss' = tss" "r = (if pending_job (take k tss) then wt else Failure)"
  | (busy) k where "k = frontier cur wt tss" "k < length tss" "ts_SessionState (tss ! k) = wt"
      "tss' = tss" "r = (if pending_job (take k tss) then wt else Unset)"
proof (cases "frontier cur wt tss < length tss")
  case False
  then have "frontier cur wt tss = length tss" using frontier_le [of cur wt tss] by simp
  with assms have "tss' = tss"
    and "r = (if pending_job tss then wt else if tss = [] then Unset else nx)"
    by (auto simp: check_outcome phase_outcome_def frontier_outcome_def)
  with \<open>frontier cur wt tss = length tss\<close> show ?thesis
    by (cases "tss = []") (auto intro: empty all_settled)
next
  case True
  let ?k = "frontier cur wt tss"
  have out: "phase_outcome now (retry_limit (bcs_Targets (bc_Spec conf))) cur wt nx tss = Some (r, tss')"
    using assms by (simp add: check_outcome)
  have ne: "?k \<noteq> length tss" using True by simp
  consider "ts_SessionState (tss ! ?k) = cur" | "ts_SessionState (tss ! ?k) = Failure" "cur \<noteq> Failure"
    | "ts_SessionState (tss ! ?k) = wt" "cur \<noteq> wt" "wt \<noteq> Failure"
    using frontier_unsettled [OF True] states by (auto simp: settled_def phase_states_def)
  then show ?thesis
  proof cases
    case 1
    with out ne show ?thesis
      by (intro start [OF refl True]) (auto simp: phase_outcome_def frontier_outcome_def Let_def)
  next
    case 2
    show ?thesis
    proof (cases "ts_Try (tss ! ?k) < tg_Retry (bcs_Targets (bc_Spec conf) ! ?k)")
      case True
      with 2 out ne show ?thesis
        by (intro retry [OF refl \<open>?k < length tss\<close>])
          (auto simp: phase_outcome_def frontier_outcome_def Let_def retry_limit_def split: if_splits)
    next
      case False
      with 2 out ne show ?thesis
        by (intro give_up [OF refl \<open>?k < length tss\<close>])
          (auto simp: phase_outcome_def frontier_outcome_def Let_def retry_limit_def split: if_splits)
    qed
  next
    case 3
    with out ne show ?thesis
      by (intro busy [OF refl True]) (auto simp: phase_outcome_def frontier_outcome_def Let_def)
  qed
qed

lemma check_length: "check now tss conf = Some (r, tss') \<Longrightarrow> length tss' = length tss"
  by (erule check_cases) simp_all

lemma check_result: "check now tss conf = Some (r, tss') \<Longrightarrow> r \<in> {Unset, wt, nx, Failure}"
  by (erule check_cases) auto

lemma check_no_panic:
  "length tss \<le> length (bcs_Targets (bc_Spec conf)) \<Longrightarrow> \<exists>r tss'. check now tss conf = Some (r, tss')"
  using frontier_le [of cur wt tss]
  by (auto simp: check_outcome phase_outcome_def frontier_outcome_def Let_def retry_limit_def)

lemma check_tries:
  assumes "check now tss conf = Some (r, tss')" "tries_bounded (bcs_Targets (bc_Spec conf)) tss"
  shows "tries_bounded (bcs_Targets (bc_Spec conf)) tss'"
  using assms(1)
proof (cases rule: check_cases)
  case (start k)
  with assms(2) show ?thesis
    by (auto simp: tries_bounded_def started_def nth_list_update)
next
  case (retry k)
  with assms(2) show ?thesis
    by (auto simp: tries_bounded_def retried_def nth_list_update)
qed (use assms(2) in simp_all)

lemma check_targets:
  assumes "check now tss conf = Some (r, tss')"
  shows "map status_target tss' = map status_target tss"
proof -
  have same: "map status_target (tss[k := t]) = map status_target tss"
    if "k < length tss" "status_target t = status_target (tss ! k)" for k t
    using that by (simp add: map_update list_update_same_conv)
  from assms show ?thesis
    by (cases rule: check_cases) (simp_all add: same started_def retried_def status_target_def)
qed

lemma check_shape:
  assumes "check now tss conf = Some (r, tss')" and shape: "phase_shape cur wt dn tss"
    and dn: "dn \<inter> {cur, wt, Failure} = {}"
  shows "phase_shape cur wt dn tss'"
  using assms(1)
proof (cases rule: check_cases)
  case (start k)
  then show ?thesis
    using phase_shape_frontier [OF shape start(1,2) dn, of "started wt (tss ! k)"] states
    by (simp add: started_def phase_states_def)
next
  case (retry k)
  then show ?thesis
    using phase_shape_frontier [OF shape retry(1,2) dn, of "retried now wt (tss ! k)"] states
    by (simp add: retried_def phase_states_def)
qed (use shape in simp_all)

text \<open>The check moves the session on only when every target is settled and no job is pending.\<close>

lemma check_next:
  assumes "check now tss conf = Some (nx, tss')"
  shows "tss' = tss \<and> tss \<noteq> [] \<and> frontier cur wt tss = length tss \<and> \<not> pending_job tss"
  using assms by (cases rule: check_cases) (use nx_fresh in \<open>auto split: if_splits\<close>)

text \<open>It reports a failure only for a target that failed and used up its attempts.\<close>

lemma check_failure:
  assumes "check now tss conf = Some (Failure, tss')"
  shows "tss' = tss \<and> (\<exists>k < length tss. ts_SessionState (tss ! k) = Failure \<and>
     tg_Retry (bcs_Targets (bc_Spec conf) ! k) \<le> ts_Try (tss ! k))"
  using assms by (cases rule: check_cases) (use nx_fresh states in \<open>auto simp: phase_states_def split: if_splits\<close>)

text \<open>
  What a check does to a target list of the phase's shape: it keeps the shape and stays in the
  phase, or moves on with every target done, or gives up on a target without attempts left.
\<close>

lemma check_step:
  assumes c: "check now tss conf = Some (r, tss')" and shape: "phase_shape cur wt dn tss"
    and dn: "dn \<inter> {cur, wt, Failure} = {}"
  obtains (stay) "r \<in> {Unset, wt}" "phase_shape cur wt dn tss'"
  | (move) "r = nx" "tss' = tss" "tss \<noteq> []" "\<And>t. t \<in> set tss \<Longrightarrow> ts_SessionState t \<in> dn - {WaitingForJob}"
  | (fail) k where "r = Failure" "tss' = tss" "k < length tss" "ts_SessionState (tss ! k) = Failure"
      "tg_Retry (bcs_Targets (bc_Spec conf) ! k) \<le> ts_Try (tss ! k)"
proof -
  consider "r \<in> {Unset, wt}" | "r = nx" | "r = Failure" using check_result [OF c] by blast
  then show ?thesis
  proof cases
    case 1
    with check_shape [OF c shape dn] show ?thesis by (intro stay)
  next
    case 2
    have n: "tss' = tss" "tss \<noteq> []" "frontier cur wt tss = length tss" "\<not> pending_job tss"
      using check_next [of now tss conf tss'] c 2 by simp_all
    show ?thesis
    proof (rule move [OF 2 n(1,2)])
      fix t assume t: "t \<in> set tss"
      then obtain i where i: "i < length tss" "t = tss ! i" by (auto simp: in_set_conv_nth)
      have "settled cur wt t" using frontier_settled [of i cur wt tss] i n(3) by simp
      moreover have "ts_SessionState t \<noteq> WaitingForJob" using n(4) imageI [OF t, of ts_SessionState] by (auto simp: pending_job_def)
      ultimately show "ts_SessionState t \<in> dn - {WaitingForJob}"
        using phase_shape_states [OF shape i(1)] i(2) by (auto simp: settled_def)
    qed
  next
    case 3
    with check_failure [of now tss conf tss'] c show ?thesis by (auto intro: fail)
  qed
qed

text \<open>It changes nothing only where a target is busy, a job is pending or there is no target.\<close>

lemma check_idle:
  assumes "check now tss conf = Some (r, tss')" "r \<in> {Unset, wt}" "tss' = tss"
  shows "tss = [] \<or> wt \<in> ts_SessionState ` set tss \<or> pending_job tss"
  using assms(1)
proof (cases rule: check_cases)
  case (start k)
  then have "wt \<in> ts_SessionState ` set tss'"
    by (force simp: started_def in_set_conv_nth nth_list_update)
  with assms(3) show ?thesis by simp
next
  case (retry k)
  then have "wt \<in> ts_SessionState ` set tss'"
    by (force simp: retried_def in_set_conv_nth nth_list_update)
  with assms(3) show ?thesis by simp
next
  case (give_up k)
  with assms(2) states have "pending_job (take k tss)" by (auto simp: phase_states_def split: if_splits)
  then show ?thesis by (auto simp: pending_job_def dest: in_set_takeD)
next
  case (busy k)
  then show ?thesis by (metis imageI nth_mem)
qed (use assms(2) nx_fresh in \<open>auto split: if_splits\<close>)

end

subsection \<open>The three checks\<close>

lemma checkSessionState_outcome:
  "phase_states cur wt \<Longrightarrow> checkSessionState now tss conf cur wt nx =
     phase_outcome now (retry_limit (bcs_Targets (bc_Spec conf))) cur wt nx tss"
  by (simp add: checkSessionState_def checkLoop_refines)

interpretation initialized: phase_check checkInitialized Unset Initializing Running
  by unfold_locales
    (simp_all add: checkInitialized_def checkSessionState_outcome phase_states_def)

interpretation waiting: phase_check checkWaiting Initialized Running Finalize
  by unfold_locales
    (simp_all add: checkWaiting_def checkSessionState_outcome phase_states_def)

interpretation success: phase_check checkSuccess Waiting Finalize Success
  by unfold_locales
    (simp_all add: checkSuccess_def checkSessionState_outcome phase_states_def)

subsection \<open>Properties of the checks\<close>

text \<open>
  C17: the three checks do what they say on every list of targets. The loop with its early
  returns, its \<open>continue\<close> and its deferred override of the result computes: look at the first
  target that is not settled; start it, retry it, give up on it or wait for it; if every target is
  settled move on; and answer the wait state instead if a settled target before it still waits for
  a job.
\<close>

theorem checks_follow_the_frontier:
  "checkInitialized now tss conf =
     phase_outcome now (retry_limit (bcs_Targets (bc_Spec conf))) Unset Initializing Running tss \<and>
   checkWaiting now tss conf =
     phase_outcome now (retry_limit (bcs_Targets (bc_Spec conf))) Initialized Running Finalize tss \<and>
   checkSuccess now tss conf =
     phase_outcome now (retry_limit (bcs_Targets (bc_Spec conf))) Waiting Finalize Success tss"
  using initialized.check_outcome waiting.check_outcome success.check_outcome by blast

text \<open>
  C29: exactly when a check panics. It does if and only if the first target that is not settled
  has failed and the configuration has, by now, no target at that index; in particular never
  while the configuration keeps at least as many targets as the session has statuses.
\<close>

theorem check_panics_iff:
  assumes "phase_states cur wt"
  shows "checkSessionState now tss conf cur wt nx = None \<longleftrightarrow>
    (\<exists>k. length (bcs_Targets (bc_Spec conf)) \<le> k \<and> k < length tss \<and>
       ts_SessionState (tss ! k) = Failure \<and> (\<forall>j < k. settled cur wt (tss ! j)))"
  (is "?none \<longleftrightarrow> (\<exists>k. ?at k)")
proof -
  let ?k = "frontier cur wt tss"
  have none: "?none \<longleftrightarrow> ?k < length tss \<and> ts_SessionState (tss ! ?k) = Failure \<and>
      length (bcs_Targets (bc_Spec conf)) \<le> ?k"
    using frontier_le [of cur wt tss] assms
    by (auto simp: checkSessionState_outcome phase_outcome_def frontier_outcome_def Let_def
        retry_limit_def phase_states_def)
  have "k = ?k" if "?at k" for k
  proof -
    have "\<not> settled cur wt (tss ! k)" using that by (simp add: settled_def)
    with that show ?thesis
      using frontier_settled [of k cur wt tss] frontier_unsettled [of cur wt tss] frontier_le [of cur wt tss]
      by (metis linorder_neqE_nat order.strict_trans)
  qed
  with none frontier_settled show ?thesis by blast
qed

theorem check_panics_iff_witness:
  "checkSessionState (utc 0) [sample_status Waiting, sample_status Failure]
     (sample_conf [sample_target ''apache'' 2] (sample_policy 1 0)) Initialized Running Finalize = None"
  unfolding check_panics_iff [of Initialized Running, simplified phase_states_def, simplified]
  by (intro exI [of _ 1]) (simp add: sample_conf_def sample_status_def settled_def)

end
