(* ===== verification/SessionMachine.thy ===== *)
theory SessionMachine
  imports Session
begin

section \<open>The session state machine: controller and sidecars together\<close>

text \<open>
  A session is driven from two sides. The controllers of this repository move the session's own
  state and start its targets (\<open>checkInitialized\<close>, \<open>checkWaiting\<close>, \<open>checkSuccess\<close>); the sidecar
  containers, whose code is not in this repository, report on a target they have been told to
  work on. \<open>machine_step\<close> interleaves both: one step is one effective reconciliation or one
  report. The sidecars are a parameter \<open>side\<close>; what the controllers rely on is
  \<open>sidecar_protocol\<close>, and for progress \<open>sidecar_live\<close>. Theories BackupSession and
  RestoreSession prove that the two controllers take exactly these steps.
\<close>

subsection \<open>One effective reconciliation\<close>

text \<open>
  The three check cases of the controllers' switch: the state to write (\<open>Unset\<close>: nothing to
  write) and the targets. A failure while finalizing counts as a success.
\<close>

fun advance :: "session_state \<Rightarrow> go_time \<Rightarrow> target_status list \<Rightarrow> backup_configuration \<Rightarrow>
    (session_state \<times> target_status list) option" where
  "advance Initializing now tss conf = checkInitialized now tss conf"
| "advance Running now tss conf = checkWaiting now tss conf"
| "advance Finalize now tss conf =
     map_option (\<lambda>(r, tss'). (if r = Failure then Success else r, tss')) (checkSuccess now tss conf)"
| "advance _ now tss conf = Some (Unset, tss)"

record machine =
  mc_State :: session_state
  mc_Targets :: "target_status list"

inductive controller_step :: "backup_configuration \<Rightarrow> machine \<Rightarrow> machine \<Rightarrow> bool" for conf where
  create: "mc_State m = Unset \<Longrightarrow> controller_step conf m (m\<lparr>mc_State := New\<rparr>)"
| init: "mc_State m = New \<Longrightarrow>
    controller_step conf m \<lparr>mc_State = Initializing, mc_Targets = initSession now conf\<rparr>"
| check: "mc_State m \<in> {Initializing, Running, Finalize} \<Longrightarrow>
    advance (mc_State m) now (mc_Targets m) conf = Some (r, tss) \<Longrightarrow> r \<noteq> Unset \<Longrightarrow>
    controller_step conf m \<lparr>mc_State = r, mc_Targets = tss\<rparr>"

inductive machine_step :: "(target_status \<Rightarrow> target_status \<Rightarrow> bool) \<Rightarrow> backup_configuration \<Rightarrow>
    machine \<Rightarrow> machine \<Rightarrow> bool" for side conf where
  reconcile: "controller_step conf m m' \<Longrightarrow> machine_step side conf m m'"
| report: "i < length (mc_Targets m) \<Longrightarrow> side (mc_Targets m ! i) t \<Longrightarrow>
    machine_step side conf m (m\<lparr>mc_Targets := (mc_Targets m)[i := t]\<rparr>)"


text \<open>A session starts with the empty state and no targets.\<close>

definition created :: machine where
  "created = \<lparr>mc_State = Unset, mc_Targets = []\<rparr>"

inductive reachable :: "(target_status \<Rightarrow> target_status \<Rightarrow> bool) \<Rightarrow> backup_configuration \<Rightarrow>
    machine \<Rightarrow> bool" for side conf where
  start: "reachable side conf created"
| step: "reachable side conf m \<Longrightarrow> machine_step side conf m m' \<Longrightarrow> reachable side conf m'"

text \<open>
  What the controllers rely on: a sidecar reports on a target that is busy or waits for its job,
  the report ends that stage or fails it, and the count of attempts is the controllers' alone.
  A job that is over moves its target to the state \<open>Finalized\<close>, as the comment in
  \<open>session.go\<close> says, or to \<open>Success\<close>.
\<close>

definition report_edges :: "(session_state \<times> session_state) set" where
  "report_edges = {(Initializing, Initialized), (Initializing, Failure),
     (Running, Waiting), (Running, WaitingForJob), (Running, Failure),
     (Finalize, Success), (Finalize, WaitingForJob), (Finalize, Failure),
     (WaitingForJob, Success), (WaitingForJob, OtherState ''Finalized'')}"

definition sidecar_protocol :: "(target_status \<Rightarrow> target_status \<Rightarrow> bool) \<Rightarrow> bool" where
  "sidecar_protocol side \<longleftrightarrow> (\<forall>t t'. side t t' \<longrightarrow>
     ts_Try t' = ts_Try t \<and> (ts_SessionState t, ts_SessionState t') \<in> report_edges)"

text \<open>A report leaves the name, the kind and the backup type of its target alone.\<close>

definition sidecar_keeps_targets :: "(target_status \<Rightarrow> target_status \<Rightarrow> bool) \<Rightarrow> bool" where
  "sidecar_keeps_targets side \<longleftrightarrow> (\<forall>t t'. side t t' \<longrightarrow> status_target t' = status_target t)"

text \<open>Every target that is busy or waits for its job is reported on eventually.\<close>

definition sidecar_live :: "(target_status \<Rightarrow> target_status \<Rightarrow> bool) \<Rightarrow> bool" where
  "sidecar_live side \<longleftrightarrow> (\<forall>t. ts_SessionState t \<in> {Initializing, Running, Finalize, WaitingForJob}
     \<longrightarrow> (\<exists>t'. side t t'))"

subsection \<open>The invariant\<close>

text \<open>The states in which each phase leaves its targets.\<close>

definition initialized_states :: "session_state set" where
  "initialized_states = {Initialized}"

definition backed_up_states :: "session_state set" where
  "backed_up_states = {Waiting, WaitingForJob, Success, OtherState ''Finalized''}"

definition finalized_states :: "session_state set" where
  "finalized_states = {WaitingForJob, Success, OtherState ''Finalized''}"

definition quiet :: "target_status list \<Rightarrow> bool" where
  "quiet tss \<longleftrightarrow> (\<forall>t \<in> set tss. ts_SessionState t \<notin> {Initializing, Running, Finalize})"

definition exhausted :: "target list \<Rightarrow> target_status list \<Rightarrow> bool" where
  "exhausted tgs tss \<longleftrightarrow> (\<exists>k < length tss. ts_SessionState (tss ! k) = Failure \<and>
     tg_Retry (tgs ! k) \<le> ts_Try (tss ! k))"

fun phase_inv :: "target list \<Rightarrow> session_state \<Rightarrow> target_status list \<Rightarrow> bool" where
  "phase_inv tgs Unset tss = (tss = [])"
| "phase_inv tgs New tss = (tss = [])"
| "phase_inv tgs Initializing tss = phase_shape Unset Initializing initialized_states tss"
| "phase_inv tgs Running tss = (phase_shape Initialized Running backed_up_states tss \<and> tss \<noteq> [])"
| "phase_inv tgs Finalize tss = (phase_shape Waiting Finalize finalized_states tss \<and> tss \<noteq> [])"
| "phase_inv tgs Success tss =
     (phase_shape Waiting Finalize finalized_states tss \<and> quiet tss \<and> tss \<noteq> [])"
| "phase_inv tgs Failure tss = ((phase_shape Unset Initializing initialized_states tss \<or>
     phase_shape Initialized Running backed_up_states tss) \<and> quiet tss \<and> exhausted tgs tss)"
| "phase_inv tgs _ tss = False"

definition machine_inv :: "backup_configuration \<Rightarrow> machine \<Rightarrow> bool" where
  "machine_inv conf m \<longleftrightarrow>
     phase_inv (bcs_Targets (bc_Spec conf)) (mc_State m) (mc_Targets m) \<and>
     (mc_State m \<notin> {Unset, New} \<longrightarrow> tries_bounded (bcs_Targets (bc_Spec conf)) (mc_Targets m))"

lemmas phase_sets = initialized_states_def backed_up_states_def finalized_states_def

text \<open>Where a phase stands on a failed target, no target is busy.\<close>

lemma failed_phase_quiet:
  assumes shape: "phase_shape cur wt dn tss" and k: "k < length tss" "ts_SessionState (tss ! k) = Failure"
    and dn: "insert cur dn \<inter> {Initializing, Running, Finalize} = {}"
  shows "quiet tss"
  unfolding quiet_def
proof
  fix t assume "t \<in> set tss"
  then obtain i where i: "i < length tss" "t = tss ! i" by (auto simp: in_set_conv_nth)
  have f: "ts_SessionState (tss ! k) \<in> {wt, Failure}" using k by simp
  consider "i < k" | "i = k" | "k < i" by linarith
  then show "ts_SessionState t \<notin> {Initializing, Running, Finalize}"
  proof cases
    case 1
    with phase_shape_before [OF shape k(1) f] dn i show ?thesis by blast
  next
    case 2
    with k i show ?thesis by simp
  next
    case 3
    with phase_shape_after [OF shape k(1) f] dn i show ?thesis by blast
  qed
qed

lemma done_phase_quiet:
  "(\<And>t. t \<in> set tss \<Longrightarrow> ts_SessionState t \<in> dn) \<Longrightarrow> dn \<inter> {Initializing, Running, Finalize} = {} \<Longrightarrow> quiet tss"
  unfolding quiet_def by blast

subsection \<open>The controllers keep the invariant\<close>

lemma advance_Initializing:
  assumes c: "checkInitialized now tss conf = Some (r, tss')" "r \<noteq> Unset"
    and inv: "phase_inv (bcs_Targets (bc_Spec conf)) Initializing tss"
  shows "phase_inv (bcs_Targets (bc_Spec conf)) r tss'"
proof -
  have shape: "phase_shape Unset Initializing initialized_states tss" using inv by simp
  have dn: "initialized_states \<inter> {Unset, Initializing, Failure} = {}" by (simp add: phase_sets)
  from c(1) shape dn show ?thesis
  proof (cases rule: initialized.check_step)
    case stay
    with c(2) show ?thesis by auto
  next
    case move
    then have "phase_shape Initialized Running backed_up_states tss"
      by (intro phase_shape_enter) (auto simp: phase_sets)
    with move show ?thesis by simp
  next
    case (fail k)
    with shape failed_phase_quiet [OF shape fail(3,4)] show ?thesis
      by (auto simp: exhausted_def phase_sets)
  qed
qed

lemma advance_Running:
  assumes c: "checkWaiting now tss conf = Some (r, tss')" "r \<noteq> Unset"
    and inv: "phase_inv (bcs_Targets (bc_Spec conf)) Running tss"
  shows "phase_inv (bcs_Targets (bc_Spec conf)) r tss'"
proof -
  have shape: "phase_shape Initialized Running backed_up_states tss" using inv by simp
  have dn: "backed_up_states \<inter> {Initialized, Running, Failure} = {}" by (simp add: phase_sets)
  from c(1) shape dn show ?thesis
  proof (cases rule: waiting.check_step)
    case stay
    with c inv waiting.check_length [OF c(1)] show ?thesis by auto
  next
    case move
    then have "phase_shape Waiting Finalize finalized_states tss"
      by (intro phase_shape_enter) (auto simp: phase_sets)
    with move show ?thesis by simp
  next
    case (fail k)
    with shape failed_phase_quiet [OF shape fail(3,4)] show ?thesis
      by (auto simp: exhausted_def phase_sets)
  qed
qed

lemma advance_Finalize:
  assumes c: "checkSuccess now tss conf = Some (r, tss')" "r \<noteq> Unset"
    and inv: "phase_inv (bcs_Targets (bc_Spec conf)) Finalize tss"
  shows "phase_inv (bcs_Targets (bc_Spec conf)) (if r = Failure then Success else r) tss'"
proof -
  have shape: "phase_shape Waiting Finalize finalized_states tss" and ne: "tss \<noteq> []" using inv by simp_all
  have dn: "finalized_states \<inter> {Waiting, Finalize, Failure} = {}" by (simp add: phase_sets)
  from c(1) shape dn show ?thesis
  proof (cases rule: success.check_step)
    case stay
    with c inv success.check_length [OF c(1)] show ?thesis by auto
  next
    case move
    then have "quiet tss" by (intro done_phase_quiet [where dn = finalized_states]) (auto simp: phase_sets)
    with move shape show ?thesis by simp
  next
    case (fail k)
    with shape failed_phase_quiet [OF shape fail(3,4)] ne show ?thesis by (auto simp: phase_sets)
  qed
qed

lemma advance_phase:
  assumes "st \<in> {Initializing, Running, Finalize}"
    and "advance st now tss conf = Some (r, tss')" "r \<noteq> Unset"
    and "phase_inv (bcs_Targets (bc_Spec conf)) st tss"
  shows "phase_inv (bcs_Targets (bc_Spec conf)) r tss'"
proof -
  consider "st = Initializing" | "st = Running" | "st = Finalize" using assms(1) by blast
  then show ?thesis
  proof cases
    case 1
    with assms(2,4) show ?thesis by (intro advance_Initializing [OF _ assms(3)]) simp_all
  next
    case 2
    with assms(2,4) show ?thesis by (intro advance_Running [OF _ assms(3)]) simp_all
  next
    case 3
    with assms(2) obtain r0 where r0: "checkSuccess now tss conf = Some (r0, tss')"
      "r = (if r0 = Failure then Success else r0)" by auto
    with assms(3) have "r0 \<noteq> Unset" by auto
    from advance_Finalize [OF r0(1) this] assms(4) 3 r0(2) show ?thesis by simp
  qed
qed

lemma advance_tries:
  assumes "advance st now tss conf = Some (r, tss')" "tries_bounded (bcs_Targets (bc_Spec conf)) tss"
  shows "tries_bounded (bcs_Targets (bc_Spec conf)) tss'"
  using assms initialized.check_tries waiting.check_tries success.check_tries
  by (cases st) auto

lemma initSession_nth:
  "i < length (bcs_Targets (bc_Spec conf)) \<Longrightarrow>
   ts_SessionState (initSession now conf ! i) = Unset \<and> ts_Try (initSession now conf ! i) = 1"
  by (simp add: initSession_def nth_enumerate_eq)

lemma length_initSession [simp]: "length (initSession now conf) = length (bcs_Targets (bc_Spec conf))"
  by (simp add: initSession_def)

lemma initSession_shape: "phase_shape Unset Initializing initialized_states (initSession now conf)"
  by (rule phase_shape_enter) (auto simp: phase_sets in_set_conv_nth initSession_nth)

lemma initSession_tries: "tries_bounded (bcs_Targets (bc_Spec conf)) (initSession now conf)"
  by (simp add: tries_bounded_def initSession_nth)

lemma advance_result:
  assumes "st \<in> {Initializing, Running, Finalize}" "advance st now tss conf = Some (r, tss')" 
  shows "r \<noteq> New"
  using assms initialized.check_result [of now tss conf r tss'] waiting.check_result [of now tss conf r tss']
    success.check_result [of now tss conf New tss']
  by (auto split: if_splits)

lemma controller_inv:
  assumes "controller_step conf m m'" "machine_inv conf m"
  shows "machine_inv conf m'"
  using assms(1)
proof (cases rule: controller_step.cases)
  case create
  with assms(2) show ?thesis by (simp add: machine_inv_def)
next
  case (init now)
  then show ?thesis by (simp add: machine_inv_def initSession_shape initSession_tries)
next
  case (check now r tss)
  with assms(2) advance_phase [OF check(2,3,4)] advance_tries [OF check(3)] show ?thesis
    by (auto simp: machine_inv_def)
qed

subsection \<open>Reports keep the invariant\<close>

lemma phase_report:
  assumes shape: "phase_shape cur wt dn tss" and k: "k < length tss"
    and edge: "(ts_SessionState (tss ! k), ts_SessionState t) \<in> report_edges"
    and inside: "\<And>s'. (wt, s') \<in> report_edges \<Longrightarrow> s' \<in> insert Failure dn"
      "\<And>s s'. s \<in> insert cur dn \<Longrightarrow> (s, s') \<in> report_edges \<Longrightarrow> s' \<in> dn"
    and dn: "insert cur dn \<inter> {wt, Failure} = {}"
  shows "phase_shape cur wt dn (tss[k := t])"
proof (cases "ts_SessionState (tss ! k) \<in> insert cur dn")
  case True
  then have "ts_SessionState t \<in> dn" using inside(2) edge by blast
  with dn show ?thesis by (intro phase_shape_done [OF shape]) auto
next
  case False
  then have s: "ts_SessionState (tss ! k) = wt \<or> ts_SessionState (tss ! k) = Failure"
    using phase_shape_states [OF shape k] by blast
  have "ts_SessionState (tss ! k) \<noteq> Failure" using edge by (auto simp: report_edges_def)
  with s edge inside(1) have "ts_SessionState t \<in> insert Failure dn" by simp
  with s dn show ?thesis by (intro phase_shape_report [OF shape k]) auto
qed

lemma report_initializing:
  "phase_shape Unset Initializing initialized_states tss \<Longrightarrow> k < length tss \<Longrightarrow>
   (ts_SessionState (tss ! k), ts_SessionState t) \<in> report_edges \<Longrightarrow>
   phase_shape Unset Initializing initialized_states (tss[k := t])"
  by (rule phase_report) (auto simp: report_edges_def phase_sets)

lemma report_running:
  "phase_shape Initialized Running backed_up_states tss \<Longrightarrow> k < length tss \<Longrightarrow>
   (ts_SessionState (tss ! k), ts_SessionState t) \<in> report_edges \<Longrightarrow>
   phase_shape Initialized Running backed_up_states (tss[k := t])"
  by (rule phase_report) (auto simp: report_edges_def phase_sets)

lemma report_finalize:
  "phase_shape Waiting Finalize finalized_states tss \<Longrightarrow> k < length tss \<Longrightarrow>
   (ts_SessionState (tss ! k), ts_SessionState t) \<in> report_edges \<Longrightarrow>
   phase_shape Waiting Finalize finalized_states (tss[k := t])"
  by (rule phase_report) (auto simp: report_edges_def phase_sets)

lemma report_quiet:
  assumes "quiet tss" "(s, ts_SessionState t) \<in> report_edges"
  shows "quiet (tss[k := t])"
proof -
  have "ts_SessionState t \<notin> {Initializing, Running, Finalize}"
    using assms(2) by (auto simp: report_edges_def)
  with assms(1) show ?thesis
    using set_update_subset_insert [of tss k t] unfolding quiet_def by blast
qed

lemma report_exhausted:
  assumes "exhausted tgs tss" "(ts_SessionState (tss ! k), s') \<in> report_edges"
  shows "exhausted tgs (tss[k := t])"
proof -
  obtain i where i: "i < length tss" "ts_SessionState (tss ! i) = Failure" "tg_Retry (tgs ! i) \<le> ts_Try (tss ! i)"
    using assms(1) by (auto simp: exhausted_def)
  with assms(2) have "i \<noteq> k" by (auto simp: report_edges_def)
  with i show ?thesis by (auto simp: exhausted_def intro!: exI [of _ i])
qed

lemma report_phase:
  assumes inv: "phase_inv tgs st tss" and k: "k < length tss"
    and edge: "(ts_SessionState (tss ! k), ts_SessionState t) \<in> report_edges"
  shows "phase_inv tgs st (tss[k := t])"
proof -
  have ne: "tss \<noteq> []" using k by auto
  from inv ne show ?thesis
    using report_initializing [OF _ k edge] report_running [OF _ k edge] report_finalize [OF _ k edge]
      report_quiet [OF _ edge, of tss k] report_exhausted [OF _ edge, of tgs t]
    by (cases st) auto
qed

lemma report_tries:
  assumes "tries_bounded tgs tss" "k < length tss" "ts_Try t = ts_Try (tss ! k)"
  shows "tries_bounded tgs (tss[k := t])"
  using assms(1) by (intro tries_bounded_update) (use assms in \<open>auto simp: tries_bounded_def\<close>)

lemma machine_step_inv:
  assumes "sidecar_protocol side" "machine_step side conf m m'" "machine_inv conf m"
  shows "machine_inv conf m'"
  using assms(2)
proof (cases rule: machine_step.cases)
  case reconcile
  with assms(3) show ?thesis by (rule controller_inv [rotated])
next
  case (report k t)
  with assms(1) have edge: "(ts_SessionState (mc_Targets m ! k), ts_SessionState t) \<in> report_edges"
    and tries: "ts_Try t = ts_Try (mc_Targets m ! k)"
    by (auto simp: sidecar_protocol_def)
  show ?thesis
    using assms(3) report_phase [OF _ report(2) edge] report_tries [OF _ report(2) tries] report(1)
    by (simp add: machine_inv_def)
qed

lemma reachable_inv:
  assumes "sidecar_protocol side" "reachable side conf m"
  shows "machine_inv conf m"
  using assms(2)
proof (induction rule: reachable.induct)
  case start
  show ?case by (simp add: created_def machine_inv_def)
next
  case (step m m')
  then show ?case using machine_step_inv [OF assms(1)] by blast
qed

lemma reachable_phase:
  "sidecar_protocol side \<Longrightarrow> reachable side conf m \<Longrightarrow>
   phase_inv (bcs_Targets (bc_Spec conf)) (mc_State m) (mc_Targets m)"
  using reachable_inv by (auto simp: machine_inv_def)

lemma reachable_tries:
  "sidecar_protocol side \<Longrightarrow> reachable side conf m \<Longrightarrow> mc_State m \<notin> {Unset, New} \<Longrightarrow>
   tries_bounded (bcs_Targets (bc_Spec conf)) (mc_Targets m)"
  using reachable_inv by (auto simp: machine_inv_def)

text \<open>The statuses stay those of the configured targets, in their order.\<close>

lemma initSession_targets:
  "map status_target (initSession now conf) = map named_target (bcs_Targets (bc_Spec conf))"
  by (rule nth_equalityI) (simp_all add: initSession_def nth_enumerate_eq status_target_def named_target_def)

lemma advance_targets:
  assumes "advance st now tss conf = Some (r, tss')"
  shows "map status_target tss' = map status_target tss"
  using assms initialized.check_targets waiting.check_targets success.check_targets
  by (cases st) auto

lemma reachable_targets:
  assumes side: "sidecar_keeps_targets side" and reach: "reachable side conf m" and late: "mc_State m \<notin> {Unset, New}"
  shows "map status_target (mc_Targets m) = map named_target (bcs_Targets (bc_Spec conf))"
  using reach late
proof (induction rule: reachable.induct)
  case start
  then show ?case by (simp add: created_def)
next
  case (step m m')
  from step.hyps(2) show ?case
  proof (cases rule: machine_step.cases)
    case reconcile
    then show ?thesis
    proof (cases rule: controller_step.cases)
      case create
      with step.prems show ?thesis by simp
    next
      case (init now)
      then show ?thesis by (simp add: initSession_targets)
    next
      case (check now r tss)
      with step.IH advance_targets [OF check(3)] show ?thesis by auto
    qed
  next
    case (report k t)
    then have "map status_target ((mc_Targets m)[k := t]) = map status_target (mc_Targets m)"
      using side by (simp add: sidecar_keeps_targets_def map_update list_update_same_conv)
    with report step.IH step.prems show ?thesis by simp
  qed
qed

subsection \<open>Every step makes progress\<close>

text \<open>
  Three numbers, compared lexicographically: the stages a session still has to go through, the
  attempts its targets have left, and the work of the targets in the current stage. Moving on
  lowers the first, a retry the second, a start or a report the third.
\<close>

fun session_rank :: "session_state \<Rightarrow> nat" where
  "session_rank Unset = 5"
| "session_rank New = 4"
| "session_rank Initializing = 3"
| "session_rank Running = 2"
| "session_rank Finalize = 1"
| "session_rank _ = 0"

fun target_rank :: "session_state \<Rightarrow> nat" where
  "target_rank Unset = 8"
| "target_rank Initializing = 7"
| "target_rank Initialized = 6"
| "target_rank Running = 5"
| "target_rank Waiting = 4"
| "target_rank Finalize = 3"
| "target_rank WaitingForJob = 2"
| "target_rank Success = 1"
| "target_rank (OtherState _) = 1"
| "target_rank _ = 0"

definition work :: "target_status list \<Rightarrow> nat" where
  "work tss = (\<Sum>t \<leftarrow> tss. target_rank (ts_SessionState t))"

definition retries_left :: "target list \<Rightarrow> target_status list \<Rightarrow> nat" where
  "retries_left tgs tss = (\<Sum>i < length tss. nat (tg_Retry (tgs ! i) - ts_Try (tss ! i)))"

definition progress_order :: "target list \<Rightarrow> (machine \<times> machine) set" where
  "progress_order tgs = measures [\<lambda>m. session_rank (mc_State m),
     \<lambda>m. retries_left tgs (mc_Targets m), \<lambda>m. work (mc_Targets m)]"

lemma wf_progress_order: "wf (progress_order tgs)"
  by (simp add: progress_order_def)

lemma work_update:
  assumes "k < length tss" "target_rank (ts_SessionState t) < target_rank (ts_SessionState (tss ! k))"
  shows "work (tss[k := t]) < work tss"
proof -
  let ?f = "\<lambda>t. target_rank (ts_SessionState t)"
  have "?f (tss ! k) \<le> work tss"
    using assms(1) member_le_sum_list [of "?f (tss ! k)" "map ?f tss"] by (simp add: work_def)
  moreover have "work (tss[k := t]) = work tss + ?f t - ?f (tss ! k)"
    using assms(1) by (simp add: work_def map_update sum_list_update)
  ultimately show ?thesis using assms(2) by simp
qed

lemma retries_left_same:
  "k < length tss \<Longrightarrow> ts_Try t = ts_Try (tss ! k) \<Longrightarrow> retries_left tgs (tss[k := t]) = retries_left tgs tss"
  unfolding retries_left_def by (intro sum.cong) (auto simp: nth_list_update)

lemma retries_left_less:
  assumes "k < length tss" "ts_Try (tss ! k) < tg_Retry (tgs ! k)" "ts_Try t = ts_Try (tss ! k) + 1"
  shows "retries_left tgs (tss[k := t]) < retries_left tgs tss"
  unfolding retries_left_def length_list_update
proof (rule sum_strict_mono_ex1)
  show "\<forall>i\<in>{..<length tss}. nat (tg_Retry (tgs ! i) - ts_Try (tss[k := t] ! i)) \<le> nat (tg_Retry (tgs ! i) - ts_Try (tss ! i))"
  proof
    fix i assume "i \<in> {..<length tss}"
    with assms(1,3) show "nat (tg_Retry (tgs ! i) - ts_Try (tss[k := t] ! i)) \<le> nat (tg_Retry (tgs ! i) - ts_Try (tss ! i))"
      by (cases "i = k") simp_all
  qed
  show "\<exists>i\<in>{..<length tss}. nat (tg_Retry (tgs ! i) - ts_Try (tss[k := t] ! i)) < nat (tg_Retry (tgs ! i) - ts_Try (tss ! i))"
    using assms by (intro bexI [of _ k]) auto
qed simp

context phase_check
begin

lemma check_progress:
  assumes "check now tss conf = Some (r, tss')" "target_rank wt < target_rank cur"
  shows "tss' = tss \<or> r = wt \<and> (retries_left (bcs_Targets (bc_Spec conf)) tss' < retries_left (bcs_Targets (bc_Spec conf)) tss
    \<or> retries_left (bcs_Targets (bc_Spec conf)) tss' = retries_left (bcs_Targets (bc_Spec conf)) tss \<and> work tss' < work tss)"
  using assms(1)
proof (cases rule: check_cases)
  case (start k)
  then show ?thesis
    using retries_left_same [OF start(2), of "started wt (tss ! k)"] assms(2)
      work_update [OF start(2), of "started wt (tss ! k)"]
    by (simp add: started_def)
next
  case (retry k)
  then show ?thesis
    using retries_left_less [OF retry(2,5), of "retried now wt (tss ! k)"] by (simp add: retried_def)
qed simp_all

end

lemma advance_progress:
  assumes "st \<in> {Initializing, Running, Finalize}" "advance st now tss conf = Some (r, tss')" "r \<noteq> Unset"
  shows "(\<lparr>mc_State = r, mc_Targets = tss'\<rparr>, \<lparr>mc_State = st, mc_Targets = tss\<rparr>)
      \<in> progress_order (bcs_Targets (bc_Spec conf)) \<or> r = st \<and> tss' = tss"
proof -
  consider "st = Initializing" | "st = Running" | "st = Finalize" using assms(1) by blast
  then show ?thesis
  proof cases
    case 1
    with assms(2) have c: "checkInitialized now tss conf = Some (r, tss')" by simp
    from initialized.check_result [OF c] initialized.check_progress [OF c] assms(3) 1
    show ?thesis by (auto simp: progress_order_def)
  next
    case 2
    with assms(2) have c: "checkWaiting now tss conf = Some (r, tss')" by simp
    from waiting.check_result [OF c] waiting.check_progress [OF c] assms(3) 2
    show ?thesis by (auto simp: progress_order_def)
  next
    case 3
    with assms(2) obtain r0 where c: "checkSuccess now tss conf = Some (r0, tss')"
      "r = (if r0 = Failure then Success else r0)" by auto
    from success.check_result [OF c(1)] success.check_progress [OF c(1)] assms(3) 3 c(2)
    show ?thesis by (auto simp: progress_order_def split: if_splits)
  qed
qed

lemma machine_step_progress:
  assumes "sidecar_protocol side" "machine_step side conf m m'"
  shows "(m', m) \<in> progress_order (bcs_Targets (bc_Spec conf)) \<or> m' = m"
  using assms(2)
proof (cases rule: machine_step.cases)
  case reconcile
  then show ?thesis
  proof (cases rule: controller_step.cases)
    case (check now r tss)
    with advance_progress [OF check(2,3,4)] show ?thesis by (cases m) auto
  qed (auto simp: progress_order_def)
next
  case (report k t)
  with assms(1) have edge: "(ts_SessionState (mc_Targets m ! k), ts_SessionState t) \<in> report_edges"
    and tries: "ts_Try t = ts_Try (mc_Targets m ! k)"
    by (auto simp: sidecar_protocol_def)
  from edge have "target_rank (ts_SessionState t) < target_rank (ts_SessionState (mc_Targets m ! k))"
    by (auto simp: report_edges_def)
  with report work_update [OF report(2)] retries_left_same [OF report(2) tries] show ?thesis
    by (simp add: progress_order_def)
qed

subsection \<open>A session that is not over is never stuck\<close>

lemma advance_total:
  assumes "length tss \<le> length (bcs_Targets (bc_Spec conf))"
  shows "\<exists>r tss'. advance st now tss conf = Some (r, tss')"
  using initialized.check_no_panic [OF assms] waiting.check_no_panic [OF assms]
    success.check_no_panic [OF assms]
  by (cases st) (fastforce split: if_splits)+

lemma advance_idle:
  assumes "st \<in> {Initializing, Running, Finalize}" "advance st now tss conf = Some (r, tss')"
    and "r = Unset \<or> r = st \<and> tss' = tss"
  shows "tss = [] \<or> st \<in> ts_SessionState ` set tss \<or> pending_job tss"
proof -
  consider "st = Initializing" | "st = Running" | "st = Finalize" using assms(1) by blast
  then show ?thesis
  proof cases
    case 1
    with assms(2) have c: "checkInitialized now tss conf = Some (r, tss')" by simp
    moreover have "tss' = tss" using initialized.check_progress [OF c] assms(3) 1 by auto
    ultimately show ?thesis using initialized.check_idle assms(3) 1 by blast
  next
    case 2
    with assms(2) have c: "checkWaiting now tss conf = Some (r, tss')" by simp
    moreover have "tss' = tss" using waiting.check_progress [OF c] assms(3) 2 by auto
    ultimately show ?thesis using waiting.check_idle assms(3) 2 by blast
  next
    case 3
    with assms(2) obtain r0 where c: "checkSuccess now tss conf = Some (r0, tss')"
      "r = (if r0 = Failure then Success else r0)" by auto
    moreover have "r0 \<in> {Unset, Finalize}" using assms(3) 3 c(2) by (auto split: if_splits)
    moreover have "tss' = tss" using success.check_progress [OF c(1)] assms(3) 3 calculation by auto
    ultimately show ?thesis using success.check_idle 3 by blast
  qed
qed

lemma advance_into_Finalize:
  assumes "st \<in> {Initializing, Running}" "advance st now tss conf = Some (r, tss')" "r \<in> {Finalize, Success}"
  shows "st = Running \<and> checkWaiting now tss conf = Some (Finalize, tss')"
proof (cases "st = Initializing")
  case True
  with assms(2) have "checkInitialized now tss conf = Some (r, tss')" by simp
  from initialized.check_result [OF this] assms(3) show ?thesis by auto
next
  case False
  with assms(1,2) have st: "st = Running" and c: "checkWaiting now tss conf = Some (r, tss')" by auto
  from waiting.check_result [OF c] assms(3) have "r = Finalize" by auto
  with st c show ?thesis by simp
qed

lemma live_report:
  assumes "sidecar_protocol side" "sidecar_live side" "t \<in> set (mc_Targets m)"
    and "ts_SessionState t \<in> {Initializing, Running, Finalize, WaitingForJob}"
  shows "\<exists>m'. machine_step side conf m m' \<and> m' \<noteq> m"
proof -
  obtain k where k: "k < length (mc_Targets m)" "t = mc_Targets m ! k"
    using assms(3) by (auto simp: in_set_conv_nth)
  obtain t' where t': "side t t'" using assms(2,4) by (auto simp: sidecar_live_def)
  then have "(ts_SessionState t, ts_SessionState t') \<in> report_edges"
    using assms(1) by (auto simp: sidecar_protocol_def)
  then have "t' \<noteq> t" by (auto simp: report_edges_def)
  then have "(mc_Targets m)[k := t'] \<noteq> mc_Targets m"
    using k nth_list_update_eq [OF k(1)] by metis
  then have "m\<lparr>mc_Targets := (mc_Targets m)[k := t']\<rparr> \<noteq> m" by (cases m) simp
  with machine_step.report [of k m side t' conf] k t' show ?thesis by blast
qed

subsection \<open>The contract of a session switch\<close>

text \<open>
  \<open>view\<close> reads the machine state off a session object, \<open>put\<close> replaces its targets. A switch
  answers the state to write (\<open>Unset\<close>: none) with the object, or \<open>None\<close> to be called again later.
\<close>

locale session_controller =
  fixes view :: "'s \<Rightarrow> machine"
    and put :: "target_status list \<Rightarrow> 's \<Rightarrow> 's"
    and switch :: "'w api \<Rightarrow> (nat \<Rightarrow> go_time) \<Rightarrow> backup_configuration \<Rightarrow> 's \<Rightarrow>
        ('w, (session_state \<times> 's) option) go"
  assumes view_put: "view (put tss s) = \<lparr>mc_State = mc_State (view s), mc_Targets = tss\<rparr>"
    and switch_create: "mc_State (view s) = Unset \<Longrightarrow> \<exists>s'. switch A now conf s = ret (Some (New, s')) \<and>
        mc_Targets (view s') = mc_Targets (view s)"
    and switch_init: "mc_State (view s) = New \<Longrightarrow> switch A now conf s =
        bind_go (isBackupOngoing A conf) (\<lambda>b. ret (if b then None
          else Some (Initializing, put (initSession now conf) s)))"
    and switch_check: "mc_State (view s) \<in> {Initializing, Running, Finalize} \<Longrightarrow> switch A now conf s =
        bind_go (of_option (advance (mc_State (view s)) (now 0) (mc_Targets (view s)) conf))
          (\<lambda>(r, tss). ret (Some (r, put tss s)))"
    and switch_over: "mc_State (view s) \<in> {Success, Failure} \<Longrightarrow>
        switch A now conf s w = (Ret x, w') \<Longrightarrow> x = Some (Unset, s)"
begin

text \<open>A switch that asks for a status update takes a step of the machine.\<close>

lemma switch_step:
  assumes run: "switch A now conf s w = (Ret (Some (n, s')), w')" and n: "n \<noteq> Unset"
    and st: "mc_State (view s) \<in> {Unset, New, Initializing, Running, Finalize, Success, Failure}"
  shows "controller_step conf (view s) \<lparr>mc_State = n, mc_Targets = mc_Targets (view s')\<rparr>"
proof -
  consider (Unset) "mc_State (view s) = Unset" | (New) "mc_State (view s) = New"
    | (check) "mc_State (view s) \<in> {Initializing, Running, Finalize}"
    | (over) "mc_State (view s) \<in> {Success, Failure}"
    using st by blast
  then show ?thesis
  proof cases
    case Unset
    with switch_create [OF Unset, of A now conf] run controller_step.create [OF Unset, of conf]
    show ?thesis by (cases "view s") (auto simp: ret_def)
  next
    case New
    obtain r w1 where b: "isBackupOngoing A conf w = (r, w1)" by (cases "isBackupOngoing A conf w")
    with run have "n = Initializing \<and> s' = put (initSession now conf) s"
      by (cases r) (auto simp: switch_init [OF New] go_run split: if_splits)
    with controller_step.init [OF New, of conf now] show ?thesis by (simp add: view_put)
  next
    case check
    have sw: "switch A now conf s w = (case advance (mc_State (view s)) (now 0) (mc_Targets (view s)) conf of
        None \<Rightarrow> (Panic, w) | Some (r, tss) \<Rightarrow> (Ret (Some (r, put tss s)), w))"
      by (auto simp: switch_check [OF check] go_run of_option_def split: option.splits)
    with run obtain tss where "advance (mc_State (view s)) (now 0) (mc_Targets (view s)) conf = Some (n, tss)"
      "s' = put tss s"
      by (auto split: option.splits)
    with controller_step.check [OF check _ n] show ?thesis by (simp add: view_put)
  next
    case over
    from switch_over [OF over run] n show ?thesis by simp
  qed
qed

text \<open>It asks to be called again only from \<open>New\<close>.\<close>

lemma switch_requeue:
  assumes "switch A now conf s w = (Ret None, w')"
    and "mc_State (view s) \<in> {Unset, New, Initializing, Running, Finalize, Success, Failure}"
  shows "mc_State (view s) = New"
proof (rule ccontr)
  assume "mc_State (view s) \<noteq> New"
  then consider (Unset) "mc_State (view s) = Unset" 
    | (check) "mc_State (view s) \<in> {Initializing, Running, Finalize}"
    | (over) "mc_State (view s) \<in> {Success, Failure}"
    using assms(2) by blast
  then show False
  proof cases
    case Unset
    from switch_create [OF this, of A now conf] assms(1) show False by (auto simp: go_run)
  next
    case check
    with assms(1) show False
      by (cases "advance (mc_State (view s)) (now 0) (mc_Targets (view s)) conf")
        (auto simp: switch_check go_run)
  next
    case over
    from switch_over [OF this assms(1)] show False by simp
  qed
qed

end

subsection \<open>A concrete run\<close>

text \<open>A sidecar that may do whatever the protocol allows, and one target with one attempt.\<close>

definition sample_side :: "target_status \<Rightarrow> target_status \<Rightarrow> bool" where
  "sample_side t t' \<longleftrightarrow> (ts_SessionState t, ts_SessionState t') \<in> report_edges \<and>
     t' = t\<lparr>ts_SessionState := ts_SessionState t'\<rparr>"

lemma sample_side_protocol: "sidecar_protocol sample_side"
  unfolding sidecar_protocol_def sample_side_def by (metis target_status.select_convs(8) target_status.surjective target_status.update_convs(4))

lemma sample_side_targets: "sidecar_keeps_targets sample_side"
  unfolding sidecar_keeps_targets_def sample_side_def status_target_def
  by (metis target_status.select_convs(1-3) target_status.surjective target_status.update_convs(4))

lemma sample_side_live: "sidecar_live sample_side"
proof -
  have edge: "\<exists>s'. (s, s') \<in> report_edges" if "s \<in> {Initializing, Running, Finalize, WaitingForJob}" for s
    using that by (auto simp: report_edges_def)
  have "\<exists>t'. sample_side t t'" if st: "ts_SessionState t \<in> {Initializing, Running, Finalize, WaitingForJob}" for t
  proof -
    obtain s' where "(ts_SessionState t, s') \<in> report_edges" using edge [OF st] by blast
    then have "sample_side t (t\<lparr>ts_SessionState := s'\<rparr>)" by (simp add: sample_side_def)
    then show ?thesis by blast
  qed
  then show ?thesis by (simp add: sidecar_live_def)
qed

definition one_conf :: backup_configuration where
  "one_conf = sample_conf [sample_target ''apache'' 1] (sample_policy 1 0)"

definition one_machine :: "session_state \<Rightarrow> session_state \<Rightarrow> machine" where
  "one_machine st s = \<lparr>mc_State = st, mc_Targets = [sample_status s]\<rparr>"

lemma one_targets: "bcs_Targets (bc_Spec one_conf) = [sample_target ''apache'' 1]"
  by (simp add: one_conf_def sample_conf_def)

lemma one_retry: "tg_Retry (sample_target ''apache'' 1) = 1"
  by (simp add: sample_target_def)

lemma one_report:
  assumes "(s, s') \<in> report_edges" "reachable sample_side one_conf (one_machine st s)"
  shows "reachable sample_side one_conf (one_machine st s')"
proof -
  have "machine_step sample_side one_conf (one_machine st s) (one_machine st s')"
    using machine_step.report [of 0 "one_machine st s" sample_side "sample_status s'" one_conf] assms(1)
    by (simp add: one_machine_def sample_side_def sample_status_def)
  with assms(2) show ?thesis by (rule reachable.step)
qed

lemma one_check:
  assumes "st \<in> {Initializing, Running, Finalize}" "reachable sample_side one_conf (one_machine st s)"
    and "advance st (utc 0) [sample_status s] one_conf = Some (r, [sample_status s'])" "r \<noteq> Unset"
  shows "reachable sample_side one_conf (one_machine r s')"
proof -
  have "controller_step one_conf (one_machine st s) \<lparr>mc_State = r, mc_Targets = [sample_status s']\<rparr>"
    using assms(1,3,4) by (intro controller_step.check [where now = "utc 0"]) (simp_all add: one_machine_def)
  with assms(2) show ?thesis by (auto simp: one_machine_def intro: reachable.step machine_step.reconcile)
qed

lemmas one_simps = checkInitialized_def checkWaiting_def checkSuccess_def checkSessionState_def
  one_targets one_retry sample_status_def

lemma one_reach_initializing: "reachable sample_side one_conf (one_machine Initializing Unset)"
proof -
  have 1: "controller_step one_conf created \<lparr>mc_State = New, mc_Targets = []\<rparr>"
    using controller_step.create [of created one_conf] by (simp add: created_def)
  have 2: "controller_step one_conf \<lparr>mc_State = New, mc_Targets = []\<rparr> (one_machine Initializing Unset)"
    using controller_step.init [of "\<lparr>mc_State = New, mc_Targets = []\<rparr>" one_conf "\<lambda>_. utc 0"]
    by (simp add: one_machine_def initSession_def one_targets sample_target_def sample_status_def)
  from reachable.start 1 have "reachable sample_side one_conf \<lparr>mc_State = New, mc_Targets = []\<rparr>"
    by (rule reachable.step [OF _ machine_step.reconcile])
  from this 2 show ?thesis by (rule reachable.step [OF _ machine_step.reconcile])
qed

lemma one_reach_busy: "reachable sample_side one_conf (one_machine Initializing Initializing)"
  using one_reach_initializing by (rule one_check [rotated]) (simp_all add: one_simps)

lemma one_reach_running: "reachable sample_side one_conf (one_machine Running Initialized)"
proof -
  have "reachable sample_side one_conf (one_machine Initializing Initialized)"
    using one_reach_busy by (rule one_report [rotated]) (simp add: report_edges_def)
  then show ?thesis by (rule one_check [rotated]) (simp_all add: one_simps)
qed

lemma one_reach_finalize: "reachable sample_side one_conf (one_machine Finalize Waiting)"
proof -
  have "reachable sample_side one_conf (one_machine Running Running)"
    using one_reach_running by (rule one_check [rotated]) (simp_all add: one_simps)
  then have "reachable sample_side one_conf (one_machine Running Waiting)"
    by (rule one_report [rotated]) (simp add: report_edges_def)
  then show ?thesis by (rule one_check [rotated]) (simp_all add: one_simps)
qed

lemma one_reach_success: "reachable sample_side one_conf (one_machine Success Success)"
proof -
  have "reachable sample_side one_conf (one_machine Finalize Finalize)"
    using one_reach_finalize by (rule one_check [rotated]) (simp_all add: one_simps)
  then have "reachable sample_side one_conf (one_machine Finalize Success)"
    by (rule one_report [rotated]) (simp add: report_edges_def)
  then show ?thesis by (rule one_check [rotated]) (simp_all add: one_simps)
qed

lemma one_reach_failure: "reachable sample_side one_conf (one_machine Failure Failure)"
proof -
  have "reachable sample_side one_conf (one_machine Initializing Failure)"
    using one_reach_busy by (rule one_report [rotated]) (simp add: report_edges_def)
  then show ?thesis by (rule one_check [rotated]) (simp_all add: one_simps)
qed

lemma reachable_advance:
  assumes "sidecar_protocol side" and "reachable side conf m"
  shows "\<exists>r tss. advance (mc_State m) now (mc_Targets m) conf = Some (r, tss)"
proof (cases "mc_State m \<in> {Unset, New}")
  case True
  then show ?thesis by auto
next
  case False
  then show ?thesis
    using reachable_tries [OF assms] by (intro advance_total) (simp add: tries_bounded_def)
qed

subsection \<open>Properties of every session\<close>

text \<open>
  C27: the targets of a session and the retry accounting. As long as the sidecars leave the names,
  kinds and backup types and the counts of attempts alone and report as agreed, in every reachable
  session that has been initialized there is exactly one status per configured target, in the order
  of the configuration, each with the name, the kind and the backup type of its target, and the
  attempts of each target lie between 1 and its configured \<open>Retry\<close> (they are 1 when \<open>Retry\<close> is less).
\<close>

theorem attempts_stay_bounded:
  assumes "sidecar_protocol side" and "sidecar_keeps_targets side" and "reachable side conf m"
    and "mc_State m \<notin> {Unset, New}"
  shows "map (\<lambda>t. (ts_TargetName t, ts_TargetKind t, ts_BackupType t)) (mc_Targets m) =
      map (\<lambda>tg. (tg_TargetName tg, tg_TargetKind tg, tg_BackupType tg)) (bcs_Targets (bc_Spec conf)) \<and>
    (\<forall>i < length (mc_Targets m). 1 \<le> ts_Try (mc_Targets m ! i) \<and>
      ts_Try (mc_Targets m ! i) \<le> max 1 (tg_Retry (bcs_Targets (bc_Spec conf) ! i)))"
  using reachable_targets [OF assms(2-4)] reachable_tries [OF assms(1,3,4)]
  by (simp add: status_target_def [abs_def] named_target_def [abs_def] tries_bounded_def)

theorem attempts_stay_bounded_witness:
  "map ts_TargetName (mc_Targets (one_machine Success Success)) = map tg_TargetName (bcs_Targets (bc_Spec one_conf)) \<and>
   ts_Try (sample_status Success) \<le> max 1 (tg_Retry (bcs_Targets (bc_Spec one_conf) ! 0))"
  using attempts_stay_bounded [OF sample_side_protocol sample_side_targets one_reach_success]
  by (simp add: one_machine_def one_targets)

text \<open>
  C9: targets are worked on one at a time. In every reachable session at most one target is being
  initialized, backed up or finalized, whatever the interleaving of reconciliations and reports.
\<close>

theorem one_target_at_a_time:
  assumes "sidecar_protocol side" and "reachable side conf m"
    and i: "i < length (mc_Targets m)" "ts_SessionState (mc_Targets m ! i) \<in> {Initializing, Running, Finalize}"
    and j: "j < length (mc_Targets m)" "ts_SessionState (mc_Targets m ! j) \<in> {Initializing, Running, Finalize}"
  shows "i = j"
proof -
  have unique: "i = j" if shape: "phase_shape cur wt dn (mc_Targets m)"
    and dn: "insert cur dn \<inter> {Initializing, Running, Finalize, wt} = {}" for cur wt dn
  proof -
    have "ts_SessionState (mc_Targets m ! k) = wt"
      if "k < length (mc_Targets m)" "ts_SessionState (mc_Targets m ! k) \<in> {Initializing, Running, Finalize}" for k
      using phase_shape_states [OF shape that(1)] that(2) dn by auto
    with i j show ?thesis using phase_shape_busy_unique [OF shape] dn by blast
  qed
  have "quiet (mc_Targets m) \<Longrightarrow> False" using i by (auto simp: quiet_def)
  with reachable_phase [OF assms(1,2)] i(1) show ?thesis
    using unique [of Unset Initializing initialized_states] unique [of Initialized Running backed_up_states]
      unique [of Waiting Finalize finalized_states]
    by (cases "mc_State m") (auto simp: phase_sets)
qed

theorem one_target_at_a_time_witness: "(0::nat) = 0 \<and> ts_SessionState (mc_Targets (one_machine Initializing Initializing) ! 0) = Initializing"
  using one_target_at_a_time [OF sample_side_protocol one_reach_busy, of 0 0]
  by (simp add: one_machine_def sample_status_def)

text \<open>
  C8: a session is finalized or a success only after a moment at which it was \<open>Running\<close> and
  every target, at least one, had finished its backup and no snapshot job was pending.
\<close>

theorem success_after_every_backup:
  assumes "sidecar_protocol side" and "reachable side conf m" and "mc_State m \<in> {Finalize, Success}"
  shows "\<exists>m0. reachable side conf m0 \<and> (machine_step side conf)\<^sup>*\<^sup>* m0 m \<and> mc_State m0 = Running \<and>
    mc_Targets m0 \<noteq> [] \<and> (\<forall>t \<in> set (mc_Targets m0). ts_SessionState t \<in> backed_up_states - {WaitingForJob})"
  using assms(2,3)
proof (induction rule: reachable.induct)
  case start
  then show ?case by (simp add: created_def)
next
  case (step m m')
  show ?case
  proof (cases "mc_State m \<in> {Finalize, Success}")
    case True
    with step.IH step.hyps(2) show ?thesis by (blast intro: rtranclp.rtrancl_into_rtrancl)
  next
    case False
    have c: "controller_step conf m m'"
      using step.hyps(2)
    proof (cases rule: machine_step.cases)
      case (report i t)
      with False step.prems show ?thesis by simp
    qed
    obtain now tss where run: "mc_State m = Running" "checkWaiting now (mc_Targets m) conf = Some (Finalize, tss)"
      using c
    proof (cases rule: controller_step.cases)
      case (check now r tss)
      have "mc_State m \<in> {Initializing, Running}" using check(2) False by blast
      moreover have "r \<in> {Finalize, Success}" using check(1) step.prems by simp
      ultimately show ?thesis using advance_into_Finalize [OF _ check(3)] that by blast
    qed (use step.prems in simp_all)
    have shape: "phase_shape Initialized Running backed_up_states (mc_Targets m)"
      using reachable_phase [OF assms(1) step.hyps(1)] run(1) by simp
    from run(2) shape have "mc_Targets m \<noteq> [] \<and>
        (\<forall>t \<in> set (mc_Targets m). ts_SessionState t \<in> backed_up_states - {WaitingForJob})"
      by (cases rule: waiting.check_step) (auto simp: phase_sets)
    with step.hyps run(1) show ?thesis by (blast intro: r_into_rtranclp)
  qed
qed

theorem success_after_every_backup_witness:
  "\<exists>m0. reachable sample_side one_conf m0 \<and> (machine_step sample_side one_conf)\<^sup>*\<^sup>* m0 (one_machine Success Success) \<and>
    mc_State m0 = Running \<and> mc_Targets m0 \<noteq> [] \<and>
    (\<forall>t \<in> set (mc_Targets m0). ts_SessionState t \<in> backed_up_states - {WaitingForJob})"
  by (rule success_after_every_backup [OF sample_side_protocol one_reach_success])
    (simp add: one_machine_def)

text \<open>
  a session is declared a failure only if some target failed and has no attempt left, and
  then no target is left busy.
\<close>

theorem failure_means_exhausted:
  assumes "sidecar_protocol side" and "reachable side conf m" and "mc_State m = Failure"
  shows "exhausted (bcs_Targets (bc_Spec conf)) (mc_Targets m) \<and> quiet (mc_Targets m)"
  using reachable_phase [OF assms(1,2)] assms(3) by simp

theorem failure_means_exhausted_witness:
  "exhausted (bcs_Targets (bc_Spec one_conf)) [sample_status Failure] \<and> quiet [sample_status Failure]"
  using failure_means_exhausted [OF sample_side_protocol one_reach_failure] by (simp add: one_machine_def)

text \<open>
  C7: every session ends. With a fixed configuration there is no infinite sequence of effective
  reconciliations and reports from the creation of a session.
\<close>

theorem session_terminates:
  assumes "sidecar_protocol side"
  shows "\<not> (\<exists>run. run 0 = created \<and>
    (\<forall>i. machine_step side conf (run i) (run (Suc i)) \<and> run (Suc i) \<noteq> run i))"
proof
  assume "\<exists>run. run 0 = created \<and> (\<forall>i. machine_step side conf (run i) (run (Suc i)) \<and> run (Suc i) \<noteq> run i)"
  then obtain run where "\<And>i. (run (Suc i), run i) \<in> progress_order (bcs_Targets (bc_Spec conf))"
    using machine_step_progress [OF assms] by blast
  with wf_progress_order show False by (auto simp: wf_iff_no_infinite_down_chain)
qed

theorem session_terminates_witness:
  "\<not> (\<exists>run. run 0 = created \<and>
    (\<forall>i. machine_step sample_side one_conf (run i) (run (Suc i)) \<and> run (Suc i) \<noteq> run i))"
  by (rule session_terminates [OF sample_side_protocol])

text \<open>
  no deadlock. If the configuration has a target and every busy target is eventually reported
  on, a reachable session that is neither \<open>Success\<close> nor \<open>Failure\<close> always has a step that changes
  it; with termination, every session ends in one of the two.
\<close>

theorem session_progresses:
  assumes "sidecar_protocol side" and "sidecar_live side" and "bcs_Targets (bc_Spec conf) \<noteq> []"
    and "reachable side conf m" and "mc_State m \<notin> {Success, Failure}"
  shows "\<exists>m'. machine_step side conf m m' \<and> m' \<noteq> m"
proof -
  have inv: "machine_inv conf m" using reachable_inv [OF assms(1,4)] .
  then consider "mc_State m = Unset" | "mc_State m = New" | (check) "mc_State m \<in> {Initializing, Running, Finalize}"
    using assms(5) by (cases "mc_State m") (auto simp: machine_inv_def)
  then show ?thesis
  proof cases
    case 1
    then have "controller_step conf m (m\<lparr>mc_State := New\<rparr>)" by (rule controller_step.create)
    moreover have "m\<lparr>mc_State := New\<rparr> \<noteq> m" using 1 by (cases m) simp
    ultimately show ?thesis by (blast intro: machine_step.reconcile)
  next
    case 2
    then have "controller_step conf m \<lparr>mc_State = Initializing, mc_Targets = initSession (\<lambda>_. utc 0) conf\<rparr>"
      by (rule controller_step.init)
    moreover have "\<lparr>mc_State = Initializing, mc_Targets = initSession (\<lambda>_. utc 0) conf\<rparr> \<noteq> m"
      using 2 by auto
    ultimately show ?thesis by (blast intro: machine_step.reconcile)
  next
    case check
    then have tries: "length (mc_Targets m) = length (bcs_Targets (bc_Spec conf))"
      using inv by (auto simp: machine_inv_def tries_bounded_def)
    then have "\<exists>r tss. advance (mc_State m) (utc 0) (mc_Targets m) conf = Some (r, tss)"
      by (intro advance_total) simp
    then obtain r tss where adv: "advance (mc_State m) (utc 0) (mc_Targets m) conf = Some (r, tss)"
      by blast
    show ?thesis
    proof (cases "r = Unset \<or> r = mc_State m \<and> tss = mc_Targets m")
      case False
      then have "controller_step conf m \<lparr>mc_State = r, mc_Targets = tss\<rparr>"
        using check adv by (blast intro: controller_step.check)
      moreover have "\<lparr>mc_State = r, mc_Targets = tss\<rparr> \<noteq> m" using False by auto
      ultimately show ?thesis by (blast intro: machine_step.reconcile)
    next
      case True
      have "mc_Targets m \<noteq> []" using tries assms(3) by auto
      with advance_idle [OF check adv True] obtain t where "t \<in> set (mc_Targets m)"
        "ts_SessionState t = mc_State m \<or> ts_SessionState t = WaitingForJob"
        by (auto simp: pending_job_def)
      with check show ?thesis by (intro live_report [OF assms(1,2)]) auto
    qed
  qed
qed

theorem session_progresses_witness:
  "\<exists>m'. machine_step sample_side one_conf (one_machine Running Initialized) m' \<and> m' \<noteq> one_machine Running Initialized"
  using session_progresses [OF sample_side_protocol sample_side_live _ one_reach_running]
  by (simp add: one_machine_def one_targets)

text \<open>
  a configuration without targets blocks its sessions: a session of it never gets past
  \<open>Initializing\<close>, whatever happens, since the check of an empty list always answers
  \<open>""\<close> (no state to move to).
\<close>

theorem no_targets_no_progress:
  assumes "sidecar_protocol side" and "reachable side conf m" and "bcs_Targets (bc_Spec conf) = []"
  shows "mc_State m \<in> {Unset, New, Initializing} \<and>
    advance Initializing now [] conf = Some (Unset, [])"
proof -
  have "mc_Targets m = []" if "mc_State m \<notin> {Unset, New}"
    using reachable_tries [OF assms(1,2) that] assms(3) by (simp add: tries_bounded_def)
  with reachable_phase [OF assms(1,2)] assms(3) show ?thesis
    by (cases "mc_State m")
      (auto simp: exhausted_def checkInitialized_def checkSessionState_def)
qed

definition empty_conf :: backup_configuration where
  "empty_conf = sample_conf [] (sample_policy 1 0)"

theorem no_targets_no_progress_witness:
  "mc_State created \<in> {Unset, New, Initializing} \<and> advance Initializing (utc 0) [] empty_conf = Some (Unset, [])"
  by (rule no_targets_no_progress [OF sample_side_protocol reachable.start])
    (simp add: empty_conf_def sample_conf_def)

text \<open>
  a finalization that fails for the last time makes the session a success at once, whatever
  the targets after it: those still \<open>Waiting\<close> are never finalized.
\<close>

theorem finalize_failure_skips_the_rest:
  assumes "\<forall>t \<in> set done_targets. ts_SessionState t \<in> {Success, OtherState ''Finalized''}"
    and "ts_SessionState t = Failure" and "length done_targets < length (bcs_Targets (bc_Spec conf))"
    and "tg_Retry (bcs_Targets (bc_Spec conf) ! length done_targets) \<le> ts_Try t"
  shows "advance Finalize now (done_targets @ t # rest) conf = Some (Success, done_targets @ t # rest)"
proof -
  have set: "settled Waiting Finalize u" if "u \<in> set done_targets" for u
    using assms(1) that by (auto simp: settled_def)
  have front: "frontier Waiting Finalize (done_targets @ t # rest) = length done_targets"
    using set assms(2) by (simp add: frontier_def takeWhile_append settled_def)
  have "\<not> pending_job done_targets" using assms(1) by (auto simp: pending_job_def)
  then have "checkSuccess now (done_targets @ t # rest) conf = Some (Failure, done_targets @ t # rest)"
    using assms(2-4) front
    by (simp add: success.check_outcome phase_outcome_def frontier_outcome_def Let_def retry_limit_def nth_append)
  then show ?thesis by simp
qed

theorem finalize_failure_skips_the_rest_witness:
  "advance Finalize (utc 0) ([] @ sample_status Failure # [sample_status Waiting]) one_conf =
     Some (Success, [] @ sample_status Failure # [sample_status Waiting])"
  by (rule finalize_failure_skips_the_rest) (simp_all add: sample_status_def one_targets one_retry)

end
