(* ===== verification/GoStrings.thy ===== *)
theory GoStrings
  imports Prelude
begin

section \<open>Go's strings and paths: the library functions the code calls\<close>

text \<open>
  \<open>strings.Join\<close>, \<open>strings.Split\<close> with a one-character separator, \<open>%d\<close> of a slice index, and the
  lexical functions of \<open>path/filepath\<close> on a Unix system (\<open>Clean\<close>, \<open>Join\<close> of two elements,
  \<open>Rel\<close>), each on strings as lists of bytes.
\<close>

fun strings_Join :: "string list \<Rightarrow> string \<Rightarrow> string" where
  "strings_Join [] sep = ''''"
| "strings_Join [x] sep = x"
| "strings_Join (x # y # ys) sep = x @ sep @ strings_Join (y # ys) sep"

fun strings_Split :: "string \<Rightarrow> char \<Rightarrow> string list" where
  "strings_Split [] c = [[]]"
| "strings_Split (x # xs) c =
    (if x = c then [] # strings_Split xs c
     else case strings_Split xs c of [] \<Rightarrow> [[x]] | y # ys \<Rightarrow> (x # y) # ys)"

lemma strings_Split_not_Nil [simp]: "strings_Split s c \<noteq> []"
  by (cases s) (auto split: list.splits)

lemma strings_Join_Cons:
  "ys \<noteq> [] \<Longrightarrow> strings_Join (x # ys) sep = x @ sep @ strings_Join ys sep"
  by (cases ys) simp_all

lemma strings_Join_Cons_head:
  "strings_Join ((c # y) # ys) sep = c # strings_Join (y # ys) sep"
  by (cases ys) simp_all

lemma strings_Join_Split: "strings_Join (strings_Split s c) [c] = s"
  by (induction s) (auto simp: strings_Join_Cons strings_Join_Cons_head split: list.splits)

text \<open>Elements without the separator are split back.\<close>

lemma strings_Split_no_sep: "c \<notin> set s \<Longrightarrow> strings_Split s c = [s]"
  by (induction s) auto

lemma strings_Split_append:
  "c \<notin> set x \<Longrightarrow> strings_Split (x @ c # s) c = x # strings_Split s c"
  by (induction x) auto

lemma strings_Split_Join:
  "xs \<noteq> [] \<Longrightarrow> \<forall>x \<in> set xs. c \<notin> set x \<Longrightarrow> strings_Split (strings_Join xs [c]) c = xs"
  by (induction xs rule: induct_list012)
    (auto simp: strings_Split_no_sep strings_Split_append)

lemma strings_Split_free: "x \<in> set (strings_Split s c) \<Longrightarrow> c \<notin> set x"
  by (induction s arbitrary: x) (auto split: list.splits if_splits)

text \<open>\<open>%d\<close> of a non-negative integer.\<close>

fun nat_string :: "nat \<Rightarrow> string" where
  "nat_string n = (if n < 10 then [char_of (48 + n)]
     else nat_string (n div 10) @ [char_of (48 + n mod 10)])"

declare nat_string.simps [simp del]

subsection \<open>path/filepath\<close>

text \<open>One element of a path against the elements kept so far, last first.\<close>

definition clean_step :: "bool \<Rightarrow> string list \<Rightarrow> string \<Rightarrow> string list" where
  "clean_step rooted out e =
    (if e = '''' \<or> e = ''.'' then out
     else if e = ''..'' then
       (if out \<noteq> [] \<and> hd out \<noteq> ''..'' then tl out else if rooted then out else e # out)
     else e # out)"

definition is_rooted :: "string \<Rightarrow> bool" where
  "is_rooted p \<longleftrightarrow> p \<noteq> [] \<and> hd p = CHR ''/''"

definition clean_elems :: "string \<Rightarrow> string list" where
  "clean_elems p = rev (foldl (clean_step (is_rooted p)) [] (strings_Split p (CHR ''/'')))"

definition filepath_Clean :: "string \<Rightarrow> string" where
  "filepath_Clean p =
    (if is_rooted p then CHR ''/'' # strings_Join (clean_elems p) ''/''
     else if clean_elems p = [] then ''.'' else strings_Join (clean_elems p) ''/'')"

definition filepath_Join :: "string \<Rightarrow> string \<Rightarrow> string" where
  "filepath_Join a b =
    (if a \<noteq> '''' then filepath_Clean (a @ ''/'' @ b)
     else if b \<noteq> '''' then filepath_Clean b else '''')"

text \<open>The elements of a cleaned path; the base of \<open>Rel\<close> reads \<open>.\<close> as no element.\<close>

fun rel_elems :: "string list \<Rightarrow> string list \<Rightarrow> string option" where
  "rel_elems [] ts = Some (strings_Join ts ''/'')"
| "rel_elems (b # bs) [] = Some (strings_Join (replicate (Suc (length bs)) ''..'') ''/'')"
| "rel_elems (b # bs) (t # ts) =
    (if b = t then rel_elems bs ts
     else if b = ''..'' then None
     else Some (strings_Join (replicate (Suc (length bs)) ''..'' @ t # ts) ''/''))"

text \<open>\<open>None\<close> is the error of \<open>Rel\<close>, whose string result is then empty.\<close>

definition filepath_Rel :: "string \<Rightarrow> string \<Rightarrow> string option" where
  "filepath_Rel basepath targpath =
    (if filepath_Clean basepath = filepath_Clean targpath then Some ''.''
     else if is_rooted basepath \<noteq> is_rooted targpath then None
     else rel_elems (clean_elems basepath)
       (if clean_elems targpath = [] \<and> \<not> is_rooted targpath then [''.''] else clean_elems targpath))"

subsection \<open>Cleaned elements\<close>

text \<open>An ordinary element: no slash, and none of the elements that \<open>Clean\<close> removes.\<close>

definition plain_elem :: "string \<Rightarrow> bool" where
  "plain_elem e \<longleftrightarrow> e \<noteq> '''' \<and> e \<noteq> ''.'' \<and> e \<noteq> ''..'' \<and> CHR ''/'' \<notin> set e"

lemma clean_step_plain [simp]: "plain_elem e \<Longrightarrow> clean_step r out e = e # out"
  by (simp add: clean_step_def plain_elem_def)

lemma clean_step_empty [simp]: "clean_step r out '''' = out"
  by (simp add: clean_step_def)

lemma foldl_clean_plain: "\<forall>e \<in> set es. plain_elem e \<Longrightarrow> foldl (clean_step r) out es = rev es @ out"
  by (induction es arbitrary: out) simp_all

text \<open>A rooted path over ordinary elements is already clean.\<close>

definition rooted_path :: "string list \<Rightarrow> string" where
  "rooted_path es = CHR ''/'' # strings_Join es ''/''"

lemma is_rooted_rooted_path [simp]: "is_rooted (rooted_path es)"
  by (simp add: is_rooted_def rooted_path_def)

lemma split_rooted_path:
  "es \<noteq> [] \<Longrightarrow> \<forall>e \<in> set es. plain_elem e \<Longrightarrow> strings_Split (rooted_path es) (CHR ''/'') = '''' # es"
  by (simp add: rooted_path_def strings_Split_Join plain_elem_def)

lemma clean_elems_rooted_path [simp]:
  "\<forall>e \<in> set es. plain_elem e \<Longrightarrow> clean_elems (rooted_path es) = es"
  by (cases "es = []")
    (simp_all add: clean_elems_def split_rooted_path foldl_clean_plain, simp add: rooted_path_def)

lemma filepath_Clean_rooted_path [simp]:
  "\<forall>e \<in> set es. plain_elem e \<Longrightarrow> filepath_Clean (rooted_path es) = rooted_path es"
  by (simp add: filepath_Clean_def) (simp add: rooted_path_def)

text \<open>
  In a rooted path \<open>Clean\<close> leaves ordinary elements only, so a cleaned rooted path is a
  \<open>rooted_path\<close> and cleaning is idempotent.
\<close>

lemma clean_step_rooted:
  "CHR ''/'' \<notin> set e \<Longrightarrow> \<forall>x \<in> set out. plain_elem x \<Longrightarrow> \<forall>x \<in> set (clean_step True out e). plain_elem x"
  by (cases out) (auto simp: clean_step_def plain_elem_def)

lemma foldl_clean_rooted:
  "\<forall>e \<in> set es. CHR ''/'' \<notin> set e \<Longrightarrow> \<forall>x \<in> set out. plain_elem x \<Longrightarrow>
   \<forall>x \<in> set (foldl (clean_step True) out es). plain_elem x"
proof (induction es arbitrary: out)
  case (Cons e es)
  have "\<forall>x \<in> set (clean_step True out e). plain_elem x"
    using Cons.prems by (intro clean_step_rooted) simp_all
  then have "\<forall>x \<in> set (foldl (clean_step True) (clean_step True out e) es). plain_elem x"
    using Cons.prems by (intro Cons.IH) simp_all
  then show ?case by simp
qed simp

lemma clean_elems_plain: "is_rooted p \<Longrightarrow> \<forall>e \<in> set (clean_elems p). plain_elem e"
  using foldl_clean_rooted [of "strings_Split p (CHR ''/'')" "[]"]
  by (simp add: clean_elems_def strings_Split_free)

lemma filepath_Clean_rooted: "is_rooted p \<Longrightarrow> filepath_Clean p = rooted_path (clean_elems p)"
  by (simp add: filepath_Clean_def rooted_path_def)

lemma filepath_Clean_idem: "is_rooted p \<Longrightarrow> filepath_Clean (filepath_Clean p) = filepath_Clean p"
  by (simp add: filepath_Clean_rooted clean_elems_plain)

lemma rooted_path_inject:
  assumes "\<forall>e \<in> set es. plain_elem e" "\<forall>e \<in> set fs. plain_elem e" "rooted_path es = rooted_path fs"
  shows "es = fs"
  using assms clean_elems_rooted_path by metis

text \<open>\<open>Rel\<close> of a path below its base is the remaining elements.\<close>

lemma rel_elems_append: "rel_elems bs (bs @ ts) = Some (strings_Join ts ''/'')"
  by (induction bs) simp_all

lemma filepath_Rel_below:
  assumes "\<forall>e \<in> set (bs @ ts). plain_elem e" "ts \<noteq> []"
  shows "filepath_Rel (rooted_path bs) (rooted_path (bs @ ts)) = Some (strings_Join ts ''/'')"
proof -
  have "rooted_path bs \<noteq> rooted_path (bs @ ts)"
    using assms rooted_path_inject [of bs "bs @ ts"] by auto
  with assms(1) show ?thesis by (simp add: filepath_Rel_def rel_elems_append)
qed

lemma filepath_Rel_same: "filepath_Rel p p = Some ''.''"
  by (simp add: filepath_Rel_def)

end
