(* ===== verification/Retention.thy ===== *)
theory Retention
  imports Samples GoStrings
begin

section \<open>Retention (cleanupSessions of controllers/backupsession_controller_helper.go)\<close>

text \<open>
  When a session succeeds, the controller lists the successful sessions of the namespace, sorts
  them newest first and lets five rules (last, daily, weekly, monthly, yearly) claim them; a
  session that no rule claims is deleted, the others get the names of the rules written to
  their status. The model keeps the loop with its effects (\<open>cleanupLoop\<close>); a refinement lemma
  reduces it to the list of decisions (\<open>verdicts\<close>), about which the retention properties are
  stated. The locales \<open>budget_rule\<close> and \<open>spaced_rule\<close> are the contracts of one rule.
\<close>

subsection \<open>State and rules\<close>

text \<open>\<open>type KeepBackup struct\<close>: what is left of a counter, and the last time it was used.\<close>

record keep_backup =
  kb_Counter :: "32 word"
  kb_Last :: go_time

record retention =
  rt_last :: keep_backup
  rt_daily :: keep_backup
  rt_weekly :: keep_backup
  rt_monthly :: keep_backup
  rt_yearly :: keep_backup

text \<open>The \<open>Last\<close> fields start as the zero time.\<close>

definition new_keep :: "32 word \<Rightarrow> keep_backup" where
  "new_keep n = \<lparr>kb_Counter = n, kb_Last = zero_time\<rparr>"

definition new_retention :: "keep_policy \<Rightarrow> retention" where
  "new_retention p = \<lparr>rt_last = new_keep (kp_Last p), rt_daily = new_keep (kp_Daily p),
     rt_weekly = new_keep (kp_Weekly p), rt_monthly = new_keep (kp_Monthly p),
     rt_yearly = new_keep (kp_Yearly p)\<rparr>"

definition use_keep :: "go_time \<Rightarrow> keep_backup \<Rightarrow> keep_backup" where
  "use_keep t kb = \<lparr>kb_Counter = kb_Counter kb - 1, kb_Last = t\<rparr>"

text \<open>
  One rule applied to one session's start time: the rule's next state, and whether it keeps the
  session. The counters are compared as signed integers.
\<close>

definition keepLast :: "keep_backup \<Rightarrow> go_time \<Rightarrow> keep_backup \<times> bool" where
  "keepLast kb t =
    (if sint (kb_Counter kb) > 0 then (kb\<lparr>kb_Counter := kb_Counter kb - 1\<rparr>, True) else (kb, False))"

definition keepDaily :: "keep_backup \<Rightarrow> go_time \<Rightarrow> keep_backup \<times> bool" where
  "keepDaily kb t =
    (if sint (kb_Counter kb) > 0 then
       (if YearDay t \<noteq> YearDay (kb_Last kb) then (use_keep t kb, True) else (kb, False))
     else (kb, False))"

definition keepWeekly :: "keep_backup \<Rightarrow> go_time \<Rightarrow> keep_backup \<times> bool" where
  "keepWeekly kb t =
    (if sint (kb_Counter kb) > 0 then
       (if Weekday t = 0 \<and> YearDay t \<noteq> YearDay (kb_Last kb) then (use_keep t kb, True) else (kb, False))
     else (kb, False))"

definition keepMonthly :: "keep_backup \<Rightarrow> go_time \<Rightarrow> keep_backup \<times> bool" where
  "keepMonthly kb t =
    (if sint (kb_Counter kb) > 0 then
       (if Day t = 1 \<and> Month t \<noteq> Month (kb_Last kb) then (use_keep t kb, True) else (kb, False))
     else (kb, False))"

definition keepYearly :: "keep_backup \<Rightarrow> go_time \<Rightarrow> keep_backup \<times> bool" where
  "keepYearly kb t =
    (if sint (kb_Counter kb) > 0 then
       (if YearDay t = 1 \<and> Year t \<noteq> Year (kb_Last kb) then (use_keep t kb, True) else (kb, False))
     else (kb, False))"

text \<open>
  The body of the loop: the five rules in order; \<open>keep\<close> collects the names of the rules that
  keep the session. The code's flag \<open>deleteSession\<close> is cleared exactly where a name is appended.
\<close>

definition retention_step :: "retention \<Rightarrow> go_time \<Rightarrow> retention \<times> string list" where
  "retention_step rt t =
    (let (l, kl) = keepLast (rt_last rt) t;
         (d, kd) = keepDaily (rt_daily rt) t;
         (w, kw) = keepWeekly (rt_weekly rt) t;
         (m, km) = keepMonthly (rt_monthly rt) t;
         (y, ky) = keepYearly (rt_yearly rt) t
     in (\<lparr>rt_last = l, rt_daily = d, rt_weekly = w, rt_monthly = m, rt_yearly = y\<rparr>,
         (if kl then [''last''] else []) @ (if kd then [''daily''] else []) @
         (if kw then [''weekly''] else []) @ (if km then [''monthly''] else []) @
         (if ky then [''yearly''] else [])))"

subsection \<open>The loop and its effects\<close>

definition with_keep :: "backup_session \<Rightarrow> string list \<Rightarrow> backup_session" where
  "with_keep s keep = s\<lparr>bs_Status := (bs_Status s)\<lparr>bst_Keep := strings_Join keep '',''\<rparr>\<rparr>"

text \<open>
  The loop over the sorted sessions, each paired with the start time its pointer leads to.
  Sessions of another configuration are skipped; errors of the two writes are logged only.
\<close>

fun cleanupLoop :: "'w api \<Rightarrow> string \<Rightarrow> retention \<Rightarrow> (backup_session \<times> go_time) list \<Rightarrow> ('w, unit) go" where
  "cleanupLoop A confName rt [] = ret ()"
| "cleanupLoop A confName rt ((s, t) # rest) =
    (if snd (bss_Ref (bs_Spec s)) \<noteq> confName then cleanupLoop A confName rt rest
     else
       let (rt', keep) = retention_step rt t in
       if keep = [] then
         bind_go (ignore_err (call (api_Delete A (OBackupSession s))))
           (\<lambda>_. cleanupLoop A confName rt' rest)
       else
         bind_go (ignore_err (call (api_StatusUpdate A (OBackupSession (with_keep s keep)))))
           (\<lambda>_. cleanupLoop A confName rt' rest))"

text \<open>
  \<open>cleanupSessions\<close>. With two items or more the comparison of \<open>sort.Slice\<close> reads every
  item's \<open>StartTime.Time\<close>, so a nil start time panics there (\<open>those\<close> is \<open>None\<close>).
\<close>

definition timed :: "backup_session \<Rightarrow> (backup_session \<times> go_time) option" where
  "timed s = map_option (\<lambda>t. (s, t)) (bst_StartTime (bs_Status s))"

definition cleanupSessions :: "lib \<Rightarrow> 'w api \<Rightarrow> backup_configuration \<Rightarrow> ('w, unit) go" where
  "cleanupSessions L A conf =
     bind_go (try_go (call (api_ListBackupSessions A (om_Namespace (bc_Meta conf)) (state_string Success))))
       (\<lambda>r. case r of
          Inl _ \<Rightarrow> ret ()
        | Inr items \<Rightarrow>
            if length items < 2 then ret ()
            else bind_go (of_option (those (map timed items)))
              (\<lambda>ts. cleanupLoop A (om_Name (bc_Meta conf)) (new_retention (bcs_Keep (bc_Spec conf)))
                      (SortByStartDesc L ts)))"

subsection \<open>The decisions of a pass\<close>

definition own :: "string \<Rightarrow> (backup_session \<times> go_time) \<Rightarrow> bool" where
  "own confName x \<longleftrightarrow> snd (bss_Ref (bs_Spec (fst x))) = confName"

text \<open>The names of the rules that keep each of a list of start times, in the order given.\<close>

definition verdicts :: "retention \<Rightarrow> go_time list \<Rightarrow> string list list" where
  "verdicts rt ts = mealy retention_step rt ts"

definition session_call :: "backup_session \<Rightarrow> string list \<Rightarrow> api_call" where
  "session_call s keep = (if keep = [] then DeleteCall (OBackupSession s)
     else StatusUpdateCall (OBackupSession (with_keep s keep)))"

definition plan :: "string \<Rightarrow> retention \<Rightarrow> (backup_session \<times> go_time) list \<Rightarrow> api_call list" where
  "plan confName rt xs =
     (let mine = filter (own confName) xs in
      map2 (\<lambda>x keep. session_call (fst x) keep) mine (verdicts rt (map snd mine)))"

text \<open>
  Whatever the API server answers, the loop returns and makes exactly the planned calls.
\<close>

lemma cleanupLoop_plan:
  "\<exists>w'. cleanupLoop (logged A) confName rt xs (w, l) = (Ret (), (w', l @ plan confName rt xs))"
proof (induction xs arbitrary: rt w l)
  case Nil
  show ?case by (simp add: plan_def verdicts_def go_run)
next
  case (Cons x xs)
  obtain s t where x: "x = (s, t)" by (cases x)
  obtain rt' keep where step: "retention_step rt t = (rt', keep)" by (cases "retention_step rt t")
  show ?case
  proof (cases "own confName x")
    case False
    with Cons.IH [of rt w l] show ?thesis by (simp add: x own_def plan_def)
  next
    case True
    let ?c = "session_call s keep"
    have plan: "plan confName rt (x # xs) = ?c # plan confName rt' xs"
      using True step by (simp add: plan_def verdicts_def x Let_def)
    define f where "f = (if keep = [] then api_Delete A (OBackupSession s)
      else api_StatusUpdate A (OBackupSession (with_keep s keep)))"
    have f: "cleanupLoop (logged A) confName rt (x # xs) =
        bind_go (ignore_err (call (log_call ?c f))) (\<lambda>_. cleanupLoop (logged A) confName rt' xs)"
      using True step by (simp add: x own_def session_call_def f_def)
    obtain w1 where w1: "ignore_err (call (log_call ?c f)) (w, l) = (Ret (), (w1, l @ [?c]))"
      using ignore_log_call [of ?c f w l] by auto
    obtain w2 where "cleanupLoop (logged A) confName rt' xs (w1, l @ [?c]) =
        (Ret (), (w2, (l @ [?c]) @ plan confName rt' xs))"
      using Cons.IH by blast
    with w1 show ?thesis by (simp add: f plan go_run)
  qed
qed

subsection \<open>The contract of one rule\<close>

text \<open>The start times a rule keeps out of a list.\<close>

definition picked :: "(keep_backup \<Rightarrow> go_time \<Rightarrow> keep_backup \<times> bool) \<Rightarrow> keep_backup \<Rightarrow> go_time list \<Rightarrow> go_time list" where
  "picked rule kb ts = map fst (filter (\<lambda>(t, b). b) (zip ts (mealy rule kb ts)))"

lemma picked_Nil [simp]: "picked rule kb [] = []"
  by (simp add: picked_def)

lemma picked_Cons:
  "picked rule kb (t # ts) =
     (case rule kb t of (kb', b) \<Rightarrow> (if b then [t] else []) @ picked rule kb' ts)"
  by (simp add: picked_def split: prod.split)

lemma set_picked: "set (picked rule kb ts) \<subseteq> set ts"
  by (auto simp: picked_def dest: set_zip_leftD)

text \<open>A rule with a budget: it keeps a session by spending one unit of a positive counter.\<close>

locale budget_rule =
  fixes rule :: "keep_backup \<Rightarrow> go_time \<Rightarrow> keep_backup \<times> bool"
  assumes silent: "rule kb t = (kb', False) \<Longrightarrow> kb' = kb"
    and spend: "rule kb t = (kb', True) \<Longrightarrow>
      sint (kb_Counter kb) > 0 \<and> kb_Counter kb' = kb_Counter kb - 1"
begin

lemma spend_sint:
  assumes "rule kb t = (kb', True)"
  shows "sint (kb_Counter kb) > 0" "sint (kb_Counter kb') = sint (kb_Counter kb) - 1"
  using spend [OF assms] by (simp_all add: sint_pred_of_pos)

lemma picked_take: "rule kb t = (kb', True) \<Longrightarrow> picked rule kb (t # ts) = t # picked rule kb' ts"
  by (simp add: picked_Cons)

lemma picked_pass: "rule kb t = (kb', False) \<Longrightarrow> picked rule kb (t # ts) = picked rule kb ts"
  using silent [of kb t kb'] by (simp add: picked_Cons)

text \<open>The counter goes down by one per kept session and never wraps around.\<close>

lemma counter_exact:
  "sint (kb_Counter (mealy_state rule kb ts)) = sint (kb_Counter kb) - int (length (picked rule kb ts))"
proof (induction ts arbitrary: kb)
  case Nil
  show ?case by simp
next
  case (Cons t ts)
  obtain kb' b where r: "rule kb t = (kb', b)" by (cases "rule kb t")
  show ?case
  proof (cases b)
    case True
    with r have r': "rule kb t = (kb', True)" by simp
    with Cons.IH [of kb'] spend_sint [OF r'] show ?thesis by (simp add: picked_take)
  next
    case False
    with r have r': "rule kb t = (kb', False)" by simp
    with Cons.IH [of kb] silent [OF r'] show ?thesis by (simp add: picked_pass)
  qed
qed

lemma budget: "length (picked rule kb ts) \<le> nat (sint (kb_Counter kb))"
proof (induction ts arbitrary: kb)
  case Nil
  show ?case by simp
next
  case (Cons t ts)
  obtain kb' b where r: "rule kb t = (kb', b)" by (cases "rule kb t")
  show ?case
  proof (cases b)
    case True
    with r have r': "rule kb t = (kb', True)" by simp
    with Cons.IH [of kb'] spend_sint [OF r'] show ?thesis by (simp add: picked_take)
  next
    case False
    with r have r': "rule kb t = (kb', False)" by simp
    with Cons.IH [of kb] show ?thesis by (simp add: picked_pass)
  qed
qed

end

text \<open>
  A spaced rule keeps an eligible session whose key (the day, the month, the year) differs from
  the key of the session it kept before.
\<close>

locale spaced_rule = budget_rule +
  fixes eligible :: "go_time \<Rightarrow> bool" and key :: "go_time \<Rightarrow> int"
  assumes rule_eq: "rule kb t =
    (if sint (kb_Counter kb) > 0 \<and> eligible t \<and> key t \<noteq> key (kb_Last kb)
     then (use_keep t kb, True) else (kb, False))"
begin

definition fires :: "keep_backup \<Rightarrow> go_time \<Rightarrow> bool" where
  "fires kb t \<longleftrightarrow> sint (kb_Counter kb) > 0 \<and> eligible t \<and> key t \<noteq> key (kb_Last kb)"

lemma picked_fires: "fires kb t \<Longrightarrow> picked rule kb (t # ts) = t # picked rule (use_keep t kb) ts"
  using rule_eq [of kb t] by (simp add: picked_take fires_def)

lemma picked_idle: "\<not> fires kb t \<Longrightarrow> picked rule kb (t # ts) = picked rule kb ts"
  using rule_eq [of kb t] picked_pass [of kb t kb] by (simp add: fires_def)

lemma picked_eligible: "t \<in> set (picked rule kb ts) \<Longrightarrow> eligible t"
proof (induction ts arbitrary: kb)
  case (Cons u ts)
  then show ?case
    by (cases "fires kb u") (auto simp: picked_fires picked_idle, simp add: fires_def)
qed simp

lemma picked_spaced: "distinct_adj (key (kb_Last kb) # map key (picked rule kb ts))"
proof (induction ts arbitrary: kb)
  case Nil
  show ?case by simp
next
  case (Cons u ts)
  show ?case
  proof (cases "fires kb u")
    case True
    with Cons.IH [of "use_keep u kb"] show ?thesis
      by (simp add: picked_fires use_keep_def fires_def)
  next
    case False
    with Cons.IH [of kb] show ?thesis by (simp add: picked_idle)
  qed
qed

text \<open>
  While the budget is not used up, the rule misses no key: an eligible session that it passes
  over has the key of a session it keeps, or the key it started from.
\<close>

lemma picked_complete:
  assumes "length (picked rule kb ts) < nat (sint (kb_Counter kb))" "t \<in> set ts" "eligible t"
  shows "key t \<in> insert (key (kb_Last kb)) (key ` set (picked rule kb ts))"
  using assms
proof (induction ts arbitrary: kb)
  case Nil
  then show ?case by simp
next
  case (Cons u ts)
  show ?case
  proof (cases "fires kb u")
    case True
    let ?kb = "use_keep u kb"
    have "sint (kb_Counter ?kb) = sint (kb_Counter kb) - 1"
      using True by (simp add: use_keep_def fires_def sint_pred_of_pos)
    with Cons.prems(1) True have "length (picked rule ?kb ts) < nat (sint (kb_Counter ?kb))"
      by (simp add: picked_fires)
    then have "t \<in> set ts \<Longrightarrow> key t \<in> insert (key u) (key ` set (picked rule ?kb ts))"
      using Cons.IH [of ?kb] Cons.prems(3) by (simp add: use_keep_def)
    with Cons.prems(2) True show ?thesis by (auto simp: picked_fires)
  next
    case False
    have "sint (kb_Counter kb) > 0" using Cons.prems(1) by linarith
    with False Cons.prems(3) have "t = u \<Longrightarrow> key t = key (kb_Last kb)" by (auto simp: fires_def)
    moreover have "t \<in> set ts \<Longrightarrow> ?thesis"
      using Cons.IH [of kb] Cons.prems(1,3) False by (simp add: picked_idle)
    ultimately show ?thesis using Cons.prems(2) by auto
  qed
qed

end

text \<open>The five rules of the code.\<close>

interpretation last_rule: budget_rule keepLast
  by unfold_locales (auto simp: keepLast_def split: if_splits)

interpretation daily: spaced_rule keepDaily "\<lambda>_. True" YearDay
  by unfold_locales (auto simp: keepDaily_def use_keep_def split: if_splits)

interpretation weekly: spaced_rule keepWeekly "\<lambda>t. Weekday t = 0" YearDay
  by unfold_locales (auto simp: keepWeekly_def use_keep_def split: if_splits)

interpretation monthly: spaced_rule keepMonthly "\<lambda>t. Day t = 1" Month
  by unfold_locales (auto simp: keepMonthly_def use_keep_def split: if_splits)

interpretation yearly: spaced_rule keepYearly "\<lambda>t. YearDay t = 1" Year
  by unfold_locales (auto simp: keepYearly_def use_keep_def split: if_splits)

subsection \<open>From the rules to the decisions\<close>

lemmas step_split = retention_step_def Let_def case_prod_beta

lemma last_step: "case retention_step rt t of (rt', k) \<Rightarrow> keepLast (rt_last rt) t = (rt_last rt', ''last'' \<in> set k)"
  by (simp add: step_split)

lemma daily_step: "case retention_step rt t of (rt', k) \<Rightarrow> keepDaily (rt_daily rt) t = (rt_daily rt', ''daily'' \<in> set k)"
  by (simp add: step_split)

lemma weekly_step: "case retention_step rt t of (rt', k) \<Rightarrow> keepWeekly (rt_weekly rt) t = (rt_weekly rt', ''weekly'' \<in> set k)"
  by (simp add: step_split)

lemma monthly_step: "case retention_step rt t of (rt', k) \<Rightarrow> keepMonthly (rt_monthly rt) t = (rt_monthly rt', ''monthly'' \<in> set k)"
  by (simp add: step_split)

lemma yearly_step: "case retention_step rt t of (rt', k) \<Rightarrow> keepYearly (rt_yearly rt) t = (rt_yearly rt', ''yearly'' \<in> set k)"
  by (simp add: step_split)

lemmas verdicts_last = mealy_project [where f = retention_step and g = keepLast and p = rt_last
  and q = "\<lambda>k. ''last'' \<in> set k", OF last_step, folded verdicts_def]

lemmas verdicts_daily = mealy_project [where f = retention_step and g = keepDaily and p = rt_daily
  and q = "\<lambda>k. ''daily'' \<in> set k", OF daily_step, folded verdicts_def]

lemmas verdicts_weekly = mealy_project [where f = retention_step and g = keepWeekly and p = rt_weekly
  and q = "\<lambda>k. ''weekly'' \<in> set k", OF weekly_step, folded verdicts_def]

lemmas verdicts_monthly = mealy_project [where f = retention_step and g = keepMonthly and p = rt_monthly
  and q = "\<lambda>k. ''monthly'' \<in> set k", OF monthly_step, folded verdicts_def]

lemmas verdicts_yearly = mealy_project [where f = retention_step and g = keepYearly and p = rt_yearly
  and q = "\<lambda>k. ''yearly'' \<in> set k", OF yearly_step, folded verdicts_def]

lemmas final_rules =
  mealy_state_project [where f = retention_step and g = keepLast and p = rt_last
    and q = "\<lambda>k. ''last'' \<in> set k", OF last_step]
  mealy_state_project [where f = retention_step and g = keepDaily and p = rt_daily
    and q = "\<lambda>k. ''daily'' \<in> set k", OF daily_step]
  mealy_state_project [where f = retention_step and g = keepWeekly and p = rt_weekly
    and q = "\<lambda>k. ''weekly'' \<in> set k", OF weekly_step]
  mealy_state_project [where f = retention_step and g = keepMonthly and p = rt_monthly
    and q = "\<lambda>k. ''monthly'' \<in> set k", OF monthly_step]
  mealy_state_project [where f = retention_step and g = keepYearly and p = rt_yearly
    and q = "\<lambda>k. ''yearly'' \<in> set k", OF yearly_step]

lemma tagged_times:
  assumes "map (\<lambda>k. tag \<in> set k) (verdicts rt ts) = mealy rule kb ts"
  shows "map fst (filter (\<lambda>(t, k). tag \<in> set k) (zip ts (verdicts rt ts))) = picked rule kb ts"
  unfolding picked_def assms [symmetric]
  by (rule map_fst_filter_map2 [where P = "\<lambda>b. b" and g = "\<lambda>k. tag \<in> set k"])

lemma length_verdicts [simp]: "length (verdicts rt ts) = length ts"
  by (simp add: verdicts_def)

lemma count_tag:
  assumes "map (\<lambda>k. tag \<in> set k) (verdicts rt ts) = mealy rule kb ts"
  shows "length (filter (\<lambda>k. tag \<in> set k) (verdicts rt ts)) = length (picked rule kb ts)"
  using arg_cong [OF tagged_times [OF assms], of length] by (simp add: length_filter_zip)

text \<open>The names of the rules.\<close>

definition rule_names :: "string set" where
  "rule_names = {''last'', ''daily'', ''weekly'', ''monthly'', ''yearly''}"

text \<open>The names a step can give, and what a session without a name did to the counters.\<close>

lemma retention_step_names:
  "retention_step rt t = (rt', keep) \<Longrightarrow> set keep \<subseteq> rule_names"
  by (auto simp: step_split rule_names_def split: if_splits)

lemma retention_step_silent: "retention_step rt t = (rt', []) \<Longrightarrow> rt' = rt"
  by (auto simp: step_split keepLast_def keepDaily_def keepWeekly_def keepMonthly_def keepYearly_def
      split: if_splits)

text \<open>The last rule keeps a prefix: as many sessions as its counter says.\<close>

lemma keepLast_prefix:
  "i < length ts \<Longrightarrow> mealy keepLast kb ts ! i \<longleftrightarrow> int i < sint (kb_Counter kb)"
proof (induction ts arbitrary: kb i)
  case Nil
  then show ?case by simp
next
  case (Cons t ts)
  show ?case
  proof (cases "sint (kb_Counter kb) > 0")
    case True
    let ?kb = "kb\<lparr>kb_Counter := kb_Counter kb - 1\<rparr>"
    have "keepLast kb t = (?kb, True)" using True by (simp add: keepLast_def)
    moreover have "sint (kb_Counter ?kb) = sint (kb_Counter kb) - 1"
      using True by (simp add: sint_pred_of_pos)
    ultimately show ?thesis
      using True Cons.prems Cons.IH [of "i - 1" ?kb] by (cases i) auto
  next
    case False
    then have "keepLast kb t = (kb, False)" by (simp add: keepLast_def)
    with False Cons.prems Cons.IH [of "i - 1" kb] show ?thesis by (cases i) auto
  qed
qed

lemma verdicts_last_nth:
  assumes "i < length ts"
  shows "''last'' \<in> set (verdicts rt ts ! i) \<longleftrightarrow> int i < sint (kb_Counter (rt_last rt))"
proof -
  have "map (\<lambda>k. ''last'' \<in> set k) (verdicts rt ts) ! i \<longleftrightarrow> int i < sint (kb_Counter (rt_last rt))"
    unfolding verdicts_last using assms by (rule keepLast_prefix)
  with assms show ?thesis by simp
qed

text \<open>A second pass over the kept sessions keeps them all, for the same reasons.\<close>

definition survivors :: "retention \<Rightarrow> ('a \<Rightarrow> go_time) \<Rightarrow> 'a list \<Rightarrow> 'a list" where
  "survivors rt f xs = map fst (filter (\<lambda>(x, k). k \<noteq> []) (zip xs (verdicts rt (map f xs))))"

lemma map_survivors:
  "map f (survivors rt f xs) = survivors rt id (map f xs)"
  by (simp add: survivors_def map_fst_filter_map1 del: map_map)

lemma verdicts_survivors:
  "verdicts rt (map f (survivors rt f xs)) = filter (\<lambda>k. k \<noteq> []) (verdicts rt (map f xs))"
proof -
  have "verdicts rt (map fst (filter (\<lambda>(x, k). \<not> k = []) (zip (map f xs) (verdicts rt (map f xs))))) =
      filter (\<lambda>k. \<not> k = []) (verdicts rt (map f xs))"
    unfolding verdicts_def
    by (rule mealy_drop_silent) (use retention_step_silent in blast)
  then show ?thesis by (simp add: map_survivors) (simp add: survivors_def)
qed

text \<open>How many sessions survive: at most the sum of the positive counters.\<close>

lemma verdict_names: "k \<in> set (verdicts rt ts) \<Longrightarrow> set k \<subseteq> rule_names"
proof (induction ts arbitrary: rt)
  case Nil
  then show ?case by (simp add: verdicts_def)
next
  case (Cons t ts)
  obtain rt' keep where s: "retention_step rt t = (rt', keep)" by (cases "retention_step rt t")
  then have "verdicts rt (t # ts) = keep # verdicts rt' ts" by (simp add: verdicts_def)
  with Cons.prems have "k = keep \<or> k \<in> set (verdicts rt' ts)" by simp
  with Cons.IH [of rt'] retention_step_names [OF s] show ?case by blast
qed

definition budget_of :: "retention \<Rightarrow> nat" where
  "budget_of rt = nat (sint (kb_Counter (rt_last rt))) + nat (sint (kb_Counter (rt_daily rt))) +
     nat (sint (kb_Counter (rt_weekly rt))) + nat (sint (kb_Counter (rt_monthly rt))) +
     nat (sint (kb_Counter (rt_yearly rt)))"

lemma survivors_budget: "length (filter (\<lambda>k. k \<noteq> []) (verdicts rt ts)) \<le> budget_of rt"
proof -
  let ?n = "\<lambda>tag. length (filter (\<lambda>k. tag \<in> set k) (verdicts rt ts))"
  have named: "k \<noteq> [] \<Longrightarrow> \<exists>tag \<in> rule_names. tag \<in> set k" if "k \<in> set (verdicts rt ts)" for k
    using verdict_names [OF that] by (cases k) auto
  have "length (filter (\<lambda>k. k \<noteq> []) (verdicts rt ts)) \<le>
      length (filter (\<lambda>k. ''last'' \<in> set k \<or> ''daily'' \<in> set k \<or> ''weekly'' \<in> set k \<or>
        ''monthly'' \<in> set k \<or> ''yearly'' \<in> set k) (verdicts rt ts))"
    by (rule length_filter_implies) (use named in \<open>unfold rule_names_def, blast\<close>)
  also have "\<dots> \<le> ?n ''last'' + (?n ''daily'' + (?n ''weekly'' + (?n ''monthly'' + ?n ''yearly'')))"
    by (intro length_filter_or [THEN order_trans] add_left_mono order_refl)
  finally show ?thesis
    using last_rule.budget [of "rt_last rt" ts] daily.budget [of "rt_daily rt" ts]
      weekly.budget [of "rt_weekly rt" ts] monthly.budget [of "rt_monthly rt" ts]
      yearly.budget [of "rt_yearly rt" ts]
    unfolding count_tag [OF verdicts_last] count_tag [OF verdicts_daily]
      count_tag [OF verdicts_weekly] count_tag [OF verdicts_monthly]
      count_tag [OF verdicts_yearly] budget_of_def
    by linarith
qed

fun is_delete :: "api_call \<Rightarrow> bool" where
  "is_delete (DeleteCall _) = True"
| "is_delete _ = False"

lemma is_delete_session_call [simp]: "is_delete (session_call s k) \<longleftrightarrow> k = []"
  by (simp add: session_call_def)

subsection \<open>A whole pass\<close>

text \<open>
  One run of \<open>cleanupSessions\<close>, whatever was logged before.
\<close>

lemma cleanupSessions_run:
  "\<exists>w'. cleanupSessions L (logged A) conf (w, l) =
     (let ns = om_Namespace (bc_Meta conf); c = ListCall ns ''Success'' in
      case fst (api_ListBackupSessions A ns ''Success'' w) of
        Inl _ \<Rightarrow> (Ret (), (w', l @ [c]))
      | Inr items \<Rightarrow>
          if length items < 2 then (Ret (), (w', l @ [c]))
          else case those (map timed items) of
            None \<Rightarrow> (Panic, (w', l @ [c]))
          | Some ts \<Rightarrow> (Ret (), (w', l @ c # plan (om_Name (bc_Meta conf))
              (new_retention (bcs_Keep (bc_Spec conf))) (SortByStartDesc L ts))))"
proof -
  let ?ns = "om_Namespace (bc_Meta conf)"
  let ?rt = "new_retention (bcs_Keep (bc_Spec conf))"
  obtain x w1 where x: "api_ListBackupSessions A ?ns ''Success'' w = (x, w1)"
    by (cases "api_ListBackupSessions A ?ns ''Success'' w")
  show ?thesis
  proof (cases x)
    case (Inl e)
    with x show ?thesis
      by (auto simp: cleanupSessions_def bind_go_def try_go_def call_def log_call_def ret_def)
  next
    case (Inr items)
    have run: "cleanupSessions L (logged A) conf (w, l) =
        (if length items < 2 then ret ()
         else bind_go (of_option (those (map timed items)))
           (\<lambda>ts. cleanupLoop (logged A) (om_Name (bc_Meta conf)) ?rt (SortByStartDesc L ts)))
         (w1, l @ [ListCall ?ns ''Success''])"
      using x Inr by (simp add: cleanupSessions_def bind_go_def try_go_def call_def log_call_def)
    show ?thesis
    proof (cases "those (map timed items)")
      case None
      with x Inr show ?thesis by (auto simp: run go_run of_option_def)
    next
      case (Some ts)
      with x Inr cleanupLoop_plan [of A "om_Name (bc_Meta conf)" ?rt "SortByStartDesc L ts" w1
          "l @ [ListCall ?ns ''Success'']"]
      show ?thesis by (auto simp: run go_run of_option_def)
    qed
  qed
qed

text \<open>A deleted session has as many newer ones, all kept, as the last rule counts.\<close>

lemma plan_keeps_newest:
  assumes "sort_law L"
    and "DeleteCall (OBackupSession s) \<in> set (plan confName (new_retention p) (SortByStartDesc L xs))"
  shows "\<exists>t newer. length newer = nat (sint (kp_Last p)) \<and>
    add_mset (s, t) (mset newer) \<subseteq># mset (filter (own confName) xs) \<and>
    (\<forall>(s', t') \<in> set newer. Unix t \<le> Unix t' \<and>
       (\<exists>keep. ''last'' \<in> set keep \<and> StatusUpdateCall (OBackupSession (with_keep s' keep)) \<in>
         set (plan confName (new_retention p) (SortByStartDesc L xs))))"
proof -
  let ?ys = "SortByStartDesc L xs" and ?n = "nat (sint (kp_Last p))"
  define mine where "mine = filter (own confName) ?ys"
  define V where "V = verdicts (new_retention p) (map snd mine)"
  have len: "length V = length mine" by (simp add: V_def)
  have plan: "plan confName (new_retention p) ?ys = map2 (\<lambda>x k. session_call (fst x) k) mine V"
    by (simp add: plan_def mine_def V_def Let_def)
  have perm: "mset ?ys = mset xs" and "sorted_wrt (\<lambda>a b. Unix (snd a) \<ge> Unix (snd b)) ?ys"
    using assms(1) by (simp_all add: sort_law_def)
  then have sorted: "sorted_wrt (\<lambda>a b. Unix (snd a) \<ge> Unix (snd b)) mine"
    by (simp add: mine_def sorted_wrt_filter)
  have last: "''last'' \<in> set (V ! i) \<longleftrightarrow> i < ?n" if "i < length mine" for i
    using that by (simp add: V_def verdicts_last_nth new_retention_def new_keep_def) linarith
  obtain j where j: "j < length mine" "V ! j = []" "s = fst (mine ! j)"
    using assms(2) unfolding plan by (auto simp: set_zip len session_call_def split: if_splits)
  have n: "?n \<le> j" using last [OF j(1)] j(2) by simp
  have "length (take ?n mine) = ?n" using n j(1) by simp
  moreover have "add_mset (s, snd (mine ! j)) (mset (take ?n mine)) \<subseteq># mset (filter (own confName) xs)"
  proof -
    have "mset mine = mset (filter (own confName) xs)" using perm by (simp add: mine_def mset_filter)
    moreover have "mine ! j \<in> set (drop ?n mine)"
      using n j(1) by (auto simp: in_set_conv_nth intro!: exI [of _ "j - ?n"])
    then have "add_mset (mine ! j) (mset (take ?n mine)) \<subseteq># mset (take ?n mine) + mset (drop ?n mine)"
      by (metis add_mset_add_single mset_subset_eq_mono_add_left_cancel mset_subset_eq_single set_mset_mset)
    moreover have "mset (take ?n mine) + mset (drop ?n mine) = mset mine"
      by (metis append_take_drop_id mset_append)
    ultimately show ?thesis by (simp add: j(3))
  qed
  moreover have "Unix (snd (mine ! j)) \<le> Unix t' \<and> (\<exists>keep. ''last'' \<in> set keep \<and>
      StatusUpdateCall (OBackupSession (with_keep s' keep)) \<in> set (plan confName (new_retention p) ?ys))"
    if newer: "(s', t') \<in> set (take ?n mine)" for s' t'
  proof -
    obtain i where i: "i < ?n" "i < length mine" "mine ! i = (s', t')"
      using newer by (auto simp: in_set_conv_nth)
    have "Unix (snd (mine ! j)) \<le> Unix t'"
      using sorted_wrt_nth_less [OF sorted, of i j] i n j(1) by simp
    moreover have "session_call s' (V ! i) \<in> set (plan confName (new_retention p) ?ys)"
      unfolding plan using i by (force simp: set_zip len)
    moreover have "''last'' \<in> set (V ! i)" using last i by simp
    ultimately show ?thesis by (auto simp: session_call_def split: if_splits)
  qed
  ultimately show ?thesis by (intro exI [of _ "snd (mine ! j)"] exI [of _ "take ?n mine"]) auto
qed

lemma timed_items:
  assumes "those (map timed items) = Some ts"
  shows "map fst ts = items" and "(s, t) \<in> set ts \<Longrightarrow> bst_StartTime (bs_Status s) = Some t"
    and "map (map_option Unix \<circ> (bst_StartTime \<circ> bs_Status)) items = map (Some \<circ> (Unix \<circ> snd)) ts"
proof -
  have "list_all2 (\<lambda>s x. timed s = Some x) items ts"
    using assms unfolding those_eq_Some_iff list_all2_conv_all_nth
    by (metis length_map map_eq_imp_length_eq nth_map)
  then have "map fst ts = items \<and> (\<forall>(s, t) \<in> set ts. bst_StartTime (bs_Status s) = Some t) \<and>
      map (map_option Unix \<circ> (bst_StartTime \<circ> bs_Status)) items = map (Some \<circ> (Unix \<circ> snd)) ts"
    by (induction rule: list_all2_induct) (auto simp: timed_def)
  then show "map fst ts = items" "(s, t) \<in> set ts \<Longrightarrow> bst_StartTime (bs_Status s) = Some t"
    "map (map_option Unix \<circ> (bst_StartTime \<circ> bs_Status)) items = map (Some \<circ> (Unix \<circ> snd)) ts"
    by auto
qed

definition session_of :: "string \<Rightarrow> backup_session \<Rightarrow> bool" where
  "session_of confName s \<longleftrightarrow> snd (bss_Ref (bs_Spec s)) = confName"

lemma pass_keeps_newest:
  assumes "sort_law L" and ts: "those (map timed items) = Some ts"
    and del: "DeleteCall (OBackupSession s) \<in> set (plan confName (new_retention p) (SortByStartDesc L ts))"
  shows "\<exists>t newer. bst_StartTime (bs_Status s) = Some t \<and> length newer = nat (sint (kp_Last p)) \<and>
    add_mset s (mset newer) \<subseteq># mset (filter (session_of confName) items) \<and>
    (\<forall>s' \<in> set newer. \<exists>t' keep. bst_StartTime (bs_Status s') = Some t' \<and> Unix t \<le> Unix t' \<and> ''last'' \<in> set keep \<and>
       StatusUpdateCall (OBackupSession (with_keep s' keep)) \<in> set (plan confName (new_retention p) (SortByStartDesc L ts)))"
proof -
  obtain t newer where newer: "length newer = nat (sint (kp_Last p))"
    "add_mset (s, t) (mset newer) \<subseteq># mset (filter (own confName) ts)"
    "\<forall>(s', t') \<in> set newer. Unix t \<le> Unix t' \<and> (\<exists>keep. ''last'' \<in> set keep \<and>
      StatusUpdateCall (OBackupSession (with_keep s' keep)) \<in> set (plan confName (new_retention p) (SortByStartDesc L ts)))"
    using plan_keeps_newest [OF assms(1) del] by blast
  have "own confName = session_of confName \<circ> fst" by (simp add: fun_eq_iff own_def session_of_def)
  then have "map fst (filter (own confName) ts) = filter (session_of confName) items"
    by (simp only: filter_map [symmetric] timed_items(1) [OF ts])
  with image_mset_subseteq_mono [OF newer(2), of fst]
  have sub: "add_mset s (mset (map fst newer)) \<subseteq># mset (filter (session_of confName) items)"
    by (metis fst_conv image_mset_add_mset mset_map)
  have time: "bst_StartTime (bs_Status s') = Some t'" if "(s', t') \<in> set ((s, t) # newer)" for s' t'
  proof -
    have "(s', t') \<in># mset (filter (own confName) ts)"
      using newer(2) that by (metis list.set_intros(1) mset.simps(2) mset_subset_eqD set_ConsD set_mset_mset)
    then show ?thesis by (intro timed_items(2) [OF ts]) simp
  qed
  have "\<exists>t' keep. bst_StartTime (bs_Status s') = Some t' \<and> Unix t \<le> Unix t' \<and> ''last'' \<in> set keep \<and>
       StatusUpdateCall (OBackupSession (with_keep s' keep)) \<in> set (plan confName (new_retention p) (SortByStartDesc L ts))"
    if "s' \<in> set (map fst newer)" for s'
  proof -
    obtain t' where "(s', t') \<in> set newer" using \<open>s' \<in> set (map fst newer)\<close> by auto
    with newer(3) time [of s' t'] show ?thesis by (auto split: prod.splits)
  qed
  with newer(1) sub time [of s t] show ?thesis by (intro exI [of _ t] exI [of _ "map fst newer"]) simp
qed

text \<open>
  A second pass over the sessions that the first one left, in the same order. The value of
  \<open>Keep\<close> does not matter: \<open>stripped\<close> forgets it.
\<close>

definition stripped :: "backup_session \<times> go_time \<Rightarrow> backup_session \<times> go_time" where
  "stripped x = (with_keep (fst x) [], snd x)"

lemma with_keep_simps [simp]:
  "with_keep (with_keep s k) k' = with_keep s k'" "bs_Spec (with_keep s k) = bs_Spec s"
  "bst_StartTime (bs_Status (with_keep s k)) = bst_StartTime (bs_Status s)"
  by (simp_all add: with_keep_def)

lemma plan_stripped:
  "filter (\<lambda>c. \<not> is_delete c) (plan confName rt (map stripped xs)) = filter (\<lambda>c. \<not> is_delete c) (plan confName rt xs)"
  "map is_delete (plan confName rt (map stripped xs)) = map is_delete (plan confName rt xs)"
proof -
  let ?mine = "filter (own confName) xs"
  have "filter (own confName) (map stripped xs) = map stripped ?mine"
    by (simp add: filter_map comp_def own_def [abs_def] stripped_def)
  then have "plan confName rt (map stripped xs) =
      map2 (\<lambda>x k. session_call (fst (stripped x)) k) ?mine (verdicts rt (map snd ?mine))"
    by (simp add: plan_def stripped_def comp_def zip_map1 case_prod_beta)
  moreover have "session_call (fst (stripped x)) k = session_call (fst x) k" if "k \<noteq> []" for x k
    using that by (simp add: session_call_def stripped_def)
  ultimately show "filter (\<lambda>c. \<not> is_delete c) (plan confName rt (map stripped xs)) = filter (\<lambda>c. \<not> is_delete c) (plan confName rt xs)"
    "map is_delete (plan confName rt (map stripped xs)) = map is_delete (plan confName rt xs)"
    by (auto simp: plan_def Let_def filter_map2 case_prod_beta)
qed

lemma plan_survivors:
  "plan confName rt (survivors rt snd (filter (own confName) xs)) =
   filter (\<lambda>c. \<not> is_delete c) (plan confName rt xs)"
proof -
  define mine where "mine = filter (own confName) xs"
  define V where "V = verdicts rt (map snd mine)"
  have len: "length mine = length V" by (simp add: V_def)
  have S: "survivors rt snd mine = map fst (filter (\<lambda>(x, k). k \<noteq> []) (zip mine V))"
    by (simp add: survivors_def V_def)
  then have "set (survivors rt snd mine) \<subseteq> set mine" by (auto dest: set_zip_leftD)
  then have own: "filter (own confName) (survivors rt snd mine) = survivors rt snd mine"
    by (auto simp: mine_def filter_id_conv)
  have "plan confName rt (survivors rt snd mine) =
      map2 (\<lambda>x k. session_call (fst x) k) (survivors rt snd mine) (filter (\<lambda>k. k \<noteq> []) V)"
    by (simp add: plan_def Let_def own verdicts_survivors V_def)
  also have "\<dots> = map (\<lambda>(x, k). session_call (fst x) k) (filter (\<lambda>(x, k). k \<noteq> []) (zip mine V))"
    unfolding S by (rule map2_filter_zip [OF len])
  also have "\<dots> = filter (\<lambda>c. \<not> is_delete c) (map2 (\<lambda>x k. session_call (fst x) k) mine V)"
    by (simp add: filter_map2)
  also have "\<dots> = filter (\<lambda>c. \<not> is_delete c) (plan confName rt xs)"
    by (simp add: plan_def mine_def V_def Let_def)
  finally show ?thesis by (simp add: mine_def)
qed

text \<open>The survivors are the sessions that the pass did not delete.\<close>

lemma undeleted_survive:
  assumes "distinct (map fst xs)"
  shows "filter (own confName) (filter (\<lambda>x. DeleteCall (OBackupSession (fst x)) \<notin> set (plan confName rt xs)) xs) =
    survivors rt snd (filter (own confName) xs)"
proof -
  define mine where "mine = filter (own confName) xs"
  define V where "V = verdicts rt (map snd mine)"
  have len: "length mine = length V" by (simp add: V_def)
  have fst_inj: "x = y" if "x \<in> set mine" "y \<in> set mine" "fst x = fst y" for x y
    using assms that by (auto simp: mine_def distinct_map dest: inj_onD)
  have plan: "plan confName rt xs = map (\<lambda>(x, k). session_call (fst x) k) (zip mine V)"
    by (simp add: plan_def mine_def V_def Let_def)
  have dist: "distinct mine" using assms by (simp add: mine_def distinct_map)
  have gone: "DeleteCall (OBackupSession (fst x)) \<in> set (plan confName rt xs) \<longleftrightarrow> k = []" if "(x, k) \<in> set (zip mine V)" for x k
  proof -
    have x: "x \<in> set mine" using that by (rule set_zip_leftD)
    have same: "k' = k" if y: "(y, k') \<in> set (zip mine V)" "fst y = fst x" for y k'
    proof -
      have "y = x" by (rule fst_inj [OF set_zip_leftD [OF y(1)] x y(2)])
      moreover have "distinct (map fst (zip mine V))" using dist len by simp
      ultimately show ?thesis using y(1) \<open>(x, k) \<in> set (zip mine V)\<close> eq_key_imp_eq_value by fast
    qed
    show ?thesis
    proof
      assume "DeleteCall (OBackupSession (fst x)) \<in> set (plan confName rt xs)"
      then obtain y k' where y: "(y, k') \<in> set (zip mine V)" "DeleteCall (OBackupSession (fst x)) = session_call (fst y) k'"
        unfolding plan by auto
      then have "k' = []" "fst y = fst x" by (auto simp: session_call_def split: if_splits)
      with same [OF y(1)] show "k = []" by simp
    next
      assume k: "k = []"
      have "DeleteCall (OBackupSession (fst x)) = (\<lambda>(x, k). session_call (fst x) k) (x, k)"
        by (simp add: session_call_def k)
      with that show "DeleteCall (OBackupSession (fst x)) \<in> set (plan confName rt xs)"
        unfolding plan set_map by (rule image_eqI [rotated])
    qed
  qed
  have "filter (\<lambda>x. DeleteCall (OBackupSession (fst x)) \<notin> set (plan confName rt xs)) mine =
      filter (\<lambda>x. DeleteCall (OBackupSession (fst x)) \<notin> set (plan confName rt xs)) (map fst (zip mine V))"
    by (simp add: len)
  also have "\<dots> = map fst (filter (\<lambda>(x, k). k \<noteq> []) (zip mine V))"
    unfolding filter_map comp_def
    by (rule arg_cong [where f = "map fst"], rule filter_cong [OF refl]) (use gone in auto)
  finally show ?thesis
    by (simp add: survivors_def mine_def [symmetric] V_def [symmetric] filter_filter conj_commute)
      (simp add: mine_def filter_filter conj_commute)
qed

text \<open>Two lists sorted by different times are equal when they have the same elements.\<close>

lemma sorted_times_unique:
  fixes xs ys :: "(backup_session \<times> go_time) list"
  assumes "sorted_wrt (\<lambda>a b. Unix (snd a) \<ge> Unix (snd b)) xs" "sorted_wrt (\<lambda>a b. Unix (snd a) \<ge> Unix (snd b)) ys"
    and "mset xs = mset ys" and "distinct (map (\<lambda>x. Unix (snd x)) xs)"
  shows "xs = ys"
proof (rule map_sorted_distinct_set_unique)
  let ?f = "\<lambda>x :: backup_session \<times> go_time. - Unix (snd x)"
  have set: "set xs = set ys" using assms(3) by (rule mset_eq_setD)
  show "sorted (map ?f xs)" "sorted (map ?f ys)" using assms(1,2) by (simp_all add: sorted_map)
  have d: "distinct (map ?f xs)" using assms(4) by (simp add: distinct_map inj_on_def)
  have "mset (map ?f ys) = mset (map ?f xs)" using assms(3) by simp
  with d show "distinct (map ?f xs)" "distinct (map ?f ys)" by (simp, metis mset_eq_imp_distinct_iff)
  from d set show "inj_on ?f (set xs \<union> set ys)" "set xs = set ys" by (simp_all add: distinct_map)
qed

lemma map_fst_filter: "map fst (filter (\<lambda>x. P (fst x)) xs) = filter P (map fst xs)"
  by (simp add: filter_map comp_def)

lemma second_pass:
  assumes sort: "sort_law L" and ts: "those (map timed items) = Some ts" "those (map timed items') = Some ts'"
    and times: "distinct (map (Unix \<circ> snd) ts)"
    and left: "mset (map (\<lambda>s. with_keep s []) items') = mset (map (\<lambda>s. with_keep s [])
      (filter (\<lambda>s. DeleteCall (OBackupSession s) \<notin> set (plan confName rt (SortByStartDesc L ts))) items))"
  shows "plan confName rt (SortByStartDesc L ts') = filter (\<lambda>c. \<not> is_delete c) (plan confName rt (SortByStartDesc L ts))"
proof -
  define xs where "xs = SortByStartDesc L ts"
  define rest where "rest = filter (\<lambda>x. DeleteCall (OBackupSession (fst x)) \<notin> set (plan confName rt xs)) xs"
  let ?xs' = "SortByStartDesc L ts'"
  have perm: "mset xs = mset ts" "mset ?xs' = mset ts'"
    and sorted: "sorted_wrt (\<lambda>a b. Unix (snd a) \<ge> Unix (snd b)) xs" "sorted_wrt (\<lambda>a b. Unix (snd a) \<ge> Unix (snd b)) ?xs'"
    using sort by (simp_all add: sort_law_def xs_def)
  have timed: "map stripped us = map (\<lambda>s. (s, the (bst_StartTime (bs_Status s)))) (map (\<lambda>s. with_keep s []) (map fst us))"
    if "\<And>x. x \<in> set us \<Longrightarrow> bst_StartTime (bs_Status (fst x)) = Some (snd x)" for us
    using that by (simp add: stripped_def)
  have started: "bst_StartTime (bs_Status (fst x)) = Some (snd x)" if "x \<in> set xs \<or> x \<in> set ?xs'" for x
  proof -
    have "x \<in> set ts \<or> x \<in> set ts'" using that perm by (metis mset_eq_setD)
    then show ?thesis using timed_items(2) [OF ts(1), of "fst x" "snd x"] timed_items(2) [OF ts(2), of "fst x" "snd x"] by auto
  qed
  have "mset (map fst ?xs') = mset items'" using perm(2) timed_items(1) [OF ts(2)] by (metis mset_map)
  moreover have "mset (map fst xs) = mset items" using perm(1) timed_items(1) [OF ts(1)] by (metis mset_map)
  then have "mset (map fst rest) = mset (filter (\<lambda>s. DeleteCall (OBackupSession s) \<notin> set (plan confName rt xs)) items)"
    using map_fst_filter [of "\<lambda>s. DeleteCall (OBackupSession s) \<notin> set (plan confName rt xs)" xs]
    by (simp only: rest_def mset_filter)
  ultimately have "mset (map (\<lambda>s. with_keep s []) (map fst ?xs')) = mset (map (\<lambda>s. with_keep s []) (map fst rest))"
    using left by (simp only: mset_map [of "\<lambda>s. with_keep s []"] xs_def)
  moreover have "mset (map stripped us) = image_mset (\<lambda>s. (s, the (bst_StartTime (bs_Status s))))
      (mset (map (\<lambda>s. with_keep s []) (map fst us)))" if "us \<in> {?xs', rest}" for us
  proof -
    have "bst_StartTime (bs_Status (fst x)) = Some (snd x)" if "x \<in> set us" for x
      using started [of x] that \<open>us \<in> {?xs', rest}\<close> by (auto simp: rest_def)
    from timed [OF this] show ?thesis by (simp only: mset_map)
  qed
  ultimately have same: "mset (map stripped ?xs') = mset (map stripped rest)" by simp
  have distinct: "distinct (map (\<lambda>x. Unix (snd x)) xs)"
    using times perm(1) by (metis (no_types, lifting) comp_apply map_eq_conv mset_eq_imp_distinct_iff mset_map)
  have strip: "map stripped ?xs' = map stripped rest"
  proof (rule sorted_times_unique [symmetric, OF _ _ same [symmetric]])
    show "sorted_wrt (\<lambda>a b. Unix (snd a) \<ge> Unix (snd b)) (map stripped rest)"
      "sorted_wrt (\<lambda>a b. Unix (snd a) \<ge> Unix (snd b)) (map stripped ?xs')"
      using sorted by (simp_all add: sorted_wrt_map stripped_def rest_def sorted_wrt_filter)
    show "distinct (map (\<lambda>x. Unix (snd x)) (map stripped rest))"
      using distinct_map_filter [OF distinct] by (simp add: stripped_def comp_def rest_def)
  qed
  have "distinct (map fst xs)"
  proof -
    have "map (\<lambda>x. Unix (snd x)) xs = map (\<lambda>s. Unix (the (bst_StartTime (bs_Status s)))) (map fst xs)"
      using started by simp
    with distinct show ?thesis by (metis distinct_map)
  qed
  then have keep: "plan confName rt rest = filter (\<lambda>c. \<not> is_delete c) (plan confName rt xs)"
  proof -
    assume "distinct (map fst xs)"
    have "plan confName rt rest = plan confName rt (filter (own confName) rest)" by (simp add: plan_def)
    also have "filter (own confName) rest = survivors rt snd (filter (own confName) xs)"
      unfolding rest_def by (rule undeleted_survive) fact
    finally show ?thesis by (simp only: plan_survivors)
  qed
  have "map is_delete (plan confName rt ?xs') = map is_delete (plan confName rt rest)"
    using plan_stripped(2) [of confName rt ?xs'] plan_stripped(2) [of confName rt rest] strip by simp
  moreover have "True \<notin> set (map is_delete (plan confName rt rest))" by (auto simp: keep)
  ultimately have "True \<notin> set (map is_delete (plan confName rt ?xs'))" by metis
  then have "filter (\<lambda>c. \<not> is_delete c) (plan confName rt ?xs') = plan confName rt ?xs'"
    by (force simp: filter_id_conv image_iff)
  moreover have "filter (\<lambda>c. \<not> is_delete c) (plan confName rt ?xs') = filter (\<lambda>c. \<not> is_delete c) (plan confName rt rest)"
    using plan_stripped(1) [of confName rt ?xs'] plan_stripped(1) [of confName rt rest] strip by simp
  ultimately show ?thesis by (simp add: keep xs_def)
qed

lemma cleanup_log:
  assumes "api_ListBackupSessions A (om_Namespace (bc_Meta conf)) ''Success'' w = (Inr items, w1)"
  shows "log_of (cleanupSessions L (logged A) conf) w = ListCall (om_Namespace (bc_Meta conf)) ''Success'' #
    (if length items < 2 then [] else case those (map timed items) of None \<Rightarrow> []
     | Some ts \<Rightarrow> plan (om_Name (bc_Meta conf)) (new_retention (bcs_Keep (bc_Spec conf))) (SortByStartDesc L ts))"
  using cleanupSessions_run [of L A conf w "[]"] assms
  by (auto simp: log_of_def Let_def split: if_splits option.splits)

lemma cleanup_log_from:
  "snd (snd (cleanupSessions L (logged A) conf (w, l))) = l @ log_of (cleanupSessions L (logged A) conf) w"
proof -
  obtain v v' where run: "cleanupSessions L (logged A) conf (w, l) =
     (let ns = om_Namespace (bc_Meta conf); c = ListCall ns ''Success'' in
      case fst (api_ListBackupSessions A ns ''Success'' w) of
        Inl _ \<Rightarrow> (Ret (), (v, l @ [c]))
      | Inr items \<Rightarrow>
          if length items < 2 then (Ret (), (v, l @ [c]))
          else case those (map timed items) of
            None \<Rightarrow> (Panic, (v, l @ [c]))
          | Some ts \<Rightarrow> (Ret (), (v, l @ c # plan (om_Name (bc_Meta conf))
              (new_retention (bcs_Keep (bc_Spec conf))) (SortByStartDesc L ts))))"
    using cleanupSessions_run [of L A conf w l] by (elim exE)
  obtain x w1 where x: "api_ListBackupSessions A (om_Namespace (bc_Meta conf)) ''Success'' w = (x, w1)"
    by (cases "api_ListBackupSessions A (om_Namespace (bc_Meta conf)) ''Success'' w")
  show ?thesis
  proof (cases x)
    case (Inl e)
    with x run show ?thesis by (simp add: Let_def log_of_def cleanupSessions_def go_exec)
  next
    case (Inr items)
    with x show ?thesis
      unfolding run cleanup_log [OF x [unfolded Inr]] by (simp add: Let_def split: option.split)
  qed
qed

lemma cleanup_pass:
  assumes "c \<in> set (log_of (cleanupSessions L (logged A) conf) w)" and "is_write c"
  obtains items ts where "fst (api_ListBackupSessions A (om_Namespace (bc_Meta conf)) ''Success'' w) = Inr items"
    and "those (map timed items) = Some ts"
    and "log_of (cleanupSessions L (logged A) conf) w = ListCall (om_Namespace (bc_Meta conf)) ''Success'' #
      plan (om_Name (bc_Meta conf)) (new_retention (bcs_Keep (bc_Spec conf))) (SortByStartDesc L ts)"
proof -
  obtain x w1 where x: "api_ListBackupSessions A (om_Namespace (bc_Meta conf)) ''Success'' w = (x, w1)"
    by (cases "api_ListBackupSessions A (om_Namespace (bc_Meta conf)) ''Success'' w")
  show thesis
  proof (cases x)
    case (Inl e)
    with x have "log_of (cleanupSessions L (logged A) conf) w = [ListCall (om_Namespace (bc_Meta conf)) ''Success'']"
      by (simp add: log_of_def cleanupSessions_def go_exec)
    with assms show thesis by simp
  next
    case (Inr items)
    note log = cleanup_log [OF x [unfolded Inr], of L]
    show thesis
    proof (cases "length items < 2 \<or> those (map timed items) = None")
      case True
      with assms log show thesis by (auto split: if_splits)
    next
      case False
      then obtain ts where "those (map timed items) = Some ts" by auto
      with False log x Inr that show thesis by simp
    qed
  qed
qed

lemma plan_member:
  assumes "c \<in> set (plan confName rt xs)"
  obtains x k where "x \<in> set xs" "own confName x" "c = session_call (fst x) k"
proof -
  from assms obtain x k where "(x, k) \<in> set (zip (filter (own confName) xs) (verdicts rt (map snd (filter (own confName) xs))))"
    "c = session_call (fst x) k"
    unfolding plan_def Let_def by auto
  moreover from this(1) have "x \<in> set xs" "own confName x" by (auto dest!: set_zip_leftD)
  ultimately show thesis by (intro that)
qed

lemma plan_writes: "filter is_write (plan confName rt xs) = plan confName rt xs"
proof -
  have "is_write (session_call s k)" for s k by (simp add: session_call_def)
  then show ?thesis by (auto simp: filter_id_conv plan_def Let_def)
qed

subsection \<open>Properties\<close>

text \<open>
  C10: The effects of \<open>cleanupSessions\<close> are determined by the answer of its one list call: an error
  or fewer than two successful sessions end it with no write; a session without a start time
  panics before any write; otherwise the writes are exactly the planned ones, in order, whatever
  each of them answers, and the method returns normally.
\<close>

theorem cleanupSessions_refines_plan:
  "\<exists>w'. cleanupSessions L (logged A) conf (w, []) =
     (let ns = om_Namespace (bc_Meta conf); c = ListCall ns ''Success'' in
      case fst (api_ListBackupSessions A ns ''Success'' w) of
        Inl _ \<Rightarrow> (Ret (), (w', [c]))
      | Inr items \<Rightarrow>
          if length items < 2 then (Ret (), (w', [c]))
          else case those (map timed items) of
            None \<Rightarrow> (Panic, (w', [c]))
          | Some ts \<Rightarrow> (Ret (), (w', c # plan (om_Name (bc_Meta conf))
              (new_retention (bcs_Keep (bc_Spec conf))) (SortByStartDesc L ts))))"
  using cleanupSessions_run [of L A conf w "[]"] by (simp only: append_Nil)

text \<open>
  A pass decides every session of the configuration exactly once, in order: the i-th own
  session is deleted when no rule names it and otherwise only its \<open>Keep\<close> field is rewritten, to
  the names joined by commas. Sessions of other configurations are not touched.
\<close>

theorem plan_decides_own_sessions:
  "length (plan confName rt xs) = length (filter (own confName) xs) \<and>
   (\<forall>i < length (plan confName rt xs).
      let s = fst (filter (own confName) xs ! i);
          keep = verdicts rt (map snd (filter (own confName) xs)) ! i
      in plan confName rt xs ! i =
           (if keep = [] then DeleteCall (OBackupSession s)
            else StatusUpdateCall (OBackupSession
              (s\<lparr>bs_Status := (bs_Status s)\<lparr>bst_Keep := strings_Join keep '',''\<rparr>\<rparr>))) \<and>
         snd (bss_Ref (bs_Spec s)) = confName)"
proof -
  have own: "snd (bss_Ref (bs_Spec (fst (filter (own confName) xs ! i)))) = confName"
    if "i < length (filter (own confName) xs)" for i
    using nth_mem [OF that] by (simp add: own_def)
  then show ?thesis by (simp add: plan_def Let_def session_call_def with_keep_def)
qed

lemma sample_verdicts:
  "verdicts (new_retention (sample_policy 1 0)) [utc 1700000000, utc 1690000000] = [[''last''], []]"
  by (simp add: verdicts_def retention_step_def new_retention_def new_keep_def sample_policy_def
      keepLast_def keepDaily_def keepWeekly_def keepMonthly_def keepYearly_def)

lemma sample_items_own: "filter (own ''backup-demo'') sample_items = sample_items"
  by (simp add: own_def sample_simps)

lemma sample_times: "map snd sample_items = [utc 1700000000, utc 1690000000]"
  by (simp add: sample_items_def)

lemma sample_plan: "plan ''backup-demo'' (new_retention (sample_policy 1 0)) sample_items =
    [StatusUpdateCall (OBackupSession (with_keep sample_newer [''last''])),
     DeleteCall (OBackupSession sample_older)]"
  unfolding plan_def Let_def sample_items_own sample_times sample_verdicts
  by (simp add: sample_items_def session_call_def)

theorem plan_decides_own_sessions_witness:
  "1 < length (plan ''backup-demo'' (new_retention (sample_policy 1 0)) sample_items) \<and>
   plan ''backup-demo'' (new_retention (sample_policy 1 0)) sample_items ! 1 =
     DeleteCall (OBackupSession sample_older)"
  using plan_decides_own_sessions [of "''backup-demo''" "new_retention (sample_policy 1 0)" sample_items]
  by (auto simp: sample_items_own sample_times sample_verdicts sample_plan)

text \<open>
  C18: The newest backups are safe. If \<open>cleanupSessions\<close> asks for the deletion of a session, then it
  keeps, in the same pass, as many other listed sessions of the same configuration as
  \<open>Keep.Last\<close> asks for, none of them older than the deleted one.
\<close>

theorem cleanup_keeps_newest:
  assumes "sort_law L"
    and "api_ListBackupSessions A (om_Namespace (bc_Meta conf)) ''Success'' w = (Inr items, w1)"
    and "DeleteCall (OBackupSession s) \<in> set (log_of (cleanupSessions L (logged A) conf) w)"
  shows "\<exists>t newer. bst_StartTime (bs_Status s) = Some t \<and>
    length newer = nat (sint (kp_Last (bcs_Keep (bc_Spec conf)))) \<and>
    add_mset s (mset newer) \<subseteq># mset (filter (\<lambda>s. snd (bss_Ref (bs_Spec s)) = om_Name (bc_Meta conf)) items) \<and>
    (\<forall>s' \<in> set newer. \<exists>t' keep. bst_StartTime (bs_Status s') = Some t' \<and> Unix t \<le> Unix t' \<and> ''last'' \<in> set keep \<and>
       StatusUpdateCall (OBackupSession (with_keep s' keep)) \<in> set (log_of (cleanupSessions L (logged A) conf) w))"
proof -
  obtain ts where ts: "those (map timed items) = Some ts"
    and log: "log_of (cleanupSessions L (logged A) conf) w = ListCall (om_Namespace (bc_Meta conf)) ''Success'' #
      plan (om_Name (bc_Meta conf)) (new_retention (bcs_Keep (bc_Spec conf))) (SortByStartDesc L ts)"
    using cleanup_pass [OF assms(3)] assms(2) by (metis is_write.simps(5) fst_conv sum.inject(2))
  from pass_keeps_newest [OF assms(1) ts] assms(3) show ?thesis
    unfolding log by (simp add: session_of_def [abs_def])
qed

lemma sample_sort: "SortByStartDesc sample_lib (rev sample_items) = sample_items"
  by (simp add: sample_lib_def sample_items_def utc_def Unix_def)

text \<open>Two listed sessions, the older one first.\<close>

definition sample_listing :: "unit api" where
  "sample_listing = fixed_api (Inl NotFound) (Inl NotFound) [sample_older, sample_newer]"

lemma sample_log:
  "log_of (cleanupSessions sample_lib (logged sample_listing) (sample_conf [] (sample_policy 1 0))) () =
    [ListCall ''demo'' ''Success'', StatusUpdateCall (OBackupSession (with_keep sample_newer [''last''])),
     DeleteCall (OBackupSession sample_older)]"
proof -
  have "those (map timed [sample_older, sample_newer]) = Some (rev sample_items)"
    by (simp add: timed_def sample_simps)
  moreover have "om_Namespace (bc_Meta (sample_conf [] p)) = ''demo''" "om_Name (bc_Meta (sample_conf [] p)) = ''backup-demo''"
    "bcs_Keep (bc_Spec (sample_conf [] p)) = p" for p
    by (simp_all add: sample_conf_def named_meta_def)
  ultimately show ?thesis
    using cleanup_log [of sample_listing "sample_conf [] (sample_policy 1 0)" "()" "[sample_older, sample_newer]" "()" sample_lib]
    by (simp add: sample_listing_def sample_sort sample_plan)
qed

theorem cleanup_keeps_newest_witness:
  "\<exists>newer. length newer = Suc 0 \<and> add_mset sample_older (mset newer) \<subseteq># {#sample_older, sample_newer#} \<and>
    (\<forall>s' \<in> set newer. \<exists>t'. bst_StartTime (bs_Status s') = Some t' \<and> 1690000000 \<le> Unix t')"
proof -
  let ?conf = "sample_conf [] (sample_policy 1 0)"
  have list: "api_ListBackupSessions sample_listing (om_Namespace (bc_Meta ?conf)) ''Success'' () =
      (Inr [sample_older, sample_newer], ())"
    by (simp add: sample_listing_def)
  have "DeleteCall (OBackupSession sample_older) \<in> set (log_of (cleanupSessions sample_lib (logged sample_listing) ?conf) ())"
    by (simp add: sample_log)
  from cleanup_keeps_newest [OF sample_lib_sorts list this]
  obtain t newer where newer: "bst_StartTime (bs_Status sample_older) = Some t"
    "length newer = nat (sint (kp_Last (bcs_Keep (bc_Spec ?conf))))"
    "add_mset sample_older (mset newer) \<subseteq># mset (filter (\<lambda>s. snd (bss_Ref (bs_Spec s)) = om_Name (bc_Meta ?conf))
      [sample_older, sample_newer])"
    "\<forall>s' \<in> set newer. \<exists>t' keep. bst_StartTime (bs_Status s') = Some t' \<and> Unix t \<le> Unix t'" by blast
  moreover have "filter (\<lambda>s. snd (bss_Ref (bs_Spec s)) = om_Name (bc_Meta ?conf)) [sample_older, sample_newer] =
      [sample_older, sample_newer]"
    by (simp add: sample_simps named_meta_def)
  moreover have "Unix t = 1690000000" "sint (kp_Last (bcs_Keep (bc_Spec ?conf))) = 1"
    using newer(1) by (auto simp: sample_simps Unix_def)
  ultimately show ?thesis by (intro exI [of _ newer]) auto
qed

text \<open>
  C33: A pass is idempotent. Let \<open>cleanupSessions\<close> run twice with the same policy, over listed sessions
  with different start times, and let the second list be what the first pass left: the
  sessions that it did not delete, in any order and with any value of \<open>Keep\<close>. Then the second
  pass deletes nothing: it makes the status updates of the first one again, in the same order, or
  no write at all if fewer than two sessions are left.
\<close>

theorem cleanup_idempotent:
  assumes "sort_law L"
    and first: "api_ListBackupSessions A (om_Namespace (bc_Meta conf)) ''Success'' w = (Inr items, w1)"
    and second: "api_ListBackupSessions A (om_Namespace (bc_Meta conf)) ''Success'' v = (Inr items', v1)"
    and times: "\<forall>s \<in> set items. bst_StartTime (bs_Status s) \<noteq> None"
      "distinct (map (\<lambda>s. Unix (the (bst_StartTime (bs_Status s)))) items)"
    and left: "mset (map (\<lambda>s. with_keep s []) items') = mset (map (\<lambda>s. with_keep s [])
      (filter (\<lambda>s. DeleteCall (OBackupSession s) \<notin> set (log_of (cleanupSessions L (logged A) conf) w)) items))"
  shows "writes (log_of (cleanupSessions L (logged A) conf) v) = (if length items' < 2 then []
    else filter (\<lambda>c. \<not> is_delete c) (writes (log_of (cleanupSessions L (logged A) conf) w)))"
proof (cases "length items' < 2")
  case True
  then show ?thesis by (simp add: cleanup_log [OF second] writes_def)
next
  case False
  let ?n = "om_Name (bc_Meta conf)" and ?rt = "new_retention (bcs_Keep (bc_Spec conf))"
  have start: "those (map timed us) = Some (map (\<lambda>s. (s, the (bst_StartTime (bs_Status s)))) us)"
    if "\<forall>s \<in> set us. bst_StartTime (bs_Status s) \<noteq> None" for us
    using that by (induction us) (auto simp: timed_def)
  define ts where "ts = map (\<lambda>s. (s, the (bst_StartTime (bs_Status s)))) items"
  have ts: "those (map timed items) = Some ts" unfolding ts_def by (rule start [OF times(1)])
  have sub: "(\<lambda>s. with_keep s []) ` set items' \<subseteq> (\<lambda>s. with_keep s []) ` set items"
    using mset_eq_setD [OF left] by auto
  have "\<forall>s \<in> set items'. bst_StartTime (bs_Status s) \<noteq> None"
  proof
    fix s assume "s \<in> set items'"
    then obtain s0 where "s0 \<in> set items" "with_keep s [] = with_keep s0 []" using sub by blast
    then show "bst_StartTime (bs_Status s) \<noteq> None" using times(1) with_keep_simps(3) by metis
  qed
  then obtain ts' where ts': "those (map timed items') = Some ts'" using start by blast
  have "length items' \<le> length items"
    using arg_cong [OF left, of size] by (simp only: size_mset length_map length_filter_le)
  with False have "\<not> length items < 2" by simp
  then have log: "log_of (cleanupSessions L (logged A) conf) w =
      ListCall (om_Namespace (bc_Meta conf)) ''Success'' # plan ?n ?rt (SortByStartDesc L ts)"
    by (simp add: cleanup_log [OF first] ts)
  have log': "log_of (cleanupSessions L (logged A) conf) v =
      ListCall (om_Namespace (bc_Meta conf)) ''Success'' # plan ?n ?rt (SortByStartDesc L ts')"
    using False by (simp add: cleanup_log [OF second] ts')
  have again: "plan ?n ?rt (SortByStartDesc L ts') = filter (\<lambda>c. \<not> is_delete c) (plan ?n ?rt (SortByStartDesc L ts))"
    by (rule second_pass [OF assms(1) ts ts']) (use times(2) left log in \<open>simp_all add: ts_def comp_def\<close>)
  have only: "writes (ListCall ns v # plan n rt ys) = plan n rt ys" for ns v n rt ys
    by (simp add: writes_def plan_writes)
  show ?thesis unfolding log log' only unfolding again using False by simp
qed

text \<open>Three sessions of which two stay; the second pass finds them in another order.\<close>

definition sample_oldest :: backup_session where
  "sample_oldest = sample_session ''oldest'' Success 1680000000"

definition listing_api :: "backup_session list api" where
  "listing_api = (fixed_api (Inl NotFound) (Inl NotFound) [])\<lparr>api_ListBackupSessions := (\<lambda>_ _ w. (Inr w, w))\<rparr>"

lemma sample_conf_sel [simp]:
  "om_Namespace (bc_Meta (sample_conf tgs p)) = ''demo''" "om_Name (bc_Meta (sample_conf tgs p)) = ''backup-demo''"
  "bcs_Keep (bc_Spec (sample_conf tgs p)) = p"
  by (simp_all add: sample_conf_def named_meta_def)

lemma listing_api_list: "api_ListBackupSessions listing_api ns v w = (Inr w, w)"
  by (simp add: listing_api_def)

lemma sample_first_pass:
  "log_of (cleanupSessions sample_lib (logged listing_api) (sample_conf [] (sample_policy 2 0)))
     [sample_oldest, sample_older, sample_newer] =
   [ListCall ''demo'' ''Success'', StatusUpdateCall (OBackupSession (with_keep sample_newer [''last''])),
    StatusUpdateCall (OBackupSession (with_keep sample_older [''last''])), DeleteCall (OBackupSession sample_oldest)]"
proof -
  let ?ts = "[(sample_oldest, utc 1680000000), (sample_older, utc 1690000000), (sample_newer, utc 1700000000)]"
  have "those (map timed [sample_oldest, sample_older, sample_newer]) = Some ?ts"
    by (simp add: timed_def sample_oldest_def sample_simps)
  moreover have "SortByStartDesc sample_lib ?ts = rev ?ts" by (simp add: sample_lib_def utc_def Unix_def)
  moreover have "verdicts (new_retention (sample_policy 2 0)) [utc 1700000000, utc 1690000000, utc 1680000000] =
      [[''last''], [''last''], []]"
    by (simp add: verdicts_def retention_step_def new_retention_def new_keep_def sample_policy_def
        keepLast_def keepDaily_def keepWeekly_def keepMonthly_def keepYearly_def)
  moreover have "filter (own ''backup-demo'') (rev ?ts) = rev ?ts"
    by (simp add: own_def sample_oldest_def sample_simps)
  ultimately show ?thesis
    by (simp add: cleanup_log [OF listing_api_list] plan_def session_call_def)
qed

theorem cleanup_idempotent_witness:
  "writes (log_of (cleanupSessions sample_lib (logged listing_api) (sample_conf [] (sample_policy 2 0)))
     [with_keep sample_older [''last''], with_keep sample_newer [''last'']]) =
   [StatusUpdateCall (OBackupSession (with_keep sample_newer [''last''])),
    StatusUpdateCall (OBackupSession (with_keep sample_older [''last'']))]"
proof -
  have different: "sample_oldest \<noteq> sample_older" "sample_oldest \<noteq> sample_newer"
    by (simp_all add: sample_oldest_def sample_simps)
  have times: "bst_StartTime (bs_Status sample_oldest) = Some (utc 1680000000)"
    "bst_StartTime (bs_Status sample_older) = Some (utc 1690000000)"
    "bst_StartTime (bs_Status sample_newer) = Some (utc 1700000000)"
    by (simp_all add: sample_oldest_def sample_simps)
  show ?thesis
    by (subst cleanup_idempotent [OF sample_lib_sorts listing_api_list [of _ _ "[sample_oldest, sample_older, sample_newer]"]
          listing_api_list])
      (use different in \<open>auto simp: times sample_first_pass writes_def Unix_def utc_def\<close>)
qed

text \<open>
  A pass keeps at most as many sessions as the positive counters of the policy add up to;
  a negative counter counts as zero.
\<close>

theorem cleanup_keeps_at_most:
  "length (filter (\<lambda>c. \<not> is_delete c) (plan confName (new_retention p) xs)) \<le>
   nat (sint (kp_Last p)) + nat (sint (kp_Daily p)) + nat (sint (kp_Weekly p)) +
   nat (sint (kp_Monthly p)) + nat (sint (kp_Yearly p))"
proof -
  define mine where "mine = filter (own confName) xs"
  define V where "V = verdicts (new_retention p) (map snd mine)"
  have "filter (\<lambda>c. \<not> is_delete c) (plan confName (new_retention p) xs) =
      map (\<lambda>(x, k). session_call (fst x) k) (filter (\<lambda>(x, k). k \<noteq> []) (zip mine V))"
    by (simp add: plan_def Let_def mine_def V_def filter_map2)
  then have "length (filter (\<lambda>c. \<not> is_delete c) (plan confName (new_retention p) xs)) =
      length (filter (\<lambda>k. k \<noteq> []) V)"
    by (simp add: length_filter_zip V_def)
  also have "\<dots> \<le> budget_of (new_retention p)" unfolding V_def by (rule survivors_budget)
  finally show ?thesis by (simp add: budget_of_def new_retention_def new_keep_def)
qed

text \<open>The start times that a rule's name is written on, in the order of the pass.\<close>

definition kept_by :: "string \<Rightarrow> keep_policy \<Rightarrow> go_time list \<Rightarrow> go_time list" where
  "kept_by tag p ts = map fst (filter (\<lambda>(t, k). tag \<in> set k) (zip ts (verdicts (new_retention p) ts)))"

lemma kept_by_picked:
  "kept_by ''last'' p ts = picked keepLast (new_keep (kp_Last p)) ts"
  "kept_by ''daily'' p ts = picked keepDaily (new_keep (kp_Daily p)) ts"
  "kept_by ''weekly'' p ts = picked keepWeekly (new_keep (kp_Weekly p)) ts"
  "kept_by ''monthly'' p ts = picked keepMonthly (new_keep (kp_Monthly p)) ts"
  "kept_by ''yearly'' p ts = picked keepYearly (new_keep (kp_Yearly p)) ts"
  using tagged_times [OF verdicts_last [of "new_retention p" ts]]
    tagged_times [OF verdicts_daily [of "new_retention p" ts]]
    tagged_times [OF verdicts_weekly [of "new_retention p" ts]]
    tagged_times [OF verdicts_monthly [of "new_retention p" ts]]
    tagged_times [OF verdicts_yearly [of "new_retention p" ts]]
  by (simp_all add: kept_by_def new_retention_def)

lemma new_keep_sel [simp]: "kb_Counter (new_keep n) = n" "kb_Last (new_keep n) = zero_time"
  by (simp_all add: new_keep_def)

text \<open>
  C35: The daily rule keeps at most \<open>Keep.Daily\<close> sessions, neighbours on different days of the
  year, and as long as its counter is not used up it misses no day: every session falls on a day
  of the year that a kept session has, or on the first of January, the day of the zero time
  that the rule starts from.
\<close>

theorem daily_rule_covers_days:
  "length (kept_by ''daily'' p ts) \<le> nat (sint (kp_Daily p)) \<and>
   distinct_adj (1 # map YearDay (kept_by ''daily'' p ts)) \<and>
   (length (kept_by ''daily'' p ts) < nat (sint (kp_Daily p)) \<longrightarrow>
      (\<forall>t \<in> set ts. YearDay t \<in> insert 1 (YearDay ` set (kept_by ''daily'' p ts))))"
  using daily.budget [of "new_keep (kp_Daily p)" ts] daily.picked_spaced [of "new_keep (kp_Daily p)" ts]
    daily.picked_complete [of "new_keep (kp_Daily p)" ts]
  by (simp add: kept_by_picked)

theorem daily_rule_covers_days_witness:
  "YearDay ` set [utc 1700000000, utc 1690000000] \<subseteq>
     insert 1 (YearDay ` set (kept_by ''daily'' (sample_policy 0 7) [utc 1700000000, utc 1690000000]))"
proof -
  have kept: "kept_by ''daily'' (sample_policy 0 7) [utc 1700000000, utc 1690000000] =
      [utc 1700000000, utc 1690000000]"
    by (simp add: kept_by_picked picked_Cons keepDaily_def use_keep_def new_keep_def sample_policy_def
        calendar_defs utc_def zero_time_def)
  have "sint (kp_Daily (sample_policy 0 7)) = 7" by (simp add: sample_policy_def)
  with daily_rule_covers_days [of "sample_policy 0 7" "[utc 1700000000, utc 1690000000]"] show ?thesis
    by (simp only: kept) simp
qed

text \<open>
  The weekly, monthly and yearly rules keep sessions of Sundays, of first days of a month and
  of first days of a year only, neighbours on different days, in different months and in
  different years, each no more than its counter.
\<close>

theorem calendar_rules_keep_their_class:
  "set (kept_by ''weekly'' p ts) \<subseteq> {t \<in> set ts. Weekday t = 0} \<and>
   distinct_adj (1 # map YearDay (kept_by ''weekly'' p ts)) \<and>
   length (kept_by ''weekly'' p ts) \<le> nat (sint (kp_Weekly p)) \<and>
   set (kept_by ''monthly'' p ts) \<subseteq> {t \<in> set ts. Day t = 1} \<and>
   distinct_adj (1 # map Month (kept_by ''monthly'' p ts)) \<and>
   length (kept_by ''monthly'' p ts) \<le> nat (sint (kp_Monthly p)) \<and>
   set (kept_by ''yearly'' p ts) \<subseteq> {t \<in> set ts. Month t = 1 \<and> Day t = 1} \<and>
   distinct_adj (1 # map Year (kept_by ''yearly'' p ts)) \<and>
   length (kept_by ''yearly'' p ts) \<le> nat (sint (kp_Yearly p))"
  using weekly.budget [of "new_keep (kp_Weekly p)" ts] weekly.picked_spaced [of "new_keep (kp_Weekly p)" ts]
    monthly.budget [of "new_keep (kp_Monthly p)" ts] monthly.picked_spaced [of "new_keep (kp_Monthly p)" ts]
    yearly.budget [of "new_keep (kp_Yearly p)" ts] yearly.picked_spaced [of "new_keep (kp_Yearly p)" ts]
    set_picked [THEN subsetD]
  by (auto simp: kept_by_picked YearDay_1_first_of_January
      dest: weekly.picked_eligible monthly.picked_eligible yearly.picked_eligible)

text \<open>
  C34: No counter wraps around: after a pass each 32-bit counter holds its initial value less the
  sessions its rule kept, as integers.
\<close>

theorem counters_never_wrap:
  "let rt = mealy_state retention_step (new_retention p) ts in
   sint (kb_Counter (rt_last rt)) = sint (kp_Last p) - int (length (kept_by ''last'' p ts)) \<and>
   sint (kb_Counter (rt_daily rt)) = sint (kp_Daily p) - int (length (kept_by ''daily'' p ts)) \<and>
   sint (kb_Counter (rt_weekly rt)) = sint (kp_Weekly p) - int (length (kept_by ''weekly'' p ts)) \<and>
   sint (kb_Counter (rt_monthly rt)) = sint (kp_Monthly p) - int (length (kept_by ''monthly'' p ts)) \<and>
   sint (kb_Counter (rt_yearly rt)) = sint (kp_Yearly p) - int (length (kept_by ''yearly'' p ts))"
  by (simp add: Let_def final_rules kept_by_picked new_retention_def last_rule.counter_exact
      daily.counter_exact weekly.counter_exact monthly.counter_exact yearly.counter_exact)

text \<open>
  The zero time makes the first of January invisible to three rules: when the newest session
  of a configuration started on the first day of a year, neither the daily, the weekly nor the
  monthly rule keeps it, whatever the policy.
\<close>

theorem january_first_not_kept:
  assumes "YearDay t = 1"
  shows "set (verdicts (new_retention p) (t # ts) ! 0) \<subseteq> {''last'', ''yearly''}"
  using assms YearDay_1_first_of_January [of t]
  by (auto simp: verdicts_def step_split new_retention_def keepDaily_def keepWeekly_def keepMonthly_def)

text \<open>Noon UTC of 1 January 2024 and of the day before, under a policy of seven daily backups.\<close>

definition new_year_items :: "(backup_session \<times> go_time) list" where
  "new_year_items = [(sample_session ''newer'' Success 1704110400, utc 1704110400),
     (sample_session ''older'' Success 1704024000, utc 1704024000)]"

theorem january_first_not_kept_witness:
  "plan ''backup-demo'' (new_retention (sample_policy 0 7)) new_year_items ! 0 =
     DeleteCall (OBackupSession (sample_session ''newer'' Success 1704110400))"
proof -
  let ?ts = "[utc 1704110400, utc 1704024000]"
  have own: "filter (own ''backup-demo'') new_year_items = new_year_items" "map snd new_year_items = ?ts"
    by (simp_all add: new_year_items_def own_def sample_session_def)
  have "YearDay (utc 1704110400) = 1" by (simp add: calendar_defs utc_def)
  then have "set (verdicts (new_retention (sample_policy 0 7)) ?ts ! 0) \<subseteq> {''last'', ''yearly''}"
    by (rule january_first_not_kept)
  moreover have "''last'' \<notin> set (verdicts (new_retention (sample_policy 0 7)) ?ts ! 0)"
    by (simp add: verdicts_last_nth new_retention_def sample_policy_def)
  moreover have "''yearly'' \<notin> set (verdicts (new_retention (sample_policy 0 7)) ?ts ! 0)"
    by (simp add: verdicts_def step_split keepYearly_def new_retention_def sample_policy_def)
  ultimately have "verdicts (new_retention (sample_policy 0 7)) ?ts ! 0 = []"
    by (cases "verdicts (new_retention (sample_policy 0 7)) ?ts ! 0") auto
  then show ?thesis
    by (simp add: plan_def own session_call_def) (simp add: new_year_items_def)
qed

end
