(* ===== verification/BackupSession.thy ===== *)
theory BackupSession
  imports SessionMachine Retention
begin

section \<open>The BackupSession controller (controllers/backupsession_controller.go)\<close>

text \<open>
  \<open>Reconcile\<close> of the backup session controller with \<open>deleteSnapshots\<close> of its helper file: the
  reads, the deletion branch, the finalizer, the switch over the session's state and the status
  update. Theory SessionMachine is its abstract specification: the locale \<open>session_controller\<close>
  says what a switch has to do to implement the machine, and its interpretation here discharges
  that for this controller.
\<close>

subsection \<open>Deleting the snapshots\<close>

definition JOBTTL :: int where
  "JOBTTL = 7200"

definition snapshot_container :: "backup_configuration \<Rightarrow> target_status \<Rightarrow> container" where
  "snapshot_container conf t = \<lparr>ct_Name = ts_TargetName t, ct_Image = bcs_Image (bc_Spec conf),
     ct_Args = [''snapshot'', ''delete'', ''--namespace'', om_Namespace (bc_Meta conf), ''--name'',
       om_Name (bc_Meta conf), ''--snapshot-id'', ts_SnapshotId t],
     ct_Env = [], ct_VolumeMounts = [], ct_Privileged = None\<rparr>"

definition snapshot_containers :: "backup_session \<Rightarrow> backup_configuration \<Rightarrow> container list" where
  "snapshot_containers s conf =
     map (snapshot_container conf) (filter (\<lambda>t. ts_SnapshotId t \<noteq> '''') (bst_Targets (bs_Status s)))"

text \<open>
  The deletions are sequential: the first container is the job's only regular one, the others
  are init containers, which run one after the other before it. Only called with a container.
\<close>

definition snapshot_job :: "backup_session \<Rightarrow> container list \<Rightarrow> job" where
  "snapshot_job s snapshots = \<lparr>
     jb_Meta = \<lparr>om_Namespace = om_Namespace (bs_Meta s), om_Name = '''',
       om_GenerateName = ''delete-'' @ om_Name (bs_Meta s) @ ''-'', om_Finalizers = [],
       om_DeletionTimestamp = None\<rparr>,
     jb_TTLSecondsAfterFinished = Some JOBTTL,
     jb_PodSpec = \<lparr>ps_Containers = [hd snapshots], ps_InitContainers = tl snapshots,
       ps_Volumes = [], ps_RestartPolicy = ''OnFailure'', ps_ServiceAccountName = '''',
       ps_ShareProcessNamespace = None\<rparr>\<rparr>"

definition deleteSnapshots :: "'w api \<Rightarrow> backup_session \<Rightarrow> backup_configuration \<Rightarrow> ('w, unit) go" where
  "deleteSnapshots A s conf =
     (let snapshots = snapshot_containers s conf in
      if length snapshots > 0 then call (api_Create A (OJob (snapshot_job s snapshots))) else ret ())"

subsection \<open>Reconcile\<close>

definition finalizerName :: string where
  "finalizerName = ''finalizer.backupsession.formol.desmojim.fr''"

definition with_targets :: "target_status list \<Rightarrow> backup_session \<Rightarrow> backup_session" where
  "with_targets tss s = s\<lparr>bs_Status := (bs_Status s)\<lparr>bst_Targets := tss\<rparr>\<rparr>"

definition with_state :: "session_state \<Rightarrow> backup_session \<Rightarrow> backup_session" where
  "with_state st s = s\<lparr>bs_Status := (bs_Status s)\<lparr>bst_SessionState := st\<rparr>\<rparr>"

text \<open>
  The switch over the session's state: the value of \<open>newSessionState\<close> with the session object as
  the cases leave it, or \<open>None\<close> for the early return that asks to be called again.
\<close>

definition backupSessionSwitch :: "lib \<Rightarrow> 'w api \<Rightarrow> (nat \<Rightarrow> go_time) \<Rightarrow> backup_configuration \<Rightarrow>
    backup_session \<Rightarrow> ('w, (session_state \<times> backup_session) option) go" where
  "backupSessionSwitch L A now conf s =
    (let tss = bst_Targets (bs_Status s) in
     case bst_SessionState (bs_Status s) of
       New \<Rightarrow> bind_go (isBackupOngoing A conf) (\<lambda>ongoing.
          if ongoing then ret None
          else ret (Some (Initializing, with_targets (initSession now conf) s)))
     | Initializing \<Rightarrow> bind_go (of_option (checkInitialized (now 0) tss conf))
          (\<lambda>(r, tss'). ret (Some (r, with_targets tss' s)))
     | Running \<Rightarrow> bind_go (of_option (checkWaiting (now 0) tss conf))
          (\<lambda>(r, tss'). ret (Some (r, with_targets tss' s)))
     | Finalize \<Rightarrow> bind_go (of_option (checkSuccess (now 0) tss conf))
          (\<lambda>(r, tss'). ret (Some (if r = Failure then Success else r, with_targets tss' s)))
     | Success \<Rightarrow> bind_go (cleanupSessions L A conf) (\<lambda>_. ret (Some (Unset, s)))
     | Failure \<Rightarrow> ret (Some (Unset, s))
     | _ \<Rightarrow> ret (Some (New, s\<lparr>bs_Status := (bs_Status s)\<lparr>bst_StartTime := Some (now 0)\<rparr>\<rparr>)))"

text \<open>The deletion branch: \<open>Some\<close> is its early return, \<open>None\<close> falls through.\<close>

definition backupSessionDeletion :: "lib \<Rightarrow> 'w api \<Rightarrow> backup_configuration \<Rightarrow> backup_session \<Rightarrow>
    ('w, result option) go" where
  "backupSessionDeletion L A conf s =
    (if \<not> ptr_IsZero (om_DeletionTimestamp (bs_Meta s)) then
       bind_go (ignore_err (deleteSnapshots A s conf)) (\<lambda>_.
         if ContainsFinalizer L (om_Finalizers (bs_Meta s)) finalizerName then
           bind_go (call (api_Update A (OBackupSession (s\<lparr>bs_Meta := (bs_Meta s)\<lparr>om_Finalizers :=
               RemoveFinalizer L (om_Finalizers (bs_Meta s)) finalizerName\<rparr>\<rparr>))))
             (\<lambda>_. ret (Some no_requeue))
         else ret None)
     else ret None)"

text \<open>What follows it: the finalizer, the switch and the status update.\<close>

definition backupSessionAdvance :: "lib \<Rightarrow> 'w api \<Rightarrow> (nat \<Rightarrow> go_time) \<Rightarrow> backup_configuration \<Rightarrow>
    backup_session \<Rightarrow> ('w, result) go" where
  "backupSessionAdvance L A now conf s =
    (if \<not> ContainsFinalizer L (om_Finalizers (bs_Meta s)) finalizerName then
       bind_go (call (api_Update A (OBackupSession (s\<lparr>bs_Meta := (bs_Meta s)\<lparr>om_Finalizers :=
           AddFinalizer L (om_Finalizers (bs_Meta s)) finalizerName\<rparr>\<rparr>))))
         (\<lambda>_. ret no_requeue)
     else
       bind_go (backupSessionSwitch L A now conf s) (\<lambda>r. case r of
         None \<Rightarrow> ret \<lparr>RequeueAfter = 30\<rparr>
       | Some (newSessionState, s') \<Rightarrow>
           if newSessionState \<noteq> Unset then
             bind_go (call (api_StatusUpdate A (OBackupSession (with_state newSessionState s'))))
               (\<lambda>_. ret no_requeue)
           else ret no_requeue))"

definition reconcileBackupSession :: "lib \<Rightarrow> 'w api \<Rightarrow> (nat \<Rightarrow> go_time) \<Rightarrow> object_key \<Rightarrow> ('w, result) go" where
  "reconcileBackupSession L A now req =
     bind_go (try_go (call (api_BackupSession A req))) (\<lambda>got. case got of
       Inl e \<Rightarrow> if IsNotFound e then ret no_requeue else fail e
     | Inr s \<Rightarrow>
         bind_go (call (api_BackupConfiguration A (bss_Ref (bs_Spec s)))) (\<lambda>conf.
           bind_go (backupSessionDeletion L A conf s) (\<lambda>done. case done of
             Some r \<Rightarrow> ret r
           | None \<Rightarrow> backupSessionAdvance L A now conf s)))"

subsection \<open>The controller implements the machine\<close>

definition bs_machine :: "backup_session \<Rightarrow> machine" where
  "bs_machine s = \<lparr>mc_State = bst_SessionState (bs_Status s), mc_Targets = bst_Targets (bs_Status s)\<rparr>"

lemma cleanupSessions_returns:
  fixes A :: "'w api"
  shows "cleanupSessions L A conf w = (r, w') \<Longrightarrow> r = Ret () \<or> r = Panic"
proof -
  have loop: "fst (cleanupLoop A n rt xs w) \<noteq> Fail e" for n rt xs e w
  proof (induction xs arbitrary: rt w)
    case (Cons x xs)
    have "fst (bind_go (ignore_err m) (\<lambda>_. cleanupLoop A n rt' xs) w) \<noteq> Fail e"
      for m :: "('w, unit) go" and rt' w
    proof -
      obtain r w1 where m: "ignore_err m w = (r, w1)" by (cases "ignore_err m w")
      then have "r \<noteq> Fail e" for e using ignore_err_never_fails by metis
      with m Cons.IH show ?thesis by (cases r) (auto simp: go_run)
    qed
    with Cons.IH show ?case by (cases x) (auto simp: Let_def split: prod.split)
  qed (simp add: go_run)
  have "fst (cleanupSessions L A conf w) \<noteq> Fail e" for e w
    using loop by (auto simp: cleanupSessions_def go_exec split: prod.splits sum.splits option.splits)
  then show "cleanupSessions L A conf w = (r, w') \<Longrightarrow> r = Ret () \<or> r = Panic"
    by (cases r) (auto, metis fst_conv)
qed

interpretation backup_session: session_controller bs_machine with_targets "backupSessionSwitch L" for L
proof unfold_locales
  fix s :: backup_session and A :: "'w api" and now conf
  assume "mc_State (bs_machine s) = New"
  then show "backupSessionSwitch L A now conf s = bind_go (isBackupOngoing A conf)
      (\<lambda>b. ret (if b then None else Some (Initializing, with_targets (initSession now conf) s)))"
    by (simp add: bs_machine_def backupSessionSwitch_def if_distrib [of ret])
next
  fix s :: backup_session and A :: "'w api" and now conf
  assume "mc_State (bs_machine s) \<in> {Initializing, Running, Finalize}"
  then show "backupSessionSwitch L A now conf s =
      bind_go (of_option (advance (mc_State (bs_machine s)) (now 0) (mc_Targets (bs_machine s)) conf))
        (\<lambda>(r, tss). ret (Some (r, with_targets tss s)))"
    by (auto simp: bs_machine_def backupSessionSwitch_def of_option_def split: option.split)
next
  fix s :: backup_session and A :: "'w api" and now conf x and w w' :: 'w
  assume "mc_State (bs_machine s) \<in> {Success, Failure}"
    and "backupSessionSwitch L A now conf s w = (Ret x, w')"
  then show "x = Some (Unset, s)"
    by (auto simp: bs_machine_def backupSessionSwitch_def go_exec split: prod.splits go_result.splits)
qed (auto simp: bs_machine_def with_targets_def backupSessionSwitch_def)

subsection \<open>Concrete sessions\<close>

text \<open>A session of \<open>one_conf\<close> with the finalizer, in a given state with one target.\<close>

definition one_session :: "session_state \<Rightarrow> session_state \<Rightarrow> string \<Rightarrow> backup_session" where
  "one_session st s snap = \<lparr>bs_Meta = (named_meta ''demo'' ''run'')\<lparr>om_Finalizers := [finalizerName]\<rparr>,
     bs_Spec = \<lparr>bss_Ref = (''demo'', ''backup-demo'')\<rparr>,
     bs_Status = \<lparr>bst_SessionState = st, bst_StartTime = Some (utc 0),
       bst_Targets = [(sample_status s)\<lparr>ts_SnapshotId := snap\<rparr>], bst_Keep = ''''\<rparr>\<rparr>"

definition deleted_session :: "session_state \<Rightarrow> string \<Rightarrow> backup_session" where
  "deleted_session s snap = (one_session Success s snap)\<lparr>bs_Meta :=
     (bs_Meta (one_session Success s snap))\<lparr>om_DeletionTimestamp := Some (utc 5)\<rparr>\<rparr>"

text \<open>A session that is not deleted and has the controller's finalizer.\<close>

definition tracked :: "lib \<Rightarrow> backup_session \<Rightarrow> bool" where
  "tracked L s \<longleftrightarrow> ptr_IsZero (om_DeletionTimestamp (bs_Meta s)) \<and>
     ContainsFinalizer L (om_Finalizers (bs_Meta s)) finalizerName"

lemma tracked_one_session: "tracked sample_lib (one_session st s snap)"
  by (simp add: tracked_def one_session_def named_meta_def ptr_IsZero_def sample_lib_def)

lemmas one_session_simps = one_session_def named_meta_def bs_machine_def

subsection \<open>Properties\<close>

text \<open>The reads and the guards passed: what is left of a reconciliation of a tracked session.\<close>

lemma reconcile_tracked:
  assumes "api_BackupSession A req w = (Inr s, w1)"
    and "api_BackupConfiguration A (bss_Ref (bs_Spec s)) w1 = (Inr conf, w2)" and "tracked L s"
  shows "reconcileBackupSession L (logged A) now req (w, []) =
    bind_go (backupSessionSwitch L (logged A) now conf s) (\<lambda>r. case r of
         None \<Rightarrow> ret \<lparr>RequeueAfter = 30\<rparr>
       | Some (newSessionState, s') \<Rightarrow>
           if newSessionState \<noteq> Unset then
             bind_go (call (api_StatusUpdate (logged A) (OBackupSession (with_state newSessionState s'))))
               (\<lambda>_. ret no_requeue)
           else ret no_requeue)
      (w2, [GetCall RBackupSession req, GetCall RBackupConfiguration (bss_Ref (bs_Spec s))])"
  using assms
  by (simp add: reconcileBackupSession_def bind_go_run try_go_run call_log_call backupSessionDeletion_def
      backupSessionAdvance_def tracked_def)

text \<open>
  what one reconciliation of a session being initialized, backed up or finalized does. It
  reads the session and its configuration, runs the check of the session's phase, and if that
  yields a state writes the session's status exactly once, with that state and the targets as the
  check leaves them, changing nothing else. If the check panics nothing is written.
\<close>

theorem reconcile_checks_and_writes_once:
  assumes "api_BackupSession A req w = (Inr s, w1)"
    and "api_BackupConfiguration A (bss_Ref (bs_Spec s)) w1 = (Inr conf, w2)" and "tracked L s"
    and "bst_SessionState (bs_Status s) \<in> {Initializing, Running, Finalize}"
  shows "log_of (reconcileBackupSession L (logged A) now req) w =
    [GetCall RBackupSession req, GetCall RBackupConfiguration (bss_Ref (bs_Spec s))] @
    (case advance (bst_SessionState (bs_Status s)) (now 0) (bst_Targets (bs_Status s)) conf of
       None \<Rightarrow> []
     | Some (r, tss) \<Rightarrow> if r = Unset then []
         else [StatusUpdateCall (OBackupSession (s\<lparr>bs_Status :=
           (bs_Status s)\<lparr>bst_SessionState := r, bst_Targets := tss\<rparr>\<rparr>))])"
proof -
  have st: "mc_State (bs_machine s) \<in> {Initializing, Running, Finalize}"
    using assms(4) by (simp add: bs_machine_def)
  have sw: "backupSessionSwitch L (logged A) now conf s =
      bind_go (of_option (advance (bst_SessionState (bs_Status s)) (now 0) (bst_Targets (bs_Status s)) conf))
        (\<lambda>(r, tss). ret (Some (r, with_targets tss s)))"
    using backup_session.switch_check [OF st, of L "logged A" now conf] by (simp add: bs_machine_def)
  have upd: "with_state r (with_targets tss s) = s\<lparr>bs_Status :=
      (bs_Status s)\<lparr>bst_SessionState := r, bst_Targets := tss\<rparr>\<rparr>" for r tss
    by (simp add: with_state_def with_targets_def)
  show ?thesis
  proof (cases "advance (bst_SessionState (bs_Status s)) (now 0) (bst_Targets (bs_Status s)) conf")
    case None
    then show ?thesis
      by (simp add: log_of_def reconcile_tracked [OF assms(1-3)] sw go_run of_option_def)
  next
    case (Some x)
    then obtain r tss where "advance (bst_SessionState (bs_Status s)) (now 0) (bst_Targets (bs_Status s)) conf = Some (r, tss)"
      by (cases x) simp
    then show ?thesis
      by (simp add: log_of_def reconcile_tracked [OF assms(1-3)] sw of_option_def upd)
        (auto simp: go_exec split: prod.splits sum.splits)
  qed
qed

theorem reconcile_checks_and_writes_once_witness:
  "log_of (reconcileBackupSession sample_lib
      (logged (fixed_api (Inr (one_session Running Waiting ''s1'')) (Inr one_conf) [])) (\<lambda>_. utc 9)
      (''demo'', ''run'')) () =
    [GetCall RBackupSession (''demo'', ''run''), GetCall RBackupConfiguration (''demo'', ''backup-demo''),
     StatusUpdateCall (OBackupSession (one_session Finalize Waiting ''s1''))]"
  using reconcile_checks_and_writes_once [of "fixed_api (Inr (one_session Running Waiting ''s1'')) (Inr one_conf) []"
      "(''demo'', ''run'')" "()" "one_session Running Waiting ''s1''" "()" one_conf "()" sample_lib "\<lambda>_. utc 9"]
  by (simp add: tracked_one_session) (simp add: one_session_def one_simps)

text \<open>A status is written only by the switch, so for a session that is tracked.\<close>

lemma untracked_no_status:
  assumes "api_BackupSession A req w = (Inr s, w1)"
    and "api_BackupConfiguration A (bss_Ref (bs_Spec s)) w1 = (Inr conf, w2)" and "\<not> tracked L s"
  shows "StatusUpdateCall x \<notin> set (log_of (reconcileBackupSession L (logged A) now req) w)"
proof -
  let ?P = "\<lambda>c. c \<noteq> StatusUpdateCall x"
  let ?has = "ContainsFinalizer L (om_Finalizers (bs_Meta s)) finalizerName"
  let ?rest = "bind_go (backupSessionDeletion L (logged A) conf s)
    (\<lambda>done. case done of Some r \<Rightarrow> ret r | None \<Rightarrow> backupSessionAdvance L (logged A) now conf s)"
  have "emits ?P ?rest (\<lambda>_. True)"
  proof (rule emits_bind [where R = "\<lambda>done. done = None \<longrightarrow> \<not> ?has"])
    show "emits ?P (backupSessionDeletion L (logged A) conf s) (\<lambda>done. done = None \<longrightarrow> \<not> ?has)"
      using assms(3) unfolding backupSessionDeletion_def deleteSnapshots_def Let_def logged_sel
      by (intro emits_intros) (simp_all add: tracked_def)
  next
    fix r :: "result option" assume r: "r = None \<longrightarrow> \<not> ?has"
    show "emits ?P (case r of Some r \<Rightarrow> ret r | None \<Rightarrow> backupSessionAdvance L (logged A) now conf s) (\<lambda>_. True)"
      using r by (cases r) (auto simp: backupSessionAdvance_def intro!: emits_intros)
  qed
  from emitsD [OF this] obtain r w3 l3 where
    "?rest (w2, [GetCall RBackupSession req, GetCall RBackupConfiguration (bss_Ref (bs_Spec s))]) =
      (r, (w3, [GetCall RBackupSession req, GetCall RBackupConfiguration (bss_Ref (bs_Spec s))] @ l3))"
    "list_all ?P l3" by blast
  with assms(1,2) show ?thesis
    by (auto simp: log_of_def reconcileBackupSession_def bind_go_run try_go_run call_log_call list_all_iff)
qed

text \<open>In the states of the machine the switch makes one write, of the session itself.\<close>

definition machine_states :: "session_state set" where
  "machine_states = {Unset, New, Initializing, Running, Finalize, Failure}"

lemma switch_same_object:
  assumes "backupSessionSwitch L A now conf s w = (Ret (Some (n, s')), w')"
  shows "bs_Meta s' = bs_Meta s \<and> bs_Spec s' = bs_Spec s"
  using assms
  by (cases "bst_SessionState (bs_Status s)")
    (auto simp: backupSessionSwitch_def with_targets_def go_exec split: prod.splits go_result.splits if_splits option.splits)

lemma switch_write_is_step:
  assumes "api_BackupSession A req w = (Inr s, w1)"
    and "api_BackupConfiguration A (bss_Ref (bs_Spec s)) w1 = (Inr conf, w2)" and "tracked L s"
    and st: "bst_SessionState (bs_Status s) \<in> machine_states"
    and wr: "StatusUpdateCall (OBackupSession s') \<in> set (log_of (reconcileBackupSession L (logged A) now req) w)"
  shows "controller_step conf (bs_machine s) (bs_machine s') \<and> bs_Meta s' = bs_Meta s \<and> bs_Spec s' = bs_Spec s"
proof -
  let ?l = "[GetCall RBackupSession req, GetCall RBackupConfiguration (bss_Ref (bs_Spec s))]"
  define m where "m = backupSessionSwitch L (logged A) now conf s"
  have silent: "emits (\<lambda>c. \<not> is_write c) m (\<lambda>_. True)"
    unfolding m_def backupSessionSwitch_def isBackupOngoing_def Let_def
    using st by (auto simp: machine_states_def intro!: emits_intros split: session_state.split)
  obtain r w3 l3 where run: "m (w2, ?l) = (r, (w3, ?l @ l3))" "list_all (\<lambda>c. \<not> is_write c) l3"
    using emitsD [OF silent] by blast
  have nowrite: "StatusUpdateCall x \<notin> set l3" for x
    using run(2) by (auto simp: list_all_iff)
  obtain n s2 where r: "r = Ret (Some (n, s2))" "n \<noteq> Unset" "s' = with_state n s2"
    using wr nowrite run
    by (cases r) (auto simp: log_of_def reconcile_tracked [OF assms(1-3)] m_def [symmetric] bind_go_def
        call_def log_call_def ret_def split: option.splits prod.splits if_splits sum.splits)
  have "mc_State (bs_machine s) \<in> {Unset, New, Initializing, Running, Finalize, Success, Failure}"
    using st by (auto simp: bs_machine_def machine_states_def)
  with backup_session.switch_step [OF run(1) [unfolded m_def r(1)] r(2)] r(3)
    switch_same_object [OF run(1) [unfolded m_def r(1)]] show ?thesis
    by (simp add: bs_machine_def with_state_def)
qed

text \<open>In a state that the machine never gives a session the switch starts it again.\<close>

lemma switch_default:
  assumes "bst_SessionState (bs_Status s) \<notin> insert Success machine_states"
  shows "backupSessionSwitch L A now conf s =
    ret (Some (New, s\<lparr>bs_Status := (bs_Status s)\<lparr>bst_StartTime := Some (now 0)\<rparr>\<rparr>))"
  using assms by (cases "bst_SessionState (bs_Status s)") (auto simp: backupSessionSwitch_def machine_states_def)

lemma default_writes:
  assumes "api_BackupSession A req w = (Inr s, w1)"
    and "api_BackupConfiguration A (bss_Ref (bs_Spec s)) w1 = (Inr conf, w2)" and "tracked L s"
    and "bst_SessionState (bs_Status s) \<notin> insert Success machine_states"
    and "StatusUpdateCall (OBackupSession s') \<in> set (log_of (reconcileBackupSession L (logged A) now req) w)"
  shows "s' = s\<lparr>bs_Status := (bs_Status s)\<lparr>bst_SessionState := New, bst_StartTime := Some (now 0)\<rparr>\<rparr>"
  using assms(5)
  by (auto simp: log_of_def reconcile_tracked [OF assms(1-3)] switch_default [OF assms(4)] with_state_def
      bind_go_def call_def log_call_def ret_def split: prod.splits sum.splits)

lemma retention_writes:
  assumes "api_BackupSession A req w = (Inr s, w1)"
    and "api_BackupConfiguration A (bss_Ref (bs_Spec s)) w1 = (Inr conf, w2)" and "tracked L s"
    and "bst_SessionState (bs_Status s) = Success" and sort: "sort_law L"
    and wr: "StatusUpdateCall (OBackupSession s') \<in> set (log_of (reconcileBackupSession L (logged A) now req) w)"
  shows "\<exists>items s0 keep. fst (api_ListBackupSessions A (om_Namespace (bc_Meta conf)) ''Success'' w2) = Inr items \<and>
    s0 \<in> set items \<and> s' = with_keep s0 keep"
proof -
  let ?l = "[GetCall RBackupSession req, GetCall RBackupConfiguration (bss_Ref (bs_Spec s))]"
  let ?n = "om_Name (bc_Meta conf)" and ?rt = "new_retention (bcs_Keep (bc_Spec conf))"
  have "snd (reconcileBackupSession L (logged A) now req (w, [])) = snd (cleanupSessions L (logged A) conf (w2, ?l))"
    using assms(4) by (simp add: reconcile_tracked [OF assms(1-3)] backupSessionSwitch_def bind_assoc)
      (simp add: bind_go_def ret_def split: prod.split go_result.split)
  with wr have "StatusUpdateCall (OBackupSession s') \<in> set (snd (snd (cleanupSessions L (logged A) conf (w2, ?l))))"
    by (simp add: log_of_def)
  then have write_log: "StatusUpdateCall (OBackupSession s') \<in> set (log_of (cleanupSessions L (logged A) conf) w2)"
    by (simp add: cleanup_log_from)
  then obtain items ts where items: "fst (api_ListBackupSessions A (om_Namespace (bc_Meta conf)) ''Success'' w2) = Inr items"
    "those (map timed items) = Some ts" "log_of (cleanupSessions L (logged A) conf) w2 =
      ListCall (om_Namespace (bc_Meta conf)) ''Success'' # plan ?n ?rt (SortByStartDesc L ts)"
    by (rule cleanup_pass) simp
  with write_log have "StatusUpdateCall (OBackupSession s') \<in> set (plan ?n ?rt (SortByStartDesc L ts))" by simp
  then obtain x k where "x \<in> set (SortByStartDesc L ts)" "StatusUpdateCall (OBackupSession s') = session_call (fst x) k"
    by (elim plan_member)
  moreover have "set (SortByStartDesc L ts) = set ts" using sort by (metis mset_eq_setD sort_law_def)
  ultimately have "fst x \<in> set items" "s' = with_keep (fst x) k"
    using timed_items(1) [OF items(2)] by (auto simp: session_call_def split: if_splits)
  with items(1) show ?thesis by blast
qed

text \<open>
  C6: the controller refines the session machine. Whatever the API server answers to the later
  calls, a status that the reconciliation of a session writes is: in the states that the machine
  gives a session, a status of this session and a step of the machine from the state and targets that
  were read; when the session is a \<open>Success\<close>, the status of a listed successful session with
  nothing but its \<open>Keep\<close> field changed; and in any other state (\<open>Initialized\<close>, \<open>Waiting\<close>,
  \<open>WaitingForJob\<close> or an unknown one, which only another writer can set), the same session back in
  the state \<open>New\<close>, with a new start time and nothing else changed.
\<close>

theorem status_writes_are_machine_steps:
  assumes "sort_law L" and "api_BackupSession A req w = (Inr s, w1)"
    and "api_BackupConfiguration A (bss_Ref (bs_Spec s)) w1 = (Inr conf, w2)"
    and "StatusUpdateCall (OBackupSession s') \<in> set (log_of (reconcileBackupSession L (logged A) now req) w)"
  shows "if bst_SessionState (bs_Status s) \<in> {Unset, New, Initializing, Running, Finalize, Failure} then
      controller_step conf (bs_machine s) (bs_machine s') \<and> bs_Meta s' = bs_Meta s \<and> bs_Spec s' = bs_Spec s
    else if bst_SessionState (bs_Status s) = Success then
      \<exists>items s0 keep. fst (api_ListBackupSessions A (om_Namespace (bc_Meta conf)) ''Success'' w2) = Inr items \<and>
        s0 \<in> set items \<and> s' = s0\<lparr>bs_Status := (bs_Status s0)\<lparr>bst_Keep := strings_Join keep '',''\<rparr>\<rparr>
    else s' = s\<lparr>bs_Status := (bs_Status s)\<lparr>bst_SessionState := New, bst_StartTime := Some (now 0)\<rparr>\<rparr>"
proof -
  have tracked: "tracked L s" using untracked_no_status [OF assms(2,3)] assms(4) by blast
  show ?thesis
    using switch_write_is_step [OF assms(2,3) tracked _ assms(4)]
      retention_writes [OF assms(2,3) tracked _ assms(1,4)] default_writes [OF assms(2,3) tracked _ assms(4)]
    unfolding machine_states_def by (auto simp: with_keep_def)
qed

theorem status_writes_are_machine_steps_witness:
  "controller_step one_conf (bs_machine (one_session Running Waiting ''s1''))
     (bs_machine (one_session Finalize Waiting ''s1''))"
proof -
  let ?A = "fixed_api (Inr (one_session Running Waiting ''s1'')) (Inr one_conf) [] :: unit api"
  have wr: "StatusUpdateCall (OBackupSession (one_session Finalize Waiting ''s1'')) \<in>
      set (log_of (reconcileBackupSession sample_lib (logged ?A) (\<lambda>_. utc 9) (''demo'', ''run'')) ())"
    using reconcile_tracked [of ?A "(''demo'', ''run'')" "()" "one_session Running Waiting ''s1''" "()" one_conf "()"
      sample_lib "\<lambda>_. utc 9"]
    by (simp add: tracked_one_session log_of_def backupSessionSwitch_def)
      (simp add: one_session_def one_simps with_state_def with_targets_def go_exec fixed_api_def)
  have "bst_SessionState (bs_Status (one_session Running Waiting ''s1'')) = Running" by (simp add: one_session_def)
  with status_writes_are_machine_steps [OF sample_lib_sorts _ _ wr] show ?thesis by simp
qed

text \<open>
  a session whose configuration is gone can never be released. If the configuration it refers
  to cannot be read, not found included, the reconciliation returns the error after the two reads:
  no snapshot is deleted, the finalizer stays and nothing is written, whether or not the session
  is being deleted.
\<close>

theorem missing_configuration_blocks:
  assumes "api_BackupSession A req w = (Inr s, w1)"
    and "api_BackupConfiguration A (bss_Ref (bs_Spec s)) w1 = (Inl e, w2)"
  shows "reconcileBackupSession L (logged A) now req (w, []) =
    (Fail e, (w2, [GetCall RBackupSession req, GetCall RBackupConfiguration (bss_Ref (bs_Spec s))]))"
  using assms by (simp add: reconcileBackupSession_def bind_go_run try_go_run call_log_call)

theorem missing_configuration_blocks_witness:
  "reconcileBackupSession sample_lib (logged (fixed_api (Inr (deleted_session Success ''s1'')) (Inl NotFound) []))
      (\<lambda>_. utc 9) (''demo'', ''run'') ((), []) =
    (Fail NotFound, ((), [GetCall RBackupSession (''demo'', ''run''),
       GetCall RBackupConfiguration (bss_Ref (bs_Spec (deleted_session Success ''s1'')))]))"
  using missing_configuration_blocks [of "fixed_api (Inr (deleted_session Success ''s1'')) (Inl NotFound) []"
      "(''demo'', ''run'')" "()" "deleted_session Success ''s1''" "()" NotFound "()"]
  by simp

lemma deleteSnapshots_run:
  "\<exists>w'. ignore_err (deleteSnapshots (logged A) s conf) (w, l) = (Ret (), (w', l @
     (if snapshot_containers s conf = [] then []
      else [CreateCall (OJob (snapshot_job s (snapshot_containers s conf)))])))"
  using ignore_log_call [of "CreateCall (OJob (snapshot_job s (snapshot_containers s conf)))"]
  by (auto simp: deleteSnapshots_def Let_def ignore_err_def try_go_def bind_go_def ret_def)

lemma deletion_calls:
  assumes "api_BackupSession A req w = (Inr s, w1)"
    and "api_BackupConfiguration A (bss_Ref (bs_Spec s)) w1 = (Inr conf, w2)"
    and "\<not> ptr_IsZero (om_DeletionTimestamp (bs_Meta s))"
    and "ContainsFinalizer L (om_Finalizers (bs_Meta s)) finalizerName"
  shows "snd (snd (reconcileBackupSession L (logged A) now req (w, l))) =
    l @ [GetCall RBackupSession req, GetCall RBackupConfiguration (bss_Ref (bs_Spec s))] @
    (if snapshot_containers s conf = [] then []
     else [CreateCall (OJob (snapshot_job s (snapshot_containers s conf)))]) @
    [UpdateCall (OBackupSession (s\<lparr>bs_Meta := (bs_Meta s)\<lparr>om_Finalizers :=
       RemoveFinalizer L (om_Finalizers (bs_Meta s)) finalizerName\<rparr>\<rparr>))]"
proof -
  let ?l = "l @ [GetCall RBackupSession req, GetCall RBackupConfiguration (bss_Ref (bs_Spec s))]"
  obtain w3 where del: "ignore_err (deleteSnapshots (logged A) s conf) (w2, ?l) = (Ret (), (w3, ?l @
     (if snapshot_containers s conf = [] then []
      else [CreateCall (OJob (snapshot_job s (snapshot_containers s conf)))])))"
    using deleteSnapshots_run [of A s conf w2 ?l] by blast
  show ?thesis
    using assms del
    by (simp add: reconcileBackupSession_def bind_go_run try_go_run call_log_call
        backupSessionDeletion_def bind_assoc)
      (auto simp: bind_go_def call_def log_call_def ret_def split: prod.splits sum.splits)
qed

text \<open>
  C32: deleting a session deletes its snapshots first. A reconciliation of a session that is being
  deleted and still has the finalizer makes, after the reads, at most two calls: it creates the
  job that deletes the snapshots, if there are any, and then updates the session without the
  finalizer, even if the job could not be created.
\<close>

theorem deletion_releases_the_session:
  assumes "api_BackupSession A req w = (Inr s, w1)"
    and "api_BackupConfiguration A (bss_Ref (bs_Spec s)) w1 = (Inr conf, w2)"
    and "\<not> ptr_IsZero (om_DeletionTimestamp (bs_Meta s))"
    and "ContainsFinalizer L (om_Finalizers (bs_Meta s)) finalizerName"
  shows "log_of (reconcileBackupSession L (logged A) now req) w =
    [GetCall RBackupSession req, GetCall RBackupConfiguration (bss_Ref (bs_Spec s))] @
    (if snapshot_containers s conf = [] then []
     else [CreateCall (OJob (snapshot_job s (snapshot_containers s conf)))]) @
    [UpdateCall (OBackupSession (s\<lparr>bs_Meta := (bs_Meta s)\<lparr>om_Finalizers :=
       RemoveFinalizer L (om_Finalizers (bs_Meta s)) finalizerName\<rparr>\<rparr>))]"
  by (simp add: log_of_def deletion_calls [OF assms])

theorem deletion_releases_the_session_witness:
  "log_of (reconcileBackupSession sample_lib
      (logged (fixed_api (Inr (deleted_session Success ''s1'')) (Inr one_conf) [])) (\<lambda>_. utc 9)
      (''demo'', ''run'')) () =
    [GetCall RBackupSession (''demo'', ''run''), GetCall RBackupConfiguration (''demo'', ''backup-demo''),
     CreateCall (OJob (snapshot_job (deleted_session Success ''s1'')
       (snapshot_containers (deleted_session Success ''s1'') one_conf))),
     UpdateCall (OBackupSession ((deleted_session Success ''s1'')\<lparr>bs_Meta :=
       (bs_Meta (deleted_session Success ''s1''))\<lparr>om_Finalizers := []\<rparr>\<rparr>))]"
  using deletion_releases_the_session [of "fixed_api (Inr (deleted_session Success ''s1'')) (Inr one_conf) []"
      "(''demo'', ''run'')" "()" "deleted_session Success ''s1''" "()" one_conf "()" sample_lib "\<lambda>_. utc 9"]
  by (simp add: deleted_session_def one_session_def ptr_IsZero_def utc_def zero_time_def tm_IsZero_def
      sample_lib_def snapshot_containers_def sample_status_def)

text \<open>
  C19: the deletion job covers every snapshot of the session exactly once and runs the deletions
  one at a time: one regular container, every other one an init container, and the snapshot ids
  on their command lines are the recorded non-empty ids, in the order of the targets.
\<close>

theorem snapshot_job_is_sequential_and_complete:
  assumes "snapshot_containers s conf \<noteq> []"
  shows "let ps = jb_PodSpec (snapshot_job s (snapshot_containers s conf)) in
    length (ps_Containers ps) = 1 \<and>
    map (\<lambda>c. last (ct_Args c)) (ps_Containers ps @ ps_InitContainers ps) =
      filter (\<lambda>id. id \<noteq> '''') (map ts_SnapshotId (bst_Targets (bs_Status s))) \<and>
    (\<forall>c \<in> set (ps_Containers ps @ ps_InitContainers ps). ct_Image c = bcs_Image (bc_Spec conf) \<and>
       take 6 (ct_Args c) = [''snapshot'', ''delete'', ''--namespace'', om_Namespace (bc_Meta conf),
         ''--name'', om_Name (bc_Meta conf)])"
proof -
  have all: "ps_Containers (jb_PodSpec (snapshot_job s (snapshot_containers s conf))) @
      ps_InitContainers (jb_PodSpec (snapshot_job s (snapshot_containers s conf))) = snapshot_containers s conf"
    using assms by (simp add: snapshot_job_def)
  have one: "length (ps_Containers (jb_PodSpec (snapshot_job s (snapshot_containers s conf)))) = 1"
    by (simp add: snapshot_job_def)
  have ids: "map (\<lambda>c. last (ct_Args c)) (snapshot_containers s conf) =
      filter (\<lambda>id. id \<noteq> '''') (map ts_SnapshotId (bst_Targets (bs_Status s)))"
    by (simp add: snapshot_containers_def snapshot_container_def filter_map comp_def)
  have args: "ct_Image c = bcs_Image (bc_Spec conf) \<and>
      take 6 (ct_Args c) = [''snapshot'', ''delete'', ''--namespace'', om_Namespace (bc_Meta conf),
        ''--name'', om_Name (bc_Meta conf)]" if "c \<in> set (snapshot_containers s conf)" for c
    using that by (auto simp: snapshot_containers_def snapshot_container_def)
  show ?thesis unfolding Let_def all using one ids args by simp
qed

theorem snapshot_job_is_sequential_and_complete_witness:
  "snapshot_containers (deleted_session Success ''s1'') one_conf \<noteq> [] \<and>
   length (ps_Containers (jb_PodSpec (snapshot_job (deleted_session Success ''s1'')
     (snapshot_containers (deleted_session Success ''s1'') one_conf)))) = 1"
proof -
  have ne: "snapshot_containers (deleted_session Success ''s1'') one_conf \<noteq> []"
    by (simp add: snapshot_containers_def deleted_session_def one_session_def sample_status_def)
  with snapshot_job_is_sequential_and_complete [OF ne] show ?thesis unfolding Let_def by blast
qed

text \<open>
  a new session starts only when no session of the namespace is listed as running. If the
  list call fails or lists one, the reconciliation writes nothing and asks to be called again in
  30 seconds; otherwise it writes the state \<open>Initializing\<close> with one fresh status per target.
\<close>

theorem new_session_waits_for_running_backups:
  assumes "api_BackupSession A req w = (Inr s, w1)"
    and "api_BackupConfiguration A (bss_Ref (bs_Spec s)) w1 = (Inr conf, w2)" and "tracked L s"
    and "bst_SessionState (bs_Status s) = New"
  shows "\<exists>w'. case fst (api_ListBackupSessions A (om_Namespace (bc_Meta conf)) ''Running'' w2) of
      Inr [] \<Rightarrow> writes (log_of (reconcileBackupSession L (logged A) now req) w) =
        [StatusUpdateCall (OBackupSession (s\<lparr>bs_Status := (bs_Status s)\<lparr>
           bst_SessionState := Initializing, bst_Targets := initSession now conf\<rparr>\<rparr>))]
    | _ \<Rightarrow> reconcileBackupSession L (logged A) now req (w, []) = (Ret \<lparr>RequeueAfter = 30\<rparr>, (w',
        [GetCall RBackupSession req, GetCall RBackupConfiguration (bss_Ref (bs_Spec s)),
         ListCall (om_Namespace (bc_Meta conf)) ''Running'']))"
proof -
  obtain x w3 where x: "api_ListBackupSessions A (om_Namespace (bc_Meta conf)) ''Running'' w2 = (x, w3)"
    by (cases "api_ListBackupSessions A (om_Namespace (bc_Meta conf)) ''Running'' w2")
  consider (err) e where "x = Inl e" | (none) "x = Inr []" | (some) i items where "x = Inr (i # items)"
    by (metis list.exhaust sum.exhaust)
  then show ?thesis
  proof cases
    case none
    with x show ?thesis
      by (auto simp: log_of_def writes_def reconcile_tracked [OF assms(1-3)] backupSessionSwitch_def assms(4)
          isBackupOngoing_def with_state_def with_targets_def go_exec split: prod.splits sum.splits)
  qed (use x in \<open>simp_all add: reconcile_tracked [OF assms(1-3)] backupSessionSwitch_def assms(4)
    isBackupOngoing_def go_exec\<close>)
qed

theorem new_session_waits_for_running_backups_witness:
  "\<exists>w'. reconcileBackupSession sample_lib
      (logged (fixed_api (Inr (one_session New Unset '''')) (Inr one_conf) [sample_newer])) (\<lambda>_. utc 9)
      (''demo'', ''run'') ((), []) = (Ret \<lparr>RequeueAfter = 30\<rparr>, (w',
        [GetCall RBackupSession (''demo'', ''run''), GetCall RBackupConfiguration (''demo'', ''backup-demo''),
         ListCall ''demo'' ''Running'']))"
  using new_session_waits_for_running_backups [of "fixed_api (Inr (one_session New Unset '''')) (Inr one_conf) [sample_newer]"
      "(''demo'', ''run'')" "()" "one_session New Unset ''''" "()" one_conf "()" sample_lib "\<lambda>_. utc 9"]
  by (simp add: tracked_one_session)
    (simp add: one_session_def one_conf_def sample_conf_def named_meta_def)

end
