(* ===== verification/RestoreSession.thy ===== *)
theory RestoreSession
  imports BackupSession
begin

section \<open>The RestoreSession controller (controllers/restoresession_controller.go)\<close>

text \<open>
  \<open>Reconcile\<close> of the restore session controller: the same session machine over another object,
  without finalizer and without retention. The switch has a case for the empty state and no
  default, so a state the controller does not know is left alone, where the backup session
  controller starts over. The interpretation of \<open>session_controller\<close> gives this switch the same
  lemmas.
\<close>

definition restore_with_targets :: "target_status list \<Rightarrow> restore_session \<Rightarrow> restore_session" where
  "restore_with_targets tss s = s\<lparr>rs_Status := (rs_Status s)\<lparr>rst_Targets := tss\<rparr>\<rparr>"

definition restore_with_state :: "session_state \<Rightarrow> restore_session \<Rightarrow> restore_session" where
  "restore_with_state st s = s\<lparr>rs_Status := (rs_Status s)\<lparr>rst_SessionState := st\<rparr>\<rparr>"

text \<open>\<open>initRestore\<close> of the helper file, which no code calls.\<close>

definition initRestore :: "restore_session \<Rightarrow> backup_configuration \<Rightarrow> session_state" where
  "initRestore restoreSession backupConf = Running"

definition restoreSessionSwitch :: "'w api \<Rightarrow> (nat \<Rightarrow> go_time) \<Rightarrow> backup_configuration \<Rightarrow>
    restore_session \<Rightarrow> ('w, (session_state \<times> restore_session) option) go" where
  "restoreSessionSwitch A now conf s =
    (let tss = rst_Targets (rs_Status s) in
     case rst_SessionState (rs_Status s) of
       New \<Rightarrow> bind_go (isBackupOngoing A conf) (\<lambda>ongoing.
          if ongoing then ret None
          else ret (Some (Initializing, restore_with_targets (initSession now conf) s)))
     | Initializing \<Rightarrow> bind_go (of_option (checkInitialized (now 0) tss conf))
          (\<lambda>(r, tss'). ret (Some (r, restore_with_targets tss' s)))
     | Running \<Rightarrow> bind_go (of_option (checkWaiting (now 0) tss conf))
          (\<lambda>(r, tss'). ret (Some (r, restore_with_targets tss' s)))
     | Finalize \<Rightarrow> bind_go (of_option (checkSuccess (now 0) tss conf))
          (\<lambda>(r, tss'). ret (Some (if r = Failure then Success else r, restore_with_targets tss' s)))
     | Success \<Rightarrow> ret (Some (Unset, s))
     | Failure \<Rightarrow> ret (Some (Unset, s))
     | Unset \<Rightarrow> ret (Some (New, s\<lparr>rs_Status := (rs_Status s)\<lparr>rst_StartTime := Some (now 0)\<rparr>\<rparr>))
     | _ \<Rightarrow> ret (Some (Unset, s)))"

text \<open>What follows the switch: the early return or the status update.\<close>

definition restoreSessionUpdate :: "'w api \<Rightarrow> (session_state \<times> restore_session) option \<Rightarrow> ('w, result) go" where
  "restoreSessionUpdate A r = (case r of
     None \<Rightarrow> ret \<lparr>RequeueAfter = 30\<rparr>
   | Some (newSessionState, s') \<Rightarrow>
       if newSessionState \<noteq> Unset then
         bind_go (call (api_StatusUpdate A (ORestoreSession (restore_with_state newSessionState s'))))
           (\<lambda>_. ret no_requeue)
       else ret no_requeue)"

text \<open>
  The configuration is looked up through the backup session copied into the restore session's
  spec.
\<close>

definition reconcileRestoreSession :: "'w api \<Rightarrow> (nat \<Rightarrow> go_time) \<Rightarrow> object_key \<Rightarrow> ('w, result) go" where
  "reconcileRestoreSession A now req =
     bind_go (try_go (call (api_RestoreSession A req))) (\<lambda>got. case got of
       Inl e \<Rightarrow> if IsNotFound e then ret no_requeue else fail e
     | Inr s \<Rightarrow>
         bind_go (call (api_BackupConfiguration A (bss_Ref (bsr_Spec (rss_BackupSessionRef (rs_Spec s))))))
           (\<lambda>conf. bind_go (restoreSessionSwitch A now conf s) (restoreSessionUpdate A)))"

subsection \<open>The controller implements the machine\<close>

definition rs_machine :: "restore_session \<Rightarrow> machine" where
  "rs_machine s = \<lparr>mc_State = rst_SessionState (rs_Status s), mc_Targets = rst_Targets (rs_Status s)\<rparr>"

interpretation restore_session: session_controller rs_machine restore_with_targets restoreSessionSwitch
proof unfold_locales
  fix s :: restore_session and A :: "'w api" and now conf
  assume "mc_State (rs_machine s) = New"
  then show "restoreSessionSwitch A now conf s = bind_go (isBackupOngoing A conf)
      (\<lambda>b. ret (if b then None else Some (Initializing, restore_with_targets (initSession now conf) s)))"
    by (simp add: rs_machine_def restoreSessionSwitch_def if_distrib [of ret])
next
  fix s :: restore_session and A :: "'w api" and now conf
  assume "mc_State (rs_machine s) \<in> {Initializing, Running, Finalize}"
  then show "restoreSessionSwitch A now conf s =
      bind_go (of_option (advance (mc_State (rs_machine s)) (now 0) (mc_Targets (rs_machine s)) conf))
        (\<lambda>(r, tss). ret (Some (r, restore_with_targets tss s)))"
    by (auto simp: rs_machine_def restoreSessionSwitch_def of_option_def split: option.split)
qed (auto simp: rs_machine_def restore_with_targets_def restoreSessionSwitch_def go_run)

subsection \<open>The status update\<close>

definition update_calls :: "(session_state \<times> restore_session) option \<Rightarrow> api_call list" where
  "update_calls r = (case r of None \<Rightarrow> [] | Some (n, s') \<Rightarrow>
     if n = Unset then [] else [StatusUpdateCall (ORestoreSession (restore_with_state n s'))])"

lemma restoreSessionUpdate_log:
  "snd (snd (restoreSessionUpdate (logged A) r (w, l))) = l @ update_calls r"
  by (auto simp: restoreSessionUpdate_def update_calls_def go_exec split: option.split prod.split sum.split)

subsection \<open>Properties\<close>

text \<open>The configuration key of a restore session.\<close>

definition restored_conf :: "restore_session \<Rightarrow> object_key" where
  "restored_conf s = bss_Ref (bsr_Spec (rss_BackupSessionRef (rs_Spec s)))"

text \<open>
  the restore controller never writes anything but the status of the restore session it was
  called for, and that at most once: whatever the API server answers, in every state of the
  session.
\<close>

theorem restore_writes_only_its_status:
  "length (writes (log_of (reconcileRestoreSession (logged A) now req) w)) \<le> 1 \<and>
   (\<forall>c \<in> set (writes (log_of (reconcileRestoreSession (logged A) now req) w)).
      \<exists>s s'. fst (api_RestoreSession A req w) = Inr s \<and> c = StatusUpdateCall (ORestoreSession s') \<and>
        rs_Meta s' = rs_Meta s \<and> rs_Spec s' = rs_Spec s)"
proof -
  obtain x w1 where x: "api_RestoreSession A req w = (x, w1)" by (cases "api_RestoreSession A req w")
  show ?thesis
  proof (cases x)
    case (Inl e)
    with x show ?thesis
      by (auto simp: log_of_def writes_def reconcileRestoreSession_def go_exec)
  next
    case (Inr s)
    have silent: "emits (\<lambda>c. \<not> is_write c) (restoreSessionSwitch (logged A) now conf s)
        (\<lambda>r. \<forall>n s'. r = Some (n, s') \<longrightarrow> rs_Meta s' = rs_Meta s \<and> rs_Spec s' = rs_Spec s)" for conf
      unfolding restoreSessionSwitch_def isBackupOngoing_def Let_def
      by (auto intro!: emits_intros simp: restore_with_targets_def split: session_state.split)
    obtain y w2 where y: "api_BackupConfiguration A (restored_conf s) w1 = (y, w2)"
      by (cases "api_BackupConfiguration A (restored_conf s) w1")
    show ?thesis
    proof (cases y)
      case (Inl e)
      with x y \<open>x = Inr s\<close> show ?thesis
        by (simp add: log_of_def writes_def reconcileRestoreSession_def restored_conf_def go_exec)
    next
      case (Inr conf)
      obtain r w3 l3 where run: "restoreSessionSwitch (logged A) now conf s
          (w2, [GetCall RRestoreSession req, GetCall RBackupConfiguration (restored_conf s)]) =
          (r, (w3, [GetCall RRestoreSession req, GetCall RBackupConfiguration (restored_conf s)] @ l3))"
        "list_all (\<lambda>c. \<not> is_write c) l3"
        "\<And>n s'. r = Ret (Some (n, s')) \<Longrightarrow> rs_Meta s' = rs_Meta s \<and> rs_Spec s' = rs_Spec s"
        using emitsD [OF silent, of conf w2 "[GetCall RRestoreSession req, GetCall RBackupConfiguration (restored_conf s)]"]
        by blast
      have l3: "filter is_write l3 = []" using run(2) by (simp add: list_all_iff filter_empty_conv)
      have rec: "reconcileRestoreSession (logged A) now req (w, []) =
          bind_go (restoreSessionSwitch (logged A) now conf s) (restoreSessionUpdate (logged A))
            (w2, [GetCall RRestoreSession req, GetCall RBackupConfiguration (restored_conf s)])"
        using x y Inr \<open>x = Inr s\<close>
        by (simp add: reconcileRestoreSession_def restored_conf_def bind_go_run try_go_run call_log_call)
      show ?thesis
      proof (cases r)
        case (Ret o')
        have log: "log_of (reconcileRestoreSession (logged A) now req) w =
            [GetCall RRestoreSession req, GetCall RBackupConfiguration (restored_conf s)] @ l3 @ update_calls o'"
          using run(1) Ret restoreSessionUpdate_log [of A o' w3]
          by (simp add: log_of_def rec bind_go_run)
        have "writes (update_calls o') = update_calls o'" and "length (update_calls o') \<le> 1"
          by (auto simp: writes_def update_calls_def split: option.split)
        with log l3 have w: "writes (log_of (reconcileRestoreSession (logged A) now req) w) = update_calls o'"
          by (simp add: writes_def)
        have "\<exists>s'. c = StatusUpdateCall (ORestoreSession s') \<and> rs_Meta s' = rs_Meta s \<and> rs_Spec s' = rs_Spec s"
          if "c \<in> set (update_calls o')" for c
          using that run(3) Ret
          by (auto simp: update_calls_def restore_with_state_def split: option.splits if_splits)
        with w \<open>length (update_calls o') \<le> 1\<close> x \<open>x = Inr s\<close> show ?thesis by simp
      qed (use run(1) l3 in \<open>simp_all add: log_of_def writes_def rec go_run\<close>)
    qed
  qed
qed

text \<open>A restore session of \<open>one_conf\<close> and the client that serves it.\<close>

definition one_restore :: "session_state \<Rightarrow> session_state \<Rightarrow> restore_session" where
  "one_restore st s = \<lparr>rs_Meta = named_meta ''demo'' ''restore'',
     rs_Spec = \<lparr>rss_BackupSessionRef = \<lparr>bsr_Spec = \<lparr>bss_Ref = (''demo'', ''backup-demo'')\<rparr>,
       bsr_Status = \<lparr>bst_SessionState = Success, bst_StartTime = None, bst_Targets = [], bst_Keep = ''''\<rparr>\<rparr>\<rparr>,
     rs_Status = \<lparr>rst_SessionState = st, rst_StartTime = Some (utc 0), rst_Targets = [sample_status s]\<rparr>\<rparr>"

definition restore_api :: "restore_session \<Rightarrow> unit api" where
  "restore_api s = (fixed_api (Inl NotFound) (Inr one_conf) [])\<lparr>api_RestoreSession := (\<lambda>_ w. (Inr s, w))\<rparr>"

lemma restore_api_sel [simp]:
  "api_RestoreSession (restore_api s) k w = (Inr s, w)"
  "api_BackupConfiguration (restore_api s) k w = (Inr one_conf, w)"
  "api_StatusUpdate (restore_api s) x w = (Inr (), w)"
  by (simp_all add: restore_api_def fixed_api_def)

lemma restore_sample_log:
  "log_of (reconcileRestoreSession (logged (restore_api (one_restore Running Waiting))) (\<lambda>_. utc 9)
     (''demo'', ''restore'')) () =
   [GetCall RRestoreSession (''demo'', ''restore''), GetCall RBackupConfiguration (''demo'', ''backup-demo''),
    StatusUpdateCall (ORestoreSession (one_restore Finalize Waiting))]"
  by (simp add: log_of_def reconcileRestoreSession_def restoreSessionSwitch_def one_restore_def one_simps
      restoreSessionUpdate_def restore_with_state_def restore_with_targets_def go_exec)

theorem restore_writes_only_its_status_witness:
  "writes (log_of (reconcileRestoreSession (logged (restore_api (one_restore Running Waiting))) (\<lambda>_. utc 9)
     (''demo'', ''restore'')) ()) = [StatusUpdateCall (ORestoreSession (one_restore Finalize Waiting))] \<and>
   rs_Spec (one_restore Finalize Waiting) = rs_Spec (one_restore Running Waiting)"
  using restore_writes_only_its_status [of "restore_api (one_restore Running Waiting)" "\<lambda>_. utc 9"
      "(''demo'', ''restore'')" "()"]
  by (simp add: restore_sample_log writes_def)

text \<open>
  C31: the restore controller refines the same machine. Every status it writes is a step of the
  machine from the state and targets it read, in every state; in particular it writes nothing for
  a session that is over.
\<close>

theorem restore_writes_are_machine_steps:
  assumes "api_RestoreSession A req w = (Inr s, w1)"
    and "api_BackupConfiguration A (restored_conf s) w1 = (Inr conf, w2)"
    and "StatusUpdateCall (ORestoreSession s') \<in> set (log_of (reconcileRestoreSession (logged A) now req) w)"
  shows "controller_step conf (rs_machine s) (rs_machine s')"
proof -
  let ?l = "[GetCall RRestoreSession req, GetCall RBackupConfiguration (restored_conf s)]"
  have silent: "emits (\<lambda>c. \<not> is_write c) (restoreSessionSwitch (logged A) now conf s) (\<lambda>_. True)"
    unfolding restoreSessionSwitch_def isBackupOngoing_def Let_def
    by (auto intro!: emits_intros split: session_state.split)
  obtain r w3 l3 where run: "restoreSessionSwitch (logged A) now conf s (w2, ?l) = (r, (w3, ?l @ l3))"
    "list_all (\<lambda>c. \<not> is_write c) l3"
    using emitsD [OF silent, of w2 ?l] by blast
  have quiet: "StatusUpdateCall x \<notin> set l3" for x using run(2) by (auto simp: list_all_iff)
  have rec: "reconcileRestoreSession (logged A) now req (w, []) =
      bind_go (restoreSessionSwitch (logged A) now conf s) (restoreSessionUpdate (logged A)) (w2, ?l)"
    using assms(1,2)
    by (simp add: reconcileRestoreSession_def restored_conf_def bind_go_run try_go_run call_log_call)
  obtain n s2 where r: "r = Ret (Some (n, s2))" "n \<noteq> Unset" "s' = restore_with_state n s2"
  proof (cases r)
    case (Ret o')
    then have "StatusUpdateCall (ORestoreSession s') \<in> set (update_calls o')"
      using assms(3) run(1) quiet restoreSessionUpdate_log [of A o' w3]
      by (auto simp: log_of_def rec bind_go_run)
    with Ret that show ?thesis by (auto simp: update_calls_def split: option.splits if_splits)
  qed (use assms(3) run(1) quiet in \<open>simp_all add: log_of_def rec bind_go_run\<close>)
  have "mc_State (rs_machine s) \<in> {Unset, New, Initializing, Running, Finalize, Success, Failure}"
    using run(1) r(1,2)
    by (cases "rst_SessionState (rs_Status s)") (auto simp: rs_machine_def restoreSessionSwitch_def ret_def)
  from restore_session.switch_step [OF run(1) [unfolded r(1)] r(2) this] r(3) show ?thesis
    by (simp add: rs_machine_def restore_with_state_def)
qed

theorem restore_writes_are_machine_steps_witness:
  "controller_step one_conf (rs_machine (one_restore Running Waiting)) (rs_machine (one_restore Finalize Waiting))"
  using restore_writes_are_machine_steps [of "restore_api (one_restore Running Waiting)"
      "(''demo'', ''restore'')" "()" "one_restore Running Waiting" "()" one_conf "()"
      "one_restore Finalize Waiting" "\<lambda>_. utc 9"]
  by (simp add: restore_sample_log)

end
