(* ===== verification/Manager.thy ===== *)
theory Manager
  imports BackupSession RestoreSession
begin

section \<open>The manager process (main.go and the SetupWithManager methods)\<close>

text \<open>
  \<open>main\<close> parses the flags, creates the manager, registers the three controllers and the two probes
  and starts it; an error of any of these calls ends the process with \<open>os.Exit(1)\<close>. The libraries are
  the record \<open>runtime\<close>, with one field per call. The logger's flags are not modelled, and theory
  Scheme has the scheme.
\<close>

subsection \<open>Operations\<close>

record flags =
  fl_MetricsAddr :: string
  fl_ProbeAddr :: string
  fl_LeaderElect :: bool

text \<open>The defaults that the flags are declared with.\<close>

definition default_flags :: flags where
  "default_flags = \<lparr>fl_MetricsAddr = '':8080'', fl_ProbeAddr = '':8081'', fl_LeaderElect = False\<rparr>"

record manager_options =
  mo_MetricsBindAddress :: string
  mo_Port :: int
  mo_HealthProbeBindAddress :: string
  mo_LeaderElection :: bool
  mo_LeaderElectionID :: string

definition options_of :: "flags \<Rightarrow> manager_options" where
  "options_of fl = \<lparr>mo_MetricsBindAddress = fl_MetricsAddr fl, mo_Port = 9443,
     mo_HealthProbeBindAddress = fl_ProbeAddr fl, mo_LeaderElection = fl_LeaderElect fl,
     mo_LeaderElectionID = ''6846258d.desmojim.fr''\<rparr>"

record 'w runtime =
  rt_ParseFlags :: "flags \<Rightarrow> nat + flags"
    \<comment> \<open>\<open>flag.Parse\<close>: the code with which it ends the process, or the values of the flags\<close>
  rt_GetConfigOrDie :: "('w, unit) answer"
  rt_NewManager :: "manager_options \<Rightarrow> ('w, unit) answer"
  rt_IndexField :: "resource \<Rightarrow> string \<Rightarrow> (backup_session \<Rightarrow> string list) \<Rightarrow> ('w, unit) answer"
  rt_Complete :: "resource \<Rightarrow> ('w, unit) answer"
    \<comment> \<open>\<open>ctrl.NewControllerManagedBy(mgr).For(...).Complete(r)\<close>\<close>
  rt_AddHealthzCheck :: "string \<Rightarrow> ('w, unit) answer"
  rt_AddReadyzCheck :: "string \<Rightarrow> ('w, unit) answer"
  rt_Start :: "('w, unit) answer"

definition sessionState :: string where
  "sessionState = ''.metadata.state''"

text \<open>The function that the field index applies to a session.\<close>

definition sessionStateIndex :: "backup_session \<Rightarrow> string list" where
  "sessionStateIndex s = [state_string (bst_SessionState (bs_Status s))]"

definition setupBackupConfiguration :: "'w runtime \<Rightarrow> ('w, unit) go" where
  "setupBackupConfiguration R = call (rt_Complete R RBackupConfiguration)"

definition setupBackupSession :: "'w runtime \<Rightarrow> ('w, unit) go" where
  "setupBackupSession R =
     bind_go (call (rt_IndexField R RBackupSession sessionState sessionStateIndex))
       (\<lambda>_. call (rt_Complete R RBackupSession))"

definition setupRestoreSession :: "'w runtime \<Rightarrow> ('w, unit) go" where
  "setupRestoreSession R = call (rt_Complete R RRestoreSession)"

definition run_manager :: "'w runtime \<Rightarrow> manager_options \<Rightarrow> ('w, unit) go" where
  "run_manager R options =
     bind_go (call (rt_GetConfigOrDie R)) (\<lambda>_.
     bind_go (call (rt_NewManager R options)) (\<lambda>_.
     bind_go (setupBackupConfiguration R) (\<lambda>_.
     bind_go (setupBackupSession R) (\<lambda>_.
     bind_go (setupRestoreSession R) (\<lambda>_.
     bind_go (call (rt_AddHealthzCheck R ''healthz'')) (\<lambda>_.
     bind_go (call (rt_AddReadyzCheck R ''readyz'')) (\<lambda>_.
       call (rt_Start R))))))))"

text \<open>The exit code of the process: 2 is the Go runtime's for a panic.\<close>

definition main :: "'w runtime \<Rightarrow> 'w \<Rightarrow> nat \<times> 'w" where
  "main R w = (case rt_ParseFlags R default_flags of
     Inl code \<Rightarrow> (code, w)
   | Inr fl \<Rightarrow> (case run_manager R (options_of fl) w of
       (Ret _, w') \<Rightarrow> (0, w') | (Fail _, w') \<Rightarrow> (1, w') | (Panic, w') \<Rightarrow> (2, w')))"

subsection \<open>The calls of a start\<close>

datatype setup_call = ConfigCall | NewManagerCall manager_options | IndexCall resource string "backup_session \<Rightarrow> string list"
  | ControllerCall resource | HealthzCall string | ReadyzCall string | StartCall

definition logged_runtime :: "'w runtime \<Rightarrow> ('w \<times> setup_call list) runtime" where
  "logged_runtime R = \<lparr>
     rt_ParseFlags = rt_ParseFlags R,
     rt_GetConfigOrDie = log_call ConfigCall (rt_GetConfigOrDie R),
     rt_NewManager = (\<lambda>options. log_call (NewManagerCall options) (rt_NewManager R options)),
     rt_IndexField = (\<lambda>r f g. log_call (IndexCall r f g) (rt_IndexField R r f g)),
     rt_Complete = (\<lambda>r. log_call (ControllerCall r) (rt_Complete R r)),
     rt_AddHealthzCheck = (\<lambda>n. log_call (HealthzCall n) (rt_AddHealthzCheck R n)),
     rt_AddReadyzCheck = (\<lambda>n. log_call (ReadyzCall n) (rt_AddReadyzCheck R n)),
     rt_Start = log_call StartCall (rt_Start R)\<rparr>"

definition wiring :: "manager_options \<Rightarrow> setup_call list" where
  "wiring options = [ConfigCall, NewManagerCall options, ControllerCall RBackupConfiguration,
     IndexCall RBackupSession sessionState sessionStateIndex, ControllerCall RBackupSession,
     ControllerCall RRestoreSession, HealthzCall ''healthz'', ReadyzCall ''readyz'', StartCall]"

text \<open>A chain of logged calls stops at the first error.\<close>

fun chain :: "('l \<times> ('w, unit) answer) list \<Rightarrow> ('w \<times> 'l list, unit) go" where
  "chain [] = ret ()"
| "chain ((c, f) # cs) = bind_go (call (log_call c f)) (\<lambda>_. chain cs)"

lemma bind_ret_id: "bind_go m ret = m"
  by (auto simp: bind_go_def ret_def fun_eq_iff split: prod.split go_result.split)

lemma chain_log:
  "\<exists>r n w'. chain cs (w, l) = (r, (w', l @ take n (map fst cs))) \<and>
    (r = Ret () \<and> n = length cs \<or> (\<exists>e. r = Fail e) \<and> 0 < n \<and> n \<le> length cs)"
proof (induction cs arbitrary: w l)
  case Nil
  then show ?case by (auto simp: ret_run)
next
  case (Cons cf cs)
  obtain c f where cf: "cf = (c, f)" by (cases cf)
  obtain x w1 where f: "f w = (x, w1)" by (cases "f w")
  show ?case
  proof (cases x)
    case (Inl e)
    with f have "chain (cf # cs) (w, l) = (Fail e, (w1, l @ take 1 (map fst (cf # cs))))"
      by (simp add: cf bind_go_run call_log_call)
    then show ?thesis by fastforce
  next
    case (Inr a)
    obtain r n w' where "chain cs (w1, l @ [c]) = (r, (w', (l @ [c]) @ take n (map fst cs)))"
      and r: "r = Ret () \<and> n = length cs \<or> (\<exists>e. r = Fail e) \<and> 0 < n \<and> n \<le> length cs"
      using Cons.IH by blast
    then have "chain (cf # cs) (w, l) = (r, (w', l @ take (Suc n) (map fst (cf # cs))))"
      using f Inr by (simp add: cf bind_go_run call_log_call)
    with r show ?thesis by fastforce
  qed
qed

definition startup :: "'w runtime \<Rightarrow> manager_options \<Rightarrow> (setup_call \<times> ('w, unit) answer) list" where
  "startup R options = [(ConfigCall, rt_GetConfigOrDie R), (NewManagerCall options, rt_NewManager R options),
     (ControllerCall RBackupConfiguration, rt_Complete R RBackupConfiguration),
     (IndexCall RBackupSession sessionState sessionStateIndex, rt_IndexField R RBackupSession sessionState sessionStateIndex),
     (ControllerCall RBackupSession, rt_Complete R RBackupSession),
     (ControllerCall RRestoreSession, rt_Complete R RRestoreSession),
     (HealthzCall ''healthz'', rt_AddHealthzCheck R ''healthz''),
     (ReadyzCall ''readyz'', rt_AddReadyzCheck R ''readyz''), (StartCall, rt_Start R)]"

lemma startup_wiring: "map fst (startup R options) = wiring options" "length (startup R options) = length (wiring options)"
  by (simp_all add: startup_def wiring_def)

lemma run_manager_chain: "run_manager (logged_runtime R) options = chain (startup R options)"
  by (simp add: run_manager_def setupBackupConfiguration_def setupBackupSession_def setupRestoreSession_def
      startup_def logged_runtime_def bind_assoc bind_ret_id)

lemma start_is_last: "n < length (wiring options) \<Longrightarrow> StartCall \<notin> set (take n (wiring options))"
  by (auto simp: wiring_def take_Cons' split: if_splits)

subsection \<open>Property\<close>

text \<open>
  C38: the manager is started only when it is fully wired. Whatever the libraries answer, the calls
  of the process after its flags are parsed are an initial part of one fixed sequence, in which the
  manager gets the values of the flags, the index over the session states comes before the controller
  that lists by it and the start comes last: nothing is started unless all three controllers and
  both probes are registered, and the process ends with code 0 only after all of it, with code 1
  otherwise. Flags that do not parse end the process before any call.
\<close>

theorem manager_starts_fully_wired:
  "case rt_ParseFlags R default_flags of
     Inl code \<Rightarrow> main (logged_runtime R) (w, []) = (code, (w, []))
   | Inr fl \<Rightarrow> let (code, (_, log)) = main (logged_runtime R) (w, []); all = wiring (options_of fl) in
       log \<noteq> [] \<and> log = take (length log) all \<and> (StartCall \<in> set log \<longleftrightarrow> log = all) \<and>
       code \<in> {0, 1} \<and> (code = 0 \<longrightarrow> log = all)"
proof (cases "rt_ParseFlags R default_flags")
  case (Inl code)
  then show ?thesis by (simp add: main_def logged_runtime_def)
next
  case (Inr fl)
  let ?all = "wiring (options_of fl)"
  have parse: "rt_ParseFlags (logged_runtime R) default_flags = Inr fl" using Inr by (simp add: logged_runtime_def)
  obtain r n w' where run: "run_manager (logged_runtime R) (options_of fl) (w, []) = (r, (w', take n ?all))"
    and r: "r = Ret () \<and> n = length ?all \<or> (\<exists>e. r = Fail e) \<and> 0 < n \<and> n \<le> length ?all"
    using chain_log [of "startup R (options_of fl)" w "[]"] by (auto simp: run_manager_chain startup_wiring)
  have "take n ?all \<noteq> []" using r by (auto simp: wiring_def)
  moreover have "StartCall \<in> set (take n ?all) \<longleftrightarrow> take n ?all = ?all"
  proof (cases "n < length ?all")
    case True
    then have "length (take n ?all) \<noteq> length ?all" by simp
    with start_is_last [OF True] show ?thesis by auto
  next
    case False
    then show ?thesis by (simp add: wiring_def)
  qed
  ultimately show ?thesis using r by (auto simp: Inr main_def run parse)
qed

text \<open>A manager whose third controller cannot be registered is not started.\<close>

definition sample_runtime :: "resource \<Rightarrow> unit runtime" where
  "sample_runtime bad = \<lparr>rt_ParseFlags = (\<lambda>fl. Inr (fl\<lparr>fl_LeaderElect := True\<rparr>)),
     rt_GetConfigOrDie = (\<lambda>w. (Inr (), w)), rt_NewManager = (\<lambda>_ w. (Inr (), w)), rt_IndexField = (\<lambda>_ _ _ w. (Inr (), w)),
     rt_Complete = (\<lambda>r w. (if r = bad then Inl (OtherError ''no kind'') else Inr (), w)),
     rt_AddHealthzCheck = (\<lambda>_ w. (Inr (), w)), rt_AddReadyzCheck = (\<lambda>_ w. (Inr (), w)),
     rt_Start = (\<lambda>w. (Inr (), w))\<rparr>"

theorem manager_starts_fully_wired_witness:
  "fst (main (logged_runtime (sample_runtime RRepo)) ((), [])) = 0 \<and>
   snd (snd (main (logged_runtime (sample_runtime RRepo)) ((), []))) =
     wiring (options_of (default_flags\<lparr>fl_LeaderElect := True\<rparr>)) \<and>
   StartCall \<notin> set (snd (snd (main (logged_runtime (sample_runtime RRestoreSession)) ((), []))))"
proof -
  let ?all = "wiring (options_of (default_flags\<lparr>fl_LeaderElect := True\<rparr>))"
  have code: "fst (main (logged_runtime (sample_runtime RRepo)) ((), [])) = 0"
    and log: "length (snd (snd (main (logged_runtime (sample_runtime RRestoreSession)) ((), [])))) = 6"
    by (simp_all add: main_def run_manager_def setupBackupConfiguration_def setupBackupSession_def
      setupRestoreSession_def logged_runtime_def sample_runtime_def go_exec)
  have parse: "rt_ParseFlags (sample_runtime bad) default_flags = Inr (default_flags\<lparr>fl_LeaderElect := True\<rparr>)" for bad
    by (simp add: sample_runtime_def)
  have "snd (snd (main (logged_runtime (sample_runtime RRestoreSession)) ((), []))) \<noteq> ?all"
  proof
    assume "snd (snd (main (logged_runtime (sample_runtime RRestoreSession)) ((), []))) = ?all"
    with log show False by (simp add: wiring_def)
  qed
  with code show ?thesis
    using manager_starts_fully_wired [of "sample_runtime RRepo" "()"]
      manager_starts_fully_wired [of "sample_runtime RRestoreSession" "()"]
    by (simp add: Let_def case_prod_beta parse)
qed

end
