(* ===== verification/Cluster.thy ===== *)
theory Cluster
  imports Client
begin

section \<open>What the controllers rely on of the API server\<close>

text \<open>
  The objects the backup configuration controller manages, as maps from keys, and the documented
  behaviour of a client in the absence of other writers (\<open>client_laws\<close>): a read answers the
  stored object or \<open>NotFound\<close>, \<open>Create\<close> stores an object that does not exist, \<open>Update\<close> replaces
  and \<open>Delete\<close> removes one that does (the objects that the operator deletes have no finalizers), an
  \<open>Update\<close> that takes the last finalizer of a configuration being deleted removes it, cluster-scoped objects are found by name alone. The world
  is any type with an abstraction \<open>view\<close> to these maps. \<open>mem_api\<close> is a client that satisfies the
  laws; the witnesses run on it.
\<close>

record cluster =
  cl_Confs :: "object_key \<rightharpoonup> backup_configuration"
  cl_Repos :: "object_key \<rightharpoonup> repo"
  cl_Workloads :: "workload_kind \<times> object_key \<rightharpoonup> workload"
  cl_CronJobs :: "object_key \<rightharpoonup> cron_job"
  cl_ServiceAccounts :: "object_key \<rightharpoonup> service_account"
  cl_Roles :: "object_key \<rightharpoonup> role"
  cl_RoleBindings :: "object_key \<rightharpoonup> role_binding"
  cl_ClusterRoles :: "string \<rightharpoonup> role"
  cl_ClusterRoleBindings :: "string \<rightharpoonup> role_binding"

text \<open>The objects kept: sessions and jobs are not.\<close>

fun exists_object :: "kobject \<Rightarrow> cluster \<Rightarrow> bool" where
  "exists_object (OBackupConfiguration x) c = (meta_key (bc_Meta x) \<in> dom (cl_Confs c))"
| "exists_object (OWorkload k x) c = ((k, meta_key (wl_Meta x)) \<in> dom (cl_Workloads c))"
| "exists_object (OCronJob x) c = (meta_key (cj_Meta x) \<in> dom (cl_CronJobs c))"
| "exists_object (OServiceAccount x) c = (meta_key (sa_Meta x) \<in> dom (cl_ServiceAccounts c))"
| "exists_object (ORole x) c = (meta_key (ro_Meta x) \<in> dom (cl_Roles c))"
| "exists_object (ORoleBinding x) c = (meta_key (rb_Meta x) \<in> dom (cl_RoleBindings c))"
| "exists_object (OClusterRole x) c = (om_Name (ro_Meta x) \<in> dom (cl_ClusterRoles c))"
| "exists_object (OClusterRoleBinding x) c = (om_Name (rb_Meta x) \<in> dom (cl_ClusterRoleBindings c))"
| "exists_object _ c = False"

fun put_object :: "kobject \<Rightarrow> cluster \<Rightarrow> cluster" where
  "put_object (OBackupConfiguration x) c = c\<lparr>cl_Confs := (cl_Confs c)(meta_key (bc_Meta x) \<mapsto> x)\<rparr>"
| "put_object (OWorkload k x) c = c\<lparr>cl_Workloads := (cl_Workloads c)((k, meta_key (wl_Meta x)) \<mapsto> x)\<rparr>"
| "put_object (OCronJob x) c = c\<lparr>cl_CronJobs := (cl_CronJobs c)(meta_key (cj_Meta x) \<mapsto> x)\<rparr>"
| "put_object (OServiceAccount x) c =
     c\<lparr>cl_ServiceAccounts := (cl_ServiceAccounts c)(meta_key (sa_Meta x) \<mapsto> x)\<rparr>"
| "put_object (ORole x) c = c\<lparr>cl_Roles := (cl_Roles c)(meta_key (ro_Meta x) \<mapsto> x)\<rparr>"
| "put_object (ORoleBinding x) c = c\<lparr>cl_RoleBindings := (cl_RoleBindings c)(meta_key (rb_Meta x) \<mapsto> x)\<rparr>"
| "put_object (OClusterRole x) c = c\<lparr>cl_ClusterRoles := (cl_ClusterRoles c)(om_Name (ro_Meta x) \<mapsto> x)\<rparr>"
| "put_object (OClusterRoleBinding x) c =
     c\<lparr>cl_ClusterRoleBindings := (cl_ClusterRoleBindings c)(om_Name (rb_Meta x) \<mapsto> x)\<rparr>"
| "put_object _ c = c"

fun remove_object :: "kobject \<Rightarrow> cluster \<Rightarrow> cluster" where
  "remove_object (OBackupConfiguration x) c = c\<lparr>cl_Confs := (cl_Confs c)(meta_key (bc_Meta x) := None)\<rparr>"
| "remove_object (OWorkload k x) c =
     c\<lparr>cl_Workloads := (cl_Workloads c)((k, meta_key (wl_Meta x)) := None)\<rparr>"
| "remove_object (OCronJob x) c = c\<lparr>cl_CronJobs := (cl_CronJobs c)(meta_key (cj_Meta x) := None)\<rparr>"
| "remove_object (OServiceAccount x) c =
     c\<lparr>cl_ServiceAccounts := (cl_ServiceAccounts c)(meta_key (sa_Meta x) := None)\<rparr>"
| "remove_object (ORole x) c = c\<lparr>cl_Roles := (cl_Roles c)(meta_key (ro_Meta x) := None)\<rparr>"
| "remove_object (ORoleBinding x) c = c\<lparr>cl_RoleBindings := (cl_RoleBindings c)(meta_key (rb_Meta x) := None)\<rparr>"
| "remove_object (OClusterRole x) c = c\<lparr>cl_ClusterRoles := (cl_ClusterRoles c)(om_Name (ro_Meta x) := None)\<rparr>"
| "remove_object (OClusterRoleBinding x) c =
     c\<lparr>cl_ClusterRoleBindings := (cl_ClusterRoleBindings c)(om_Name (rb_Meta x) := None)\<rparr>"
| "remove_object _ c = c"

text \<open>
  \<open>Update\<close> writes all but the status, and completes the deletion of an object that is being
  deleted and is left without finalizers; \<open>Status().Update\<close> writes the status alone. The operator
  removes finalizers of configurations only, and the other kinds kept here have no status.
\<close>

fun update_object :: "kobject \<Rightarrow> cluster \<Rightarrow> cluster" where
  "update_object (OBackupConfiguration x) c =
     c\<lparr>cl_Confs := (cl_Confs c)(meta_key (bc_Meta x) :=
       (case cl_Confs c (meta_key (bc_Meta x)) of None \<Rightarrow> None
        | Some x0 \<Rightarrow> if \<not> ptr_IsZero (om_DeletionTimestamp (bc_Meta x0)) \<and> om_Finalizers (bc_Meta x) = [] then None
            else Some (x\<lparr>bc_Status := bc_Status x0\<rparr>)))\<rparr>"
| "update_object x c = put_object x c"

fun status_object :: "kobject \<Rightarrow> cluster \<Rightarrow> cluster" where
  "status_object (OBackupConfiguration x) c =
     c\<lparr>cl_Confs := (cl_Confs c)(meta_key (bc_Meta x) :=
       map_option (\<lambda>x0. x0\<lparr>bc_Status := bc_Status x\<rparr>) (cl_Confs c (meta_key (bc_Meta x))))\<rparr>"
| "status_object x c = c"

definition answer_of :: "'a option \<Rightarrow> api_error + 'a" where
  "answer_of x = (case x of None \<Rightarrow> Inl NotFound | Some a \<Rightarrow> Inr a)"

lemma answer_of_simps [simp]: "answer_of None = Inl NotFound" "answer_of (Some a) = Inr a"
  by (simp_all add: answer_of_def)

text \<open>Reads answer what is stored and change nothing.\<close>

definition read_laws :: "'w api \<Rightarrow> ('w \<Rightarrow> cluster) \<Rightarrow> bool" where
  "read_laws A view \<longleftrightarrow>
     (\<forall>k w. api_BackupConfiguration A k w = (answer_of (cl_Confs (view w) k), w)) \<and>
     (\<forall>k w. api_Repo A k w = (answer_of (cl_Repos (view w) k), w)) \<and>
     (\<forall>wk k w. api_Workload A (Some wk) k w = (answer_of (cl_Workloads (view w) (wk, k)), w)) \<and>
     (\<forall>k w. api_CronJob A k w = (answer_of (cl_CronJobs (view w) k), w)) \<and>
     (\<forall>k w. api_ServiceAccount A k w = (answer_of (cl_ServiceAccounts (view w) k), w)) \<and>
     (\<forall>k w. api_Role A k w = (answer_of (cl_Roles (view w) k), w)) \<and>
     (\<forall>k w. api_RoleBinding A k w = (answer_of (cl_RoleBindings (view w) k), w)) \<and>
     (\<forall>k w. api_ClusterRole A k w = (answer_of (cl_ClusterRoles (view w) (snd k)), w)) \<and>
     (\<forall>k w. api_ClusterRoleBinding A k w = (answer_of (cl_ClusterRoleBindings (view w) (snd k)), w))"

text \<open>One write: what it does when its condition holds, and that it fails without effect otherwise.\<close>

definition write_law :: "(kobject \<Rightarrow> ('w, unit) answer) \<Rightarrow> ('w \<Rightarrow> cluster) \<Rightarrow> (kobject \<Rightarrow> cluster \<Rightarrow> bool) \<Rightarrow>
    (kobject \<Rightarrow> cluster \<Rightarrow> cluster) \<Rightarrow> bool" where
  "write_law f view can effect \<longleftrightarrow> (\<forall>x w. \<exists>r w'. f x w = (r, w') \<and>
     (if can x (view w) then r = Inr () \<and> view w' = effect x (view w) else r \<noteq> Inr () \<and> view w' = view w))"

definition client_laws :: "'w api \<Rightarrow> ('w \<Rightarrow> cluster) \<Rightarrow> bool" where
  "client_laws A view \<longleftrightarrow> read_laws A view \<and>
     write_law (api_Create A) view (\<lambda>x c. \<not> exists_object x c) put_object \<and>
     write_law (api_Update A) view exists_object update_object \<and>
     write_law (api_Delete A) view exists_object remove_object \<and>
     write_law (api_StatusUpdate A) view exists_object status_object"

subsection \<open>Executing calls under the laws\<close>

lemma read_lawsD:
  assumes "client_laws A view"
  shows "api_BackupConfiguration A k w = (answer_of (cl_Confs (view w) k), w)"
    "api_Repo A k w = (answer_of (cl_Repos (view w) k), w)"
    "api_Workload A (Some wk) k w = (answer_of (cl_Workloads (view w) (wk, k)), w)"
    "api_CronJob A k w = (answer_of (cl_CronJobs (view w) k), w)"
    "api_ServiceAccount A k w = (answer_of (cl_ServiceAccounts (view w) k), w)"
    "api_Role A k w = (answer_of (cl_Roles (view w) k), w)"
    "api_RoleBinding A k w = (answer_of (cl_RoleBindings (view w) k), w)"
    "api_ClusterRole A k w = (answer_of (cl_ClusterRoles (view w) (snd k)), w)"
    "api_ClusterRoleBinding A k w = (answer_of (cl_ClusterRoleBindings (view w) (snd k)), w)"
  using assms unfolding client_laws_def read_laws_def by blast+

lemma write_law_ok:
  assumes "write_law f view can effect" "can x (view w)"
  shows "\<exists>w'. call (f x) w = (Ret (), w') \<and> view w' = effect x (view w)"
proof -
  obtain r w' where "f x w = (r, w')" "r = Inr ()" "view w' = effect x (view w)"
    using assms unfolding write_law_def by metis
  then show ?thesis by (auto simp: call_def)
qed

lemma create_ok:
  "client_laws A view \<Longrightarrow> \<not> exists_object x (view w) \<Longrightarrow>
   \<exists>w'. call (api_Create A x) w = (Ret (), w') \<and> view w' = put_object x (view w)"
  unfolding client_laws_def by (blast intro: write_law_ok [where can = "\<lambda>x c. \<not> exists_object x c"])

lemma update_ok:
  "client_laws A view \<Longrightarrow> exists_object x (view w) \<Longrightarrow>
   \<exists>w'. call (api_Update A x) w = (Ret (), w') \<and> view w' = update_object x (view w)"
  unfolding client_laws_def by (blast intro: write_law_ok [where can = exists_object])

lemma delete_ok:
  "client_laws A view \<Longrightarrow> exists_object x (view w) \<Longrightarrow>
   \<exists>w'. call (api_Delete A x) w = (Ret (), w') \<and> view w' = remove_object x (view w)"
  unfolding client_laws_def by (blast intro: write_law_ok [where can = exists_object])

lemma status_update_ok:
  "client_laws A view \<Longrightarrow> exists_object x (view w) \<Longrightarrow>
   \<exists>w'. call (api_StatusUpdate A x) w = (Ret (), w') \<and> view w' = status_object x (view w)"
  unfolding client_laws_def by (blast intro: write_law_ok [where can = exists_object])

subsection \<open>A client that satisfies the laws\<close>

definition mem_write :: "(kobject \<Rightarrow> cluster \<Rightarrow> bool) \<Rightarrow> (kobject \<Rightarrow> cluster \<Rightarrow> cluster) \<Rightarrow>
    kobject \<Rightarrow> (cluster, unit) answer" where
  "mem_write can effect x c = (if can x c then (Inr (), effect x c) else (Inl (OtherError ''conflict''), c))"

definition mem_api :: "cluster api" where
  "mem_api = \<lparr>
     api_BackupConfiguration = (\<lambda>k c. (answer_of (cl_Confs c k), c)),
     api_BackupSession = (\<lambda>_ c. (Inl NotFound, c)), api_RestoreSession = (\<lambda>_ c. (Inl NotFound, c)),
     api_Repo = (\<lambda>k c. (answer_of (cl_Repos c k), c)),
     api_Workload = (\<lambda>wk k c. (case wk of None \<Rightarrow> Inl (OtherError ''nil object'')
       | Some wk' \<Rightarrow> answer_of (cl_Workloads c (wk', k)), c)),
     api_CronJob = (\<lambda>k c. (answer_of (cl_CronJobs c k), c)),
     api_ServiceAccount = (\<lambda>k c. (answer_of (cl_ServiceAccounts c k), c)),
     api_Role = (\<lambda>k c. (answer_of (cl_Roles c k), c)),
     api_RoleBinding = (\<lambda>k c. (answer_of (cl_RoleBindings c k), c)),
     api_ClusterRole = (\<lambda>k c. (answer_of (cl_ClusterRoles c (snd k)), c)),
     api_ClusterRoleBinding = (\<lambda>k c. (answer_of (cl_ClusterRoleBindings c (snd k)), c)),
     api_ListBackupSessions = (\<lambda>_ _ c. (Inr [], c)),
     api_Create = mem_write (\<lambda>x c. \<not> exists_object x c) put_object,
     api_Update = mem_write exists_object update_object,
     api_Delete = mem_write exists_object remove_object,
     api_StatusUpdate = mem_write exists_object status_object\<rparr>"

lemma mem_write_law: "write_law (mem_write can effect) (\<lambda>c. c) can effect"
  by (simp add: write_law_def mem_write_def)

lemma mem_api_laws: "client_laws mem_api (\<lambda>c. c)"
  by (simp add: client_laws_def read_laws_def) (simp add: mem_api_def mem_write_law)

definition empty_cluster :: cluster where
  "empty_cluster = \<lparr>cl_Confs = Map.empty, cl_Repos = Map.empty, cl_Workloads = Map.empty,
     cl_CronJobs = Map.empty, cl_ServiceAccounts = Map.empty, cl_Roles = Map.empty,
     cl_RoleBindings = Map.empty, cl_ClusterRoles = Map.empty, cl_ClusterRoleBindings = Map.empty\<rparr>"

subsection \<open>Objects are stored under their own key\<close>

definition well_keyed :: "cluster \<Rightarrow> bool" where
  "well_keyed c \<longleftrightarrow>
     (\<forall>k x. cl_Confs c k = Some x \<longrightarrow> meta_key (bc_Meta x) = k) \<and>
     (\<forall>wk k x. cl_Workloads c (wk, k) = Some x \<longrightarrow> meta_key (wl_Meta x) = k) \<and>
     (\<forall>k x. cl_CronJobs c k = Some x \<longrightarrow> meta_key (cj_Meta x) = k) \<and>
     (\<forall>k x. cl_ServiceAccounts c k = Some x \<longrightarrow> meta_key (sa_Meta x) = k) \<and>
     (\<forall>k x. cl_Roles c k = Some x \<longrightarrow> meta_key (ro_Meta x) = k) \<and>
     (\<forall>k x. cl_RoleBindings c k = Some x \<longrightarrow> meta_key (rb_Meta x) = k) \<and>
     (\<forall>n x. cl_ClusterRoles c n = Some x \<longrightarrow> om_Name (ro_Meta x) = n) \<and>
     (\<forall>n x. cl_ClusterRoleBindings c n = Some x \<longrightarrow> om_Name (rb_Meta x) = n)"

lemma well_keyedD:
  assumes "well_keyed c"
  shows "cl_Confs c k = Some conf \<Longrightarrow> meta_key (bc_Meta conf) = k"
    "cl_Workloads c (wk, k) = Some wl \<Longrightarrow> meta_key (wl_Meta wl) = k"
    "cl_CronJobs c k = Some cj \<Longrightarrow> meta_key (cj_Meta cj) = k"
    "cl_ServiceAccounts c k = Some sa \<Longrightarrow> meta_key (sa_Meta sa) = k"
    "cl_Roles c k = Some r \<Longrightarrow> meta_key (ro_Meta r) = k"
    "cl_RoleBindings c k = Some b \<Longrightarrow> meta_key (rb_Meta b) = k"
    "cl_ClusterRoles c n = Some cr \<Longrightarrow> om_Name (ro_Meta cr) = n"
    "cl_ClusterRoleBindings c n = Some cb \<Longrightarrow> om_Name (rb_Meta cb) = n"
  using assms unfolding well_keyed_def by blast+

lemma well_keyed_put: "well_keyed c \<Longrightarrow> well_keyed (put_object x c)"
  unfolding well_keyed_def by (cases x) auto

lemma well_keyed_remove: "well_keyed c \<Longrightarrow> well_keyed (remove_object x c)"
  unfolding well_keyed_def by (cases x) auto

lemma well_keyed_empty: "well_keyed empty_cluster"
  by (simp add: well_keyed_def empty_cluster_def)

end
