(* ===== verification/SessionStore.thy ===== *)
theory SessionStore
  imports Manager Cluster "HOL-Library.AList"
begin

section \<open>Several sessions in one namespace\<close>

text \<open>
  The sessions and configurations of a cluster, as the session controller sees them through its
  client: reads, the list by the field index that \<open>setupBackupSession\<close> installs, and the update
  of a status (\<open>session_laws\<close>). A reconciliation of one session is one step on the store; the
  section shows what the guard \<open>isBackupOngoing\<close> gives for two of them.
\<close>

text \<open>
  The effects of a write on the stored session of the same key: the status subresource is written
  by \<open>Status().Update\<close> alone, everything else by \<open>Update\<close>.
\<close>

definition put_status :: "backup_session \<Rightarrow> (object_key \<rightharpoonup> backup_session) \<Rightarrow> (object_key \<rightharpoonup> backup_session)" where
  "put_status s m = (case m (meta_key (bs_Meta s)) of None \<Rightarrow> m
     | Some s0 \<Rightarrow> m(meta_key (bs_Meta s) \<mapsto> s0\<lparr>bs_Status := bs_Status s\<rparr>))"

definition put_session :: "backup_session \<Rightarrow> (object_key \<rightharpoonup> backup_session) \<Rightarrow> (object_key \<rightharpoonup> backup_session)" where
  "put_session s m = (case m (meta_key (bs_Meta s)) of None \<Rightarrow> m
     | Some s0 \<Rightarrow> m(meta_key (bs_Meta s) \<mapsto> s\<lparr>bs_Status := bs_Status s0\<rparr>))"

definition session_laws :: "'w api \<Rightarrow> ('w \<Rightarrow> object_key \<rightharpoonup> backup_session) \<Rightarrow>
    ('w \<Rightarrow> object_key \<rightharpoonup> backup_configuration) \<Rightarrow> bool" where
  "session_laws A sessions confs \<longleftrightarrow>
     (\<forall>k w. api_BackupSession A k w = (answer_of (sessions w k), w)) \<and>
     (\<forall>k w. api_BackupConfiguration A k w = (answer_of (confs w k), w)) \<and>
     (\<forall>ns v w. \<exists>xs. api_ListBackupSessions A ns v w = (Inr xs, w) \<and>
        set xs = {s. \<exists>n. sessions w (ns, n) = Some s \<and> v \<in> set (sessionStateIndex s)}) \<and>
     (\<forall>s w. meta_key (bs_Meta s) \<in> dom (sessions w) \<longrightarrow>
        (\<exists>w'. api_StatusUpdate A (OBackupSession s) w = (Inr (), w') \<and>
           sessions w' = put_status s (sessions w) \<and> confs w' = confs w))"

lemma session_lawsD:
  assumes "session_laws A sessions confs"
  shows "api_BackupSession A k w = (answer_of (sessions w k), w)"
    "api_BackupConfiguration A k w = (answer_of (confs w k), w)"
    "\<exists>xs. api_ListBackupSessions A ns v w = (Inr xs, w) \<and>
       set xs = {s. \<exists>n. sessions w (ns, n) = Some s \<and> v \<in> set (sessionStateIndex s)}"
    "meta_key (bs_Meta s) \<in> dom (sessions w) \<Longrightarrow>
       \<exists>w'. api_StatusUpdate A (OBackupSession s) w = (Inr (), w') \<and>
         sessions w' = put_status s (sessions w) \<and> confs w' = confs w"
  using assms unfolding session_laws_def by blast+

text \<open>What the controller writes when it starts a session.\<close>

definition started_session :: "(nat \<Rightarrow> go_time) \<Rightarrow> backup_configuration \<Rightarrow> backup_session \<Rightarrow> backup_session" where
  "started_session now conf s = with_state Initializing (with_targets (initSession now conf) s)"

lemma started_session_sel [simp]:
  "bs_Meta (started_session now conf s) = bs_Meta s" "bs_Spec (started_session now conf s) = bs_Spec s"
  "bst_SessionState (bs_Status (started_session now conf s)) = Initializing"
  by (simp_all add: started_session_def with_state_def with_targets_def)

definition none_running :: "string \<Rightarrow> (object_key \<rightharpoonup> backup_session) \<Rightarrow> bool" where
  "none_running ns m \<longleftrightarrow> (\<forall>n s. m (ns, n) = Some s \<longrightarrow> bst_SessionState (bs_Status s) \<noteq> Running)"

lemma state_string_Running: "decoded_state st \<Longrightarrow> state_string st = ''Running'' \<longleftrightarrow> st = Running"
proof -
  have "state_of_string ''Running'' = Running" by code_simp
  then show "decoded_state st \<Longrightarrow> state_string st = ''Running'' \<longleftrightarrow> st = Running"
    unfolding decoded_state_def by (metis state_string.simps(5))
qed

lemma listed_running:
  assumes "session_laws A sessions confs"
    and "\<forall>k s. sessions w k = Some s \<longrightarrow> decoded_state (bst_SessionState (bs_Status s))"
  shows "\<exists>ongoing. isBackupOngoing A conf w = (Ret ongoing, w) \<and>
    (ongoing \<longleftrightarrow> \<not> none_running (om_Namespace (bc_Meta conf)) (sessions w))"
proof -
  let ?ns = "om_Namespace (bc_Meta conf)"
  obtain xs where xs: "api_ListBackupSessions A ?ns ''Running'' w = (Inr xs, w)"
    "set xs = {s. \<exists>n. sessions w (?ns, n) = Some s \<and> ''Running'' \<in> set (sessionStateIndex s)}"
    using session_lawsD(3) [OF assms(1)] by blast
  have "xs \<noteq> [] \<longleftrightarrow> (\<exists>s. s \<in> set xs)" by (cases xs) auto
  also have "\<dots> \<longleftrightarrow> \<not> none_running ?ns (sessions w)"
    using assms(2) state_string_Running unfolding xs(2) none_running_def sessionStateIndex_def by fastforce
  finally show ?thesis using xs(1) by (simp add: isBackupOngoing_def go_exec)
qed

lemma reconcile_new:
  assumes laws: "session_laws A sessions confs" and decoded: "\<forall>k s. sessions w k = Some s \<longrightarrow> decoded_state (bst_SessionState (bs_Status s))"
    and s: "sessions w k = Some s" "meta_key (bs_Meta s) = k" "tracked L s" "bst_SessionState (bs_Status s) = New"
    and conf: "confs w (bss_Ref (bs_Spec s)) = Some conf"
  shows "if none_running (om_Namespace (bc_Meta conf)) (sessions w)
    then \<exists>w'. reconcileBackupSession L A now k w = (Ret no_requeue, w') \<and>
      sessions w' = (sessions w)(k \<mapsto> started_session now conf s) \<and> confs w' = confs w
    else reconcileBackupSession L A now k w = (Ret \<lparr>RequeueAfter = 30\<rparr>, w)"
proof -
  obtain ongoing where ongoing: "isBackupOngoing A conf w = (Ret ongoing, w)"
    "ongoing \<longleftrightarrow> \<not> none_running (om_Namespace (bc_Meta conf)) (sessions w)"
    using listed_running [OF laws decoded] by blast
  have "reconcileBackupSession L A now k w = backupSessionAdvance L A now conf s w"
    using s(3) by (simp add: reconcileBackupSession_def backupSessionDeletion_def tracked_def bind_go_run try_go_run
        call_run session_lawsD(1,2) [OF laws] s(1) conf)
  also have "\<dots> = (if ongoing then (Ret \<lparr>RequeueAfter = 30\<rparr>, w) else
      bind_go (call (api_StatusUpdate A (OBackupSession (started_session now conf s)))) (\<lambda>_. ret no_requeue) w)"
    using s(3,4) ongoing(1) by (simp add: backupSessionAdvance_def tracked_def backupSessionSwitch_def
        bind_go_run ret_run started_session_def)
  finally have run: "reconcileBackupSession L A now k w = \<dots>" .
  obtain w' where "api_StatusUpdate A (OBackupSession (started_session now conf s)) w = (Inr (), w')"
    "sessions w' = put_status (started_session now conf s) (sessions w)" "confs w' = confs w"
    using session_lawsD(4) [OF laws, of "started_session now conf s" w] s(1,2) by (auto simp: dom_def)
  moreover have "put_status (started_session now conf s) (sessions w) = (sessions w)(k \<mapsto> started_session now conf s)"
    using s(1,2) by (simp add: put_status_def started_session_def with_state_def with_targets_def)
  ultimately show ?thesis using run ongoing(2) by (simp add: bind_go_run call_run ret_run)
qed

subsection \<open>A store that satisfies the laws\<close>

type_synonym store = "(object_key \<times> backup_session) list \<times> (object_key \<rightharpoonup> backup_configuration)"

definition store_write :: "(backup_session \<Rightarrow> backup_session \<Rightarrow> backup_session) \<Rightarrow> kobject \<Rightarrow> (store, unit) answer" where
  "store_write f x w = (case x of
       OBackupSession s \<Rightarrow> (case map_of (fst w) (meta_key (bs_Meta s)) of
           None \<Rightarrow> (Inl NotFound, w)
         | Some s0 \<Rightarrow> (Inr (), (AList.update (meta_key (bs_Meta s)) (f s s0) (fst w), snd w)))
     | _ \<Rightarrow> (Inl (OtherError ''no kind''), w))"

definition store_api :: "store api" where
  "store_api = \<lparr>
     api_BackupConfiguration = (\<lambda>k w. (answer_of (snd w k), w)),
     api_BackupSession = (\<lambda>k w. (answer_of (map_of (fst w) k), w)),
     api_RestoreSession = (\<lambda>_ w. (Inl NotFound, w)), api_Repo = (\<lambda>_ w. (Inl NotFound, w)),
     api_Workload = (\<lambda>_ _ w. (Inl NotFound, w)), api_CronJob = (\<lambda>_ w. (Inl NotFound, w)),
     api_ServiceAccount = (\<lambda>_ w. (Inl NotFound, w)), api_Role = (\<lambda>_ w. (Inl NotFound, w)),
     api_RoleBinding = (\<lambda>_ w. (Inl NotFound, w)), api_ClusterRole = (\<lambda>_ w. (Inl NotFound, w)),
     api_ClusterRoleBinding = (\<lambda>_ w. (Inl NotFound, w)),
     api_ListBackupSessions = (\<lambda>ns v w. (Inr (remdups (map snd (filter
       (\<lambda>(k, s). fst k = ns \<and> v \<in> set (sessionStateIndex s)) (AList.clearjunk (fst w))))), w)),
     api_Create = (\<lambda>_ w. (Inr (), w)),
     api_Update = store_write (\<lambda>s s0. s\<lparr>bs_Status := bs_Status s0\<rparr>),
     api_Delete = (\<lambda>x w. case x of
         OBackupSession s \<Rightarrow> (Inr (), (AList.delete (meta_key (bs_Meta s)) (fst w), snd w))
       | _ \<Rightarrow> (Inl (OtherError ''no kind''), w)),
     api_StatusUpdate = store_write (\<lambda>s s0. s0\<lparr>bs_Status := bs_Status s\<rparr>)\<rparr>"

lemma set_clearjunk: "(k, v) \<in> set (AList.clearjunk al) \<longleftrightarrow> map_of al k = Some v"
  by (metis distinct_clearjunk map_of_clearjunk map_of_eq_Some_iff)

lemma store_api_laws: "session_laws store_api (\<lambda>w. map_of (fst w)) snd"
proof -
  have "snd ` {x \<in> set (AList.clearjunk al). fst (fst x) = ns \<and> v \<in> set (sessionStateIndex (snd x))} =
      {s. (\<exists>n. map_of al (ns, n) = Some s) \<and> v \<in> set (sessionStateIndex s)}"
    for al :: "(object_key \<times> backup_session) list" and ns v
    by (force simp: set_clearjunk image_iff)
  then show ?thesis
    by (auto simp: session_laws_def store_api_def store_write_def put_status_def AList.update_conv'
        case_prod_beta split: option.split)
qed

subsection \<open>Property\<close>

text \<open>
  C37: the guard does not keep two sessions apart. Two new sessions, of one configuration or of two,
  that have the finalizer and are not being deleted, reconciled one after the other while no session
  is running in the namespace of either configuration (which may be the same), are both started:
  the guard lists the sessions in state \<open>Running\<close>, and a session that has just been started is still
  \<open>Initializing\<close>.
\<close>

theorem two_sessions_start_together:
  assumes laws: "session_laws A sessions confs"
    and decoded: "\<forall>k s. sessions w k = Some s \<longrightarrow> decoded_state (bst_SessionState (bs_Status s))"
    and one: "sessions w k1 = Some s1" "meta_key (bs_Meta s1) = k1" "tracked L s1" "bst_SessionState (bs_Status s1) = New"
    and two: "sessions w k2 = Some s2" "meta_key (bs_Meta s2) = k2" "tracked L s2" "bst_SessionState (bs_Status s2) = New"
    and "k1 \<noteq> k2" and conf: "confs w (bss_Ref (bs_Spec s1)) = Some conf1" "confs w (bss_Ref (bs_Spec s2)) = Some conf2"
    and none: "none_running (om_Namespace (bc_Meta conf1)) (sessions w)" "none_running (om_Namespace (bc_Meta conf2)) (sessions w)"
  shows "\<exists>w1 w2. reconcileBackupSession L A now k1 w = (Ret no_requeue, w1) \<and>
    reconcileBackupSession L A now' k2 w1 = (Ret no_requeue, w2) \<and>
    sessions w2 = (sessions w)(k1 \<mapsto> started_session now conf1 s1, k2 \<mapsto> started_session now' conf2 s2)"
proof -
  obtain w1 where w1: "reconcileBackupSession L A now k1 w = (Ret no_requeue, w1)"
    "sessions w1 = (sessions w)(k1 \<mapsto> started_session now conf1 s1)" "confs w1 = confs w"
    using reconcile_new [OF laws decoded one conf(1), of now] none(1) by auto
  have "decoded_state Initializing" by (simp add: decoded_state_named named_states_def)
  then have decoded1: "\<forall>k s. sessions w1 k = Some s \<longrightarrow> decoded_state (bst_SessionState (bs_Status s))"
    using decoded by (simp add: w1(2))
  have "none_running (om_Namespace (bc_Meta conf2)) (sessions w1)" using none(2) by (simp add: none_running_def w1(2))
  moreover have "sessions w1 k2 = Some s2" using two(1) \<open>k1 \<noteq> k2\<close> by (simp add: w1(2))
  ultimately obtain w2 where "reconcileBackupSession L A now' k2 w1 = (Ret no_requeue, w2)"
    "sessions w2 = (sessions w1)(k2 \<mapsto> started_session now' conf2 s2)"
    using reconcile_new [OF laws decoded1 _ two(2-4), of conf2 now'] conf(2) w1(3) by auto
  then show ?thesis using w1(1,2) by auto
qed

text \<open>Two sessions created in the same minute, one for each of two configurations of a namespace.\<close>

definition new_session :: "string \<Rightarrow> backup_session" where
  "new_session n = \<lparr>bs_Meta = (named_meta ''demo'' n)\<lparr>om_Finalizers := [finalizerName]\<rparr>,
     bs_Spec = \<lparr>bss_Ref = (''demo'', ''backup-demo'')\<rparr>,
     bs_Status = \<lparr>bst_SessionState = New, bst_StartTime = Some (utc 0), bst_Targets = [], bst_Keep = ''''\<rparr>\<rparr>"

definition second_session :: backup_session where
  "second_session = (new_session ''second'')\<lparr>bs_Spec := \<lparr>bss_Ref = (''demo'', ''backup-second'')\<rparr>\<rparr>"

definition second_conf :: backup_configuration where
  "second_conf = one_conf\<lparr>bc_Meta := (bc_Meta one_conf)\<lparr>om_Name := ''backup-second''\<rparr>\<rparr>"

definition two_sessions :: store where
  "two_sessions = ([((''demo'', ''first''), new_session ''first''), ((''demo'', ''second''), second_session)],
     [(''demo'', ''backup-demo'') \<mapsto> one_conf, (''demo'', ''backup-second'') \<mapsto> second_conf])"

theorem two_sessions_start_together_witness:
  "\<exists>w1 w2. reconcileBackupSession sample_lib store_api (\<lambda>_. utc 9) (''demo'', ''first'') two_sessions = (Ret no_requeue, w1) \<and>
    reconcileBackupSession sample_lib store_api (\<lambda>_. utc 10) (''demo'', ''second'') w1 = (Ret no_requeue, w2) \<and>
    map_of (fst w2) (''demo'', ''first'') = Some (started_session (\<lambda>_. utc 9) one_conf (new_session ''first'')) \<and>
    map_of (fst w2) (''demo'', ''second'') = Some (started_session (\<lambda>_. utc 10) second_conf second_session)"
proof -
  have first: "tracked sample_lib (new_session n)" "meta_key (bs_Meta (new_session n)) = (''demo'', n)"
    "bst_SessionState (bs_Status (new_session n)) = New" for n
    by (simp_all add: new_session_def tracked_def meta_key_def named_meta_def ptr_IsZero_def sample_lib_def)
  have second: "tracked sample_lib second_session" "meta_key (bs_Meta second_session) = (''demo'', ''second'')"
    "bst_SessionState (bs_Status second_session) = New"
    using first [of "''second''"] by (simp_all add: second_session_def tracked_def)
  have store: "map_of (fst two_sessions) k = (if k = (''demo'', ''first'') then Some (new_session ''first'')
      else if k = (''demo'', ''second'') then Some second_session else None)" for k
    by (simp add: two_sessions_def)
  have "decoded_state New" by (simp add: decoded_state_named named_states_def)
  with store have decoded: "\<forall>k s. map_of (fst two_sessions) k = Some s \<longrightarrow> decoded_state (bst_SessionState (bs_Status s))"
    by (auto simp: first(3) second(3))
  have conf: "snd two_sessions (bss_Ref (bs_Spec (new_session ''first''))) = Some one_conf"
    "snd two_sessions (bss_Ref (bs_Spec second_session)) = Some second_conf"
    by (simp_all add: two_sessions_def new_session_def second_session_def)
  have none: "none_running ns (map_of (fst two_sessions))" for ns
    by (auto simp: none_running_def store first(3) second(3))
  show ?thesis
    using two_sessions_start_together [OF store_api_laws decoded _ first(2,1,3) _ second(2,1,3) _ conf none none,
        of "\<lambda>_. utc 9" "\<lambda>_. utc 10"]
    by (auto simp: store second)
qed

end
