(* ===== verification/SystemRun.thy ===== *)
theory SystemRun
  imports SessionStore
begin

section \<open>Runs of the system: the controller, the sidecars and the users on one store\<close>

text \<open>
  The stored sessions of a cluster under everything that happens to them: reconciliations of any
  session in any order, reports of the sidecars, the creation of sessions (by the cron job) and
  requests to delete them. The client may answer any call with an error, for instance a conflict;
  if it accepts a write, the effect is the documented one (\<open>shared_store\<close>). The configurations do
  not change during a run. Every stored session then is a state of the session machine that is
  reachable in the sense of theory SessionMachine, and no reconciliation panics.

  A reconciliation is one step. A report that comes in between the read and the write of a
  reconciliation makes the write fail with a conflict, which is one of the answers allowed here.
\<close>

subsection \<open>What is relied on of the client\<close>

definition remove_session :: "backup_session \<Rightarrow> (object_key \<rightharpoonup> backup_session) \<Rightarrow> (object_key \<rightharpoonup> backup_session)" where
  "remove_session s m = m(meta_key (bs_Meta s) := None)"

definition mark_deleted :: "go_time \<Rightarrow> backup_session \<Rightarrow> (object_key \<rightharpoonup> backup_session) \<Rightarrow> (object_key \<rightharpoonup> backup_session)" where
  "mark_deleted t s m = (case m (meta_key (bs_Meta s)) of None \<Rightarrow> m
     | Some s0 \<Rightarrow> m(meta_key (bs_Meta s) \<mapsto> s0\<lparr>bs_Meta := (bs_Meta s0)\<lparr>om_DeletionTimestamp := Some t\<rparr>\<rparr>))"

text \<open>The last finalizer of a session that is being deleted gone, the session goes with the update.\<close>

definition write_effects :: "(kobject \<Rightarrow> ('w, unit) answer) \<Rightarrow> ('w \<Rightarrow> object_key \<rightharpoonup> backup_session) \<Rightarrow>
    ('w \<Rightarrow> object_key \<rightharpoonup> backup_configuration) \<Rightarrow>
    (backup_session \<Rightarrow> (object_key \<rightharpoonup> backup_session) \<Rightarrow> (object_key \<rightharpoonup> backup_session) set) \<Rightarrow> bool" where
  "write_effects f sessions confs effects \<longleftrightarrow> (\<forall>s w. \<exists>r w'. f (OBackupSession s) w = (r, w') \<and>
     confs w' = confs w \<and> sessions w' \<in> insert (sessions w) (effects s (sessions w)))"

definition shared_store :: "'w api \<Rightarrow> ('w \<Rightarrow> object_key \<rightharpoonup> backup_session) \<Rightarrow>
    ('w \<Rightarrow> object_key \<rightharpoonup> backup_configuration) \<Rightarrow> bool" where
  "shared_store A sessions confs \<longleftrightarrow>
     (\<forall>k w. \<exists>r. api_BackupSession A k w = (r, w) \<and> (\<forall>s. r = Inr s \<longrightarrow> sessions w k = Some s)) \<and>
     (\<forall>k w. \<exists>r. api_BackupConfiguration A k w = (r, w) \<and> (\<forall>conf. r = Inr conf \<longrightarrow> confs w k = Some conf)) \<and>
     (\<forall>ns v w. \<exists>r. api_ListBackupSessions A ns v w = (r, w) \<and> (\<forall>xs. r = Inr xs \<longrightarrow>
        set xs \<subseteq> {s. \<exists>n. sessions w (ns, n) = Some s \<and> v \<in> set (sessionStateIndex s)})) \<and>
     (\<forall>j w. \<exists>r w'. api_Create A (OJob j) w = (r, w') \<and> sessions w' = sessions w \<and> confs w' = confs w) \<and>
     write_effects (api_Update A) sessions confs (\<lambda>s m. {put_session s m, remove_session s m}) \<and>
     write_effects (api_Delete A) sessions confs (\<lambda>s m. insert (remove_session s m) {mark_deleted t s m | t. True}) \<and>
     write_effects (api_StatusUpdate A) sessions confs (\<lambda>s m. {put_status s m}) \<and>
     (\<forall>ns v w xs. fst (api_ListBackupSessions A ns v w) = Inr xs \<longrightarrow> distinct xs)"

lemma shared_storeD:
  assumes "shared_store A sessions confs"
  shows "\<exists>r. api_BackupSession A k w = (r, w) \<and> (\<forall>s. r = Inr s \<longrightarrow> sessions w k = Some s)"
    "\<exists>r. api_BackupConfiguration A k w = (r, w) \<and> (\<forall>conf. r = Inr conf \<longrightarrow> confs w k = Some conf)"
    "\<exists>r. api_ListBackupSessions A ns v w = (r, w) \<and> (\<forall>xs. r = Inr xs \<longrightarrow>
        set xs \<subseteq> {s. \<exists>n. sessions w (ns, n) = Some s \<and> v \<in> set (sessionStateIndex s)})"
    "\<exists>r w'. api_Create A (OJob j) w = (r, w') \<and> sessions w' = sessions w \<and> confs w' = confs w"
    "write_effects (api_Update A) sessions confs (\<lambda>s m. {put_session s m, remove_session s m})"
    "write_effects (api_Delete A) sessions confs (\<lambda>s m. insert (remove_session s m) {mark_deleted t s m | t. True})"
    "write_effects (api_StatusUpdate A) sessions confs (\<lambda>s m. {put_status s m})"
    "fst (api_ListBackupSessions A ns v w) = Inr xs \<Longrightarrow> distinct xs"
  using assms unfolding shared_store_def by blast+

lemma answer_of_Inr [simp]: "answer_of x = Inr a \<longleftrightarrow> x = Some a"
  by (cases x) simp_all

lemma store_write_effects:
  assumes "\<And>s s0 m. m (meta_key (bs_Meta s)) = Some s0 \<Longrightarrow> m(meta_key (bs_Meta s) \<mapsto> f s s0) \<in> E s m"
  shows "write_effects (store_write f) (\<lambda>w. map_of (fst w)) snd E"
  using assms by (auto simp: write_effects_def store_write_def AList.update_conv' split: option.split)

lemma store_api_shared: "shared_store store_api (\<lambda>w. map_of (fst w)) snd"
proof -
  have list: "\<exists>r. api_ListBackupSessions store_api ns v w = (r, w) \<and> (\<forall>xs. r = Inr xs \<longrightarrow>
      set xs \<subseteq> {s. \<exists>n. map_of (fst w) (ns, n) = Some s \<and> v \<in> set (sessionStateIndex s)})" for ns v w
    using session_lawsD(3) [OF store_api_laws, of ns v w] by auto
  have create: "\<exists>r w'. api_Create store_api (OJob j) w = (r, w') \<and> map_of (fst w') = map_of (fst w) \<and> snd w' = snd w" for j w
    by (intro exI [of _ "Inr ()"] exI [of _ w]) (simp add: store_api_def)
  have sel: "api_Update store_api = store_write (\<lambda>s s0. s\<lparr>bs_Status := bs_Status s0\<rparr>)"
    "api_StatusUpdate store_api = store_write (\<lambda>s s0. s0\<lparr>bs_Status := bs_Status s\<rparr>)"
    by (simp_all add: store_api_def)
  show ?thesis
    unfolding shared_store_def sel
  proof (intro conjI allI store_write_effects)
    show "write_effects (api_Delete store_api) (\<lambda>w. map_of (fst w)) snd
        (\<lambda>s m. insert (remove_session s m) {mark_deleted t s m | t. True})"
      by (simp add: store_api_def write_effects_def remove_session_def AList.delete_conv')
    show "fst (api_ListBackupSessions store_api ns v w) = Inr xs \<longrightarrow> distinct xs" for ns v w xs
      by (auto simp: store_api_def)
  qed (use list create in \<open>simp_all add: session_lawsD(1,2) [OF store_api_laws] put_session_def put_status_def\<close>)
qed

subsection \<open>The invariant of the store\<close>

text \<open>
  A stored session has its own key, has a start time once it has left the empty state, and is a
  reachable state of the machine of its configuration.
\<close>

definition good_session :: "(target_status \<Rightarrow> target_status \<Rightarrow> bool) \<Rightarrow> (object_key \<rightharpoonup> backup_configuration) \<Rightarrow>
    backup_session \<Rightarrow> bool" where
  "good_session side c s \<longleftrightarrow>
     (bst_SessionState (bs_Status s) \<noteq> Unset \<longrightarrow> bst_StartTime (bs_Status s) \<noteq> None) \<and>
     (\<forall>conf. c (bss_Ref (bs_Spec s)) = Some conf \<longrightarrow> reachable side conf (bs_machine s))"

definition sound :: "(target_status \<Rightarrow> target_status \<Rightarrow> bool) \<Rightarrow> (object_key \<rightharpoonup> backup_configuration) \<Rightarrow>
    (object_key \<rightharpoonup> backup_session) \<Rightarrow> bool" where
  "sound side c m \<longleftrightarrow> (\<forall>k s. m k = Some s \<longrightarrow> meta_key (bs_Meta s) = k \<and> good_session side c s)"

lemma soundD: "sound side c m \<Longrightarrow> m k = Some s \<Longrightarrow> meta_key (bs_Meta s) = k \<and> good_session side c s"
  unfolding sound_def by blast

lemma good_session_status:
  "good_session side c s \<Longrightarrow> bs_Spec s' = bs_Spec s \<Longrightarrow> bs_Status s' = bs_Status s \<Longrightarrow> good_session side c s'"
  by (simp add: good_session_def bs_machine_def)

text \<open>
  What a session becomes: its spec stays, the finalizer goes only from a session that is being
  deleted, and its state and targets take steps of the machine; without a configuration its state
  stays.
\<close>

definition protected :: "lib \<Rightarrow> backup_session \<Rightarrow> bool" where
  "protected L s \<longleftrightarrow> ContainsFinalizer L (om_Finalizers (bs_Meta s)) finalizerName \<or>
     om_DeletionTimestamp (bs_Meta s) \<noteq> None"

definition becomes :: "lib \<Rightarrow> (target_status \<Rightarrow> target_status \<Rightarrow> bool) \<Rightarrow> (object_key \<rightharpoonup> backup_configuration) \<Rightarrow>
    backup_session \<Rightarrow> backup_session \<Rightarrow> bool" where
  "becomes L side c s s' \<longleftrightarrow> bs_Spec s' = bs_Spec s \<and> (protected L s \<longrightarrow> protected L s') \<and>
     (c (bss_Ref (bs_Spec s)) = None \<longrightarrow> bst_SessionState (bs_Status s') = bst_SessionState (bs_Status s)) \<and>
     (\<forall>conf. c (bss_Ref (bs_Spec s)) = Some conf \<longrightarrow> (machine_step side conf)\<^sup>*\<^sup>* (bs_machine s) (bs_machine s'))"

lemma becomes_refl [simp]: "becomes L side c s s"
  by (simp add: becomes_def)

lemma becomes_trans [trans]: "becomes L side c s s' \<Longrightarrow> becomes L side c s' s'' \<Longrightarrow> becomes L side c s s''"
  by (auto simp: becomes_def intro: rtranclp_trans)

lemma becomes_same_machine:
  "bs_Spec s' = bs_Spec s \<Longrightarrow> bs_machine s' = bs_machine s \<Longrightarrow> protected L s \<longrightarrow> protected L s' \<Longrightarrow>
   becomes L side c s s'"
  by (simp add: becomes_def bs_machine_def)

text \<open>
  A store \<open>m'\<close> that comes from \<open>m\<close>: it is sound, and what a key holds now, it held in \<open>m\<close> and
  became since.
\<close>

definition comes_from :: "lib \<Rightarrow> (target_status \<Rightarrow> target_status \<Rightarrow> bool) \<Rightarrow> (object_key \<rightharpoonup> backup_configuration) \<Rightarrow>
    (object_key \<rightharpoonup> backup_session) \<Rightarrow> (object_key \<rightharpoonup> backup_session) \<Rightarrow> bool" where
  "comes_from L side c m m' \<longleftrightarrow> sound side c m' \<and>
     (\<forall>k s'. m' k = Some s' \<longrightarrow> (\<exists>s. m k = Some s \<and> becomes L side c s s'))"

lemma comes_from_sound: "comes_from L side c m m' \<Longrightarrow> sound side c m'"
  by (simp add: comes_from_def)

lemma comes_fromD:
  "comes_from L side c m m' \<Longrightarrow> m' k = Some s' \<Longrightarrow> m k = Some s \<Longrightarrow> becomes L side c s s'"
  unfolding comes_from_def by fastforce

lemma comes_from_refl [simp]: "comes_from L side c m m \<longleftrightarrow> sound side c m"
  by (auto simp: comes_from_def)

lemma comes_from_trans [trans]:
  "comes_from L side c m m' \<Longrightarrow> comes_from L side c m' m'' \<Longrightarrow> comes_from L side c m m''"
  unfolding comes_from_def by (meson becomes_trans)

lemma comes_from_upd:
  assumes "comes_from L side c m m'" and "m k = Some s0" and "meta_key (bs_Meta s) = k"
    and "becomes L side c s0 s" and "good_session side c s"
  shows "comes_from L side c m (m'(k \<mapsto> s))"
  using assms by (simp add: sound_def comes_from_def)

lemma comes_from_remove:
  "comes_from L side c m m' \<Longrightarrow> comes_from L side c m (remove_session s m')"
  by (simp add: sound_def remove_session_def comes_from_def)

text \<open>What replaces a stored session keeps its machine where the statuses are the same.\<close>

lemma comes_from_same_machine:
  assumes m': "comes_from L side c m m'" "m' k = Some s0" and s: "meta_key (bs_Meta s) = k"
    "bs_Spec s = bs_Spec s0" "bs_Status s = bs_Status s0"
    and p: "\<And>s1. m k = Some s1 \<Longrightarrow> protected L s1 \<Longrightarrow> protected L s0 \<Longrightarrow> protected L s"
  shows "comes_from L side c m (m'(k \<mapsto> s))"
proof -
  obtain s1 where s1: "m k = Some s1" "becomes L side c s1 s0" using m' unfolding comes_from_def by blast
  with p [OF s1(1)] s have "becomes L side c s1 s" by (simp add: becomes_def bs_machine_def)
  moreover have "good_session side c s0" using soundD [OF comes_from_sound [OF m'(1)] m'(2)] by simp
  then have "good_session side c s" by (rule good_session_status) (use s in simp_all)
  ultimately show ?thesis using comes_from_upd [OF m'(1) s1(1) s(1)] by simp
qed

lemma comes_from_mark_deleted:
  assumes "comes_from L side c m m'"
  shows "comes_from L side c m (mark_deleted t s m')"
proof (cases "m' (meta_key (bs_Meta s))")
  case (Some s0)
  have "meta_key (bs_Meta s0) = meta_key (bs_Meta s)" using soundD [OF comes_from_sound [OF assms] Some] by simp
  with comes_from_same_machine [OF assms Some, of "s0\<lparr>bs_Meta := (bs_Meta s0)\<lparr>om_DeletionTimestamp := Some t\<rparr>\<rparr>"] Some
  show ?thesis by (simp add: mark_deleted_def protected_def meta_key_def)
qed (simp add: mark_deleted_def assms)

text \<open>An update of what was read, with other metadata of the same name.\<close>

lemma comes_from_put_session:
  assumes "comes_from L side c m m'" and "m (meta_key (bs_Meta s)) = Some s1" and "bs_Spec s = bs_Spec s1"
    and "protected L s1 \<longrightarrow> protected L s"
  shows "comes_from L side c m (put_session s m')"
proof (cases "m' (meta_key (bs_Meta s))")
  case (Some s0)
  let ?s = "s\<lparr>bs_Status := bs_Status s0\<rparr>"
  have "bs_Spec s0 = bs_Spec s1" using comes_fromD [OF assms(1) Some assms(2)] by (simp add: becomes_def)
  moreover have "protected L ?s \<longleftrightarrow> protected L s" by (simp add: protected_def)
  ultimately show ?thesis
    using comes_from_same_machine [OF assms(1) Some, of ?s] Some assms(2-4) by (simp add: put_session_def)
qed (simp add: put_session_def assms)

text \<open>A status that the machine reaches from the one that was read.\<close>

lemma comes_from_put_status:
  assumes "comes_from L side c m m'" and s: "good_session side c s"
    and s1: "m (meta_key (bs_Meta s)) = Some s1" "becomes L side c s1 s"
  shows "comes_from L side c m (put_status s m')"
proof (cases "m' (meta_key (bs_Meta s))")
  case (Some s0)
  let ?s = "s0\<lparr>bs_Status := bs_Status s\<rparr>"
  have "becomes L side c s1 s0" using comes_fromD [OF assms(1) Some s1(1)] .
  with s1(2) have spec: "bs_Spec s0 = bs_Spec s" and "becomes L side c s1 ?s"
    by (simp_all add: becomes_def bs_machine_def protected_def)
  moreover have "good_session side c ?s" by (rule good_session_status [OF s]) (use spec in simp_all)
  moreover have "meta_key (bs_Meta ?s) = meta_key (bs_Meta s)"
    using soundD [OF comes_from_sound [OF assms(1)] Some] by simp
  ultimately show ?thesis using comes_from_upd [OF assms(1) s1(1)] Some by (simp add: put_status_def)
qed (simp add: put_status_def assms)

subsection \<open>Writes keep the invariant\<close>

text \<open>
  \<open>holds S C L side c m w\<close>: the configurations are \<open>c\<close>, and the store comes from \<open>m\<close>.
\<close>

definition holds :: "('w \<Rightarrow> object_key \<rightharpoonup> backup_session) \<Rightarrow> ('w \<Rightarrow> object_key \<rightharpoonup> backup_configuration) \<Rightarrow>
    lib \<Rightarrow> (target_status \<Rightarrow> target_status \<Rightarrow> bool) \<Rightarrow> (object_key \<rightharpoonup> backup_configuration) \<Rightarrow>
    (object_key \<rightharpoonup> backup_session) \<Rightarrow> 'w \<Rightarrow> bool" where
  "holds S C L side c m w \<longleftrightarrow> C w = c \<and> comes_from L side c m (S w)"

definition keeps :: "('w \<Rightarrow> bool) \<Rightarrow> ('w, 'a) go \<Rightarrow> bool" where
  "keeps I p \<longleftrightarrow> (\<forall>w. I w \<longrightarrow> I (snd (p w)) \<and> fst (p w) \<noteq> Panic)"

lemma keepsI: "(\<And>w r w'. I w \<Longrightarrow> p w = (r, w') \<Longrightarrow> I w' \<and> r \<noteq> Panic) \<Longrightarrow> keeps I p"
  unfolding keeps_def by (metis prod.collapse)

lemma keepsD: "keeps I p \<Longrightarrow> I w \<Longrightarrow> p w = (r, w') \<Longrightarrow> I w' \<and> r \<noteq> Panic"
  unfolding keeps_def by fastforce

lemma keeps_ret: "keeps I (ret a)"
  by (simp add: keeps_def ret_def)

lemma keeps_bind:
  assumes "keeps I p" "\<And>a. keeps I (k a)"
  shows "keeps I (bind_go p k)"
proof (rule keepsI)
  fix w r w' assume I: "I w" and run: "bind_go p k w = (r, w')"
  obtain r1 w1 where p: "p w = (r1, w1)" by (cases "p w")
  with keepsD [OF assms(1) I] keepsD [OF assms(2)] run show "I w' \<and> r \<noteq> Panic"
    by (cases r1) (auto simp: bind_go_run)
qed

lemma keeps_ignore:
  assumes "keeps I p"
  shows "keeps I (ignore_err p)"
proof (rule keepsI)
  fix w r w' assume I: "I w" and run: "ignore_err p w = (r, w')"
  obtain r1 w1 where p: "p w = (r1, w1)" by (cases "p w")
  with keepsD [OF assms I] run show "I w' \<and> r \<noteq> Panic"
    by (cases r1) (auto simp: ignore_err_run)
qed

lemma keeps_write:
  assumes "write_effects f S C effects"
    and "\<And>w m'. I w \<Longrightarrow> m' \<in> effects s (S w) \<Longrightarrow> comes_from L side c m m'"
    and "I = holds S C L side c m"
  shows "keeps I (call (f (OBackupSession s)))"
proof (rule keepsI)
  fix w r w' assume I: "I w" and run: "call (f (OBackupSession s)) w = (r, w')"
  obtain x w'' where x: "f (OBackupSession s) w = (x, w'')" "C w'' = C w"
    "S w'' \<in> insert (S w) (effects s (S w))"
    using assms(1) unfolding write_effects_def by blast
  with run have "w'' = w'" "r \<noteq> Panic" by (auto simp: call_def split: sum.splits)
  moreover have "comes_from L side c m (S w'')"
    using x(3) assms(2) [OF I] I assms(3) by (auto simp: holds_def)
  ultimately show "I w' \<and> r \<noteq> Panic"
    using I assms(3) x(2) by (auto simp: holds_def)
qed

subsection \<open>The retention pass\<close>

lemma good_with_keep: "good_session side c s \<Longrightarrow> good_session side c (with_keep s keep)"
  by (simp add: good_session_def with_keep_def bs_machine_def)

lemma keeps_cleanupLoop:
  assumes store: "shared_store A S C" and "I = holds S C L side c m"
    and "\<And>s t. (s, t) \<in> set xs \<Longrightarrow> m (meta_key (bs_Meta s)) = Some s \<and> good_session side c s"
  shows "keeps I (cleanupLoop A n rt xs)"
  using assms(3)
proof (induction xs arbitrary: rt)
  case Nil
  then show ?case by (simp add: keeps_ret)
next
  case (Cons x xs)
  obtain s t where x: "x = (s, t)" by (cases x)
  have s: "m (meta_key (bs_Meta s)) = Some s" "good_session side c s" using Cons.prems [of s t] by (simp_all add: x)
  have IH: "keeps I (cleanupLoop A n rt' xs)" for rt' by (rule Cons.IH) (use Cons.prems in auto)
  have "keeps I (call (api_Delete A (OBackupSession s)))"
    by (rule keeps_write [OF shared_storeD(6) [OF store] _ assms(2)])
      (auto simp: assms(2) holds_def comes_from_remove comes_from_mark_deleted)
  moreover have "keeps I (call (api_StatusUpdate A (OBackupSession (with_keep s keep))))" for keep
  proof (rule keeps_write [OF shared_storeD(7) [OF store] _ assms(2)])
    fix w m' assume I: "I w" and m': "m' \<in> {put_status (with_keep s keep) (S w)}"
    have "becomes L side c s (with_keep s keep)"
      by (rule becomes_same_machine) (simp_all add: with_keep_def bs_machine_def protected_def)
    then show "comes_from L side c m m'"
      using I m' good_with_keep [OF s(2)] s(1) comes_from_put_status [of L side c m "S w" "with_keep s keep" s]
      by (simp add: assms(2) holds_def with_keep_def)
  qed
  ultimately show ?case
    using IH by (auto simp: x Let_def split: prod.split intro!: keeps_bind keeps_ignore)
qed

lemma keeps_cleanupSessions:
  assumes store: "shared_store A S C" and sort: "sort_law L"
  shows "keeps (holds S C L side c m) (cleanupSessions L A conf)"
proof (rule keepsI)
  fix w r w' assume I: "holds S C L side c m w" and run: "cleanupSessions L A conf w = (r, w')"
  let ?ns = "om_Namespace (bc_Meta conf)"
  obtain x where x: "api_ListBackupSessions A ?ns ''Success'' w = (x, w)"
    and items: "\<And>xs. x = Inr xs \<Longrightarrow> set xs \<subseteq> {s. \<exists>n. S w (?ns, n) = Some s \<and> ''Success'' \<in> set (sessionStateIndex s)}"
    using shared_storeD(3) [OF store, of ?ns "''Success''" w] by blast
  show "holds S C L side c m w' \<and> r \<noteq> Panic"
  proof (cases x)
    case (Inl e)
    with x run I show ?thesis by (auto simp: cleanupSessions_def go_exec)
  next
    case (Inr xs)
    have stored: "S w (meta_key (bs_Meta s)) = Some s \<and> good_session side c s \<and> bst_StartTime (bs_Status s) \<noteq> None"
      if "s \<in> set xs" for s
    proof -
      have "s \<in> {s. \<exists>n. S w (?ns, n) = Some s \<and> ''Success'' \<in> set (sessionStateIndex s)}"
        by (rule subsetD [OF items [OF Inr] that])
      then obtain k where k: "S w k = Some s" "''Success'' \<in> set (sessionStateIndex s)" by auto
      then have "bst_SessionState (bs_Status s) \<noteq> Unset" by (auto simp: sessionStateIndex_def)
      with k(1) I show ?thesis by (auto simp: holds_def good_session_def dest!: comes_from_sound dest: soundD)
    qed
    have "None \<notin> set (map timed xs)"
    proof
      assume "None \<in> set (map timed xs)"
      then obtain s where "s \<in> set xs" "bst_StartTime (bs_Status s) = None" by (auto simp: timed_def)
      with stored show False by blast
    qed
    then obtain ts where ts: "those (map timed xs) = Some ts"
      using those_eq_None_iff [of "map timed xs"] by auto
    have sorted: "s \<in> set xs" if "(s, t) \<in> set (SortByStartDesc L ts)" for s t
    proof -
      have "set (SortByStartDesc L ts) = set ts" using sort by (metis sort_law_def mset_eq_setD)
      moreover have "map timed xs = map Some ts" using ts by (simp add: those_eq_Some_iff)
      then have "Some ` set ts = timed ` set xs" by (metis list.set_map)
      ultimately have "Some (s, t) \<in> timed ` set xs" using that by blast
      then obtain s' where "s' \<in> set xs" "Some (s, t) = timed s'" by blast
      then show ?thesis by (cases "bst_StartTime (bs_Status s')") (simp_all add: timed_def)
    qed
    have here: "holds S C L side c (S w) w" using I by (auto simp: holds_def dest: comes_from_sound)
    have kept: "keeps (holds S C L side c (S w)) (cleanupLoop A n rt (SortByStartDesc L ts))" for n rt
      using sorted stored by (intro keeps_cleanupLoop [OF store refl]) blast
    have loop: "holds S C L side c (S w) w' \<and> r \<noteq> Panic"
      if "cleanupLoop A n rt (SortByStartDesc L ts) w = (r, w')" for n rt r w'
      using keepsD [OF kept here that] .
    have "holds S C L side c (S w) w' \<and> r \<noteq> Panic"
      using run here loop by (auto simp: cleanupSessions_def bind_go_run try_go_run call_run x Inr ts of_option_run ret_run
          split: if_splits)
    with I show ?thesis using comes_from_trans by (auto simp: holds_def)
  qed
qed

subsection \<open>One reconciliation\<close>

lemma keeps_update:
  assumes store: "shared_store A S C" and "I = holds S C L side c m"
    and s: "m (meta_key (bs_Meta s)) = Some s1" "bs_Spec s = bs_Spec s1" "protected L s1 \<longrightarrow> protected L s"
  shows "keeps I (call (api_Update A (OBackupSession s)))"
proof (rule keeps_write [OF shared_storeD(5) [OF store] _ assms(2)])
  fix w m' assume "I w" and "m' \<in> {put_session s (S w), remove_session s (S w)}"
  with comes_from_put_session [of L side c m "S w" s s1] s comes_from_remove [of L side c m "S w" s]
  show "comes_from L side c m m'" by (auto simp: assms(2) holds_def)
qed

lemma keeps_deleteSnapshots:
  assumes store: "shared_store A S C"
  shows "deleteSnapshots A s conf w = (r, w') \<Longrightarrow> S w' = S w \<and> C w' = C w \<and> r \<noteq> Panic"
proof -
  assume run: "deleteSnapshots A s conf w = (r, w')"
  obtain x w1 where "api_Create A (OJob (snapshot_job s (snapshot_containers s conf))) w = (x, w1)"
    "S w1 = S w" "C w1 = C w"
    using shared_storeD(4) [OF store] by metis
  with run show ?thesis
    by (cases x) (auto simp: deleteSnapshots_def Let_def call_run ret_run split: if_splits)
qed

lemma deletion_keeps:
  assumes store: "shared_store A S C" and I: "holds S C L side c m w"
    and s: "m (meta_key (bs_Meta s)) = Some s"
    and run: "backupSessionDeletion L A conf s w = (r, w1)"
  shows "holds S C L side c m w1 \<and> r \<noteq> Panic \<and> (r = Ret None \<longrightarrow> S w1 = S w \<and> C w1 = C w)"
proof (cases "ptr_IsZero (om_DeletionTimestamp (bs_Meta s))")
  case True
  with run I show ?thesis by (auto simp: backupSessionDeletion_def ret_run)
next
  case False
  obtain x w2 where x: "deleteSnapshots A s conf w = (x, w2)" by (cases "deleteSnapshots A s conf w")
  then have same: "S w2 = S w" "C w2 = C w" "x \<noteq> Panic" using keeps_deleteSnapshots [OF store] by blast+
  then have I2: "holds S C L side c m w2" using I by (simp add: holds_def)
  have ignored: "ignore_err (deleteSnapshots A s conf) w = (Ret (), w2)"
    using x same(3) by (cases x) (simp_all add: ignore_err_run)
  let ?s = "s\<lparr>bs_Meta := (bs_Meta s)\<lparr>om_Finalizers := RemoveFinalizer L (om_Finalizers (bs_Meta s)) finalizerName\<rparr>\<rparr>"
  have "om_DeletionTimestamp (bs_Meta s) \<noteq> None" using False by (cases "om_DeletionTimestamp (bs_Meta s)") (simp_all add: ptr_IsZero_def)
  then have "keeps (holds S C L side c m) (call (api_Update A (OBackupSession ?s)))"
    using s by (intro keeps_update [where ?s1.0 = s, OF store refl]) (simp_all add: meta_key_def protected_def)
  then have upd: "keeps (holds S C L side c m) (bind_go (call (api_Update A (OBackupSession ?s))) (\<lambda>_. ret (Some no_requeue)))"
    by (intro keeps_bind keeps_ret)
  obtain y w3 where y: "call (api_Update A (OBackupSession ?s)) w2 = (y, w3)" by (cases "call (api_Update A (OBackupSession ?s)) w2")
  show ?thesis
  proof (cases "ContainsFinalizer L (om_Finalizers (bs_Meta s)) finalizerName")
    case True
    with run False have run': "bind_go (call (api_Update A (OBackupSession ?s))) (\<lambda>_. ret (Some no_requeue)) w2 = (r, w1)"
      by (simp add: backupSessionDeletion_def bind_go_run ignored)
    with y have "r \<noteq> Ret None" by (cases y) (auto simp: bind_go_run ret_run)
    with keepsD [OF upd I2 run'] show ?thesis by simp
  next
    case no: False
    with run False have "r = Ret None" "w1 = w2" by (simp_all add: backupSessionDeletion_def bind_go_run ignored ret_run)
    with I2 same show ?thesis by simp
  qed
qed

lemma isBackupOngoing_silent:
  assumes "shared_store A S C"
  shows "\<exists>b. isBackupOngoing A conf w = (Ret b, w)"
proof -
  obtain r where "api_ListBackupSessions A (om_Namespace (bc_Meta conf)) ''Running'' w = (r, w)"
    using shared_storeD(3) [OF assms] by metis
  then have "isBackupOngoing A conf w = (Ret (case r of Inl _ \<Rightarrow> True | Inr items \<Rightarrow> length items > 0), w)"
    by (cases r) (simp_all add: isBackupOngoing_def bind_go_run try_go_run call_run ret_run)
  then show ?thesis by blast
qed

text \<open>Outside \<open>Success\<close> the switch only reads; what it asks to be written is good again.\<close>

lemma switch_silent:
  assumes store: "shared_store A S C" and protocol: "sidecar_protocol side"
    and good: "good_session side c s" "c (bss_Ref (bs_Spec s)) = Some conf"
    and st: "bst_SessionState (bs_Status s) \<noteq> Success"
  shows "\<exists>x. backupSessionSwitch L A now conf s w = (Ret x, w) \<and>
    (\<forall>n s'. x = Some (n, s') \<and> n \<noteq> Unset \<longrightarrow> bs_Meta s' = bs_Meta s \<and>
      becomes L side c s (with_state n s') \<and> good_session side c (with_state n s'))"
proof -
  let ?m = "bs_machine s"
  have reach: "reachable side conf ?m" using good by (simp add: good_session_def)
  have states: "mc_State ?m \<in> {Unset, New, Initializing, Running, Finalize, Success, Failure}"
    using reachable_phase [OF protocol reach] by (cases "mc_State ?m") auto
  obtain b where b: "isBackupOngoing A conf w = (Ret b, w)" using isBackupOngoing_silent [OF store] by blast
  obtain r tss where adv: "advance (mc_State ?m) (now 0) (mc_Targets ?m) conf = Some (r, tss)"
    using reachable_advance [OF protocol reach] by blast
  obtain x where x: "backupSessionSwitch L A now conf s w = (Ret x, w)"
    and keep: "\<And>n s'. x = Some (n, s') \<Longrightarrow> bs_Spec s' = bs_Spec s \<and> bs_Meta s' = bs_Meta s \<and>
      (bst_StartTime (bs_Status s) \<noteq> None \<or> mc_State ?m = Unset \<longrightarrow> bst_StartTime (bs_Status s') \<noteq> None)"
  proof (cases "mc_State ?m \<in> {Initializing, Running, Finalize}")
    case True
    then have "backupSessionSwitch L A now conf s w = (Ret (Some (r, with_targets tss s)), w)"
      using backup_session.switch_check [OF True, of L A now conf] adv by (simp add: bind_go_run of_option_run ret_run)
    with True show ?thesis by (intro that) (auto simp: with_targets_def)
  next
    case False
    with states st consider (create) "mc_State ?m = Unset" | (init) "mc_State ?m = New" | (over) "mc_State ?m = Failure"
      by (auto simp: bs_machine_def)
    then show ?thesis
    proof cases
      case init
      then have "backupSessionSwitch L A now conf s w =
          (Ret (if b then None else Some (Initializing, with_targets (initSession now conf) s)), w)"
        using b by (simp add: backup_session.switch_init bind_go_run ret_run)
      with init show ?thesis by (intro that) (auto simp: with_targets_def split: if_splits)
    qed (auto simp: backupSessionSwitch_def bs_machine_def ret_run intro!: that)
  qed
  have "becomes L side c s (with_state n s') \<and> good_session side c (with_state n s')"
    if n: "x = Some (n, s')" "n \<noteq> Unset" for n s'
  proof -
    have c: "controller_step conf ?m \<lparr>mc_State = n, mc_Targets = mc_Targets (bs_machine s')\<rparr>"
      using backup_session.switch_step [OF x [unfolded n(1)] n(2) states] .
    then have "reachable side conf \<lparr>mc_State = n, mc_Targets = mc_Targets (bs_machine s')\<rparr>"
      using reach by (blast intro: reachable.step machine_step.reconcile)
    moreover have "bs_machine (with_state n s') = \<lparr>mc_State = n, mc_Targets = mc_Targets (bs_machine s')\<rparr>"
      by (simp add: bs_machine_def with_state_def)
    ultimately show ?thesis
      using keep [OF n(1)] good n(2) machine_step.reconcile [OF c, of side]
      by (auto simp: good_session_def becomes_def protected_def with_state_def bs_machine_def)
  qed
  with x keep show ?thesis by blast
qed

lemma advance_keeps:
  assumes store: "shared_store A S C" and protocol: "sidecar_protocol side" and sort: "sort_law L"
    and I: "holds S C L side c m w" and s: "m (meta_key (bs_Meta s)) = Some s" "good_session side c s"
    and conf: "c (bss_Ref (bs_Spec s)) = Some conf"
    and run: "backupSessionAdvance L A now conf s w = (r, w')"
  shows "holds S C L side c m w' \<and> r \<noteq> Panic"
proof (cases "ContainsFinalizer L (om_Finalizers (bs_Meta s)) finalizerName")
  case False
  let ?s = "s\<lparr>bs_Meta := (bs_Meta s)\<lparr>om_Finalizers := AddFinalizer L (om_Finalizers (bs_Meta s)) finalizerName\<rparr>\<rparr>"
  have "keeps (holds S C L side c m) (call (api_Update A (OBackupSession ?s)))"
    using s False by (intro keeps_update [where ?s1.0 = s, OF store refl]) (simp_all add: meta_key_def protected_def)
  then have "keeps (holds S C L side c m) (bind_go (call (api_Update A (OBackupSession ?s))) (\<lambda>_. ret no_requeue))"
    by (intro keeps_bind keeps_ret)
  from keepsD [OF this I] run False show ?thesis by (simp add: backupSessionAdvance_def)
next
  case fin: True
  show ?thesis
  proof (cases "bst_SessionState (bs_Status s) = Success")
    case True
    have kept: "keeps (holds S C L side c m) (bind_go (cleanupSessions L A conf) (\<lambda>_. ret no_requeue))"
      by (intro keeps_bind keeps_ret keeps_cleanupSessions [OF store sort])
    have "backupSessionAdvance L A now conf s w = bind_go (cleanupSessions L A conf) (\<lambda>_. ret no_requeue) w"
      using fin True by (simp add: backupSessionAdvance_def backupSessionSwitch_def bind_assoc)
    then show ?thesis using keepsD [OF kept I] run by metis
  next
    case False
    obtain x where x: "backupSessionSwitch L A now conf s w = (Ret x, w)"
      "\<And>n s'. x = Some (n, s') \<Longrightarrow> n \<noteq> Unset \<Longrightarrow> bs_Meta s' = bs_Meta s \<and>
        becomes L side c s (with_state n s') \<and> good_session side c (with_state n s')"
      using switch_silent [OF store protocol s(2) conf False] by metis
    consider "x = None \<or> (\<exists>s'. x = Some (Unset, s'))" | n s' where "x = Some (n, s')" "n \<noteq> Unset" by (cases x) auto
    then show ?thesis
    proof cases
      case 1
      with run fin x(1) I show ?thesis by (auto simp: backupSessionAdvance_def bind_go_run ret_run)
    next
      case 2
      let ?s = "with_state n s'"
      have s': "meta_key (bs_Meta ?s) = meta_key (bs_Meta s)" "becomes L side c s ?s" "good_session side c ?s"
        using x(2) [OF 2] by (simp_all add: with_state_def)
      have "keeps (holds S C L side c m) (call (api_StatusUpdate A (OBackupSession ?s)))"
      proof (rule keeps_write [OF shared_storeD(7) [OF store] _ refl])
        fix w m' assume "holds S C L side c m w" and "m' \<in> {put_status ?s (S w)}"
        with comes_from_put_status [OF _ s'(3) _ s'(2)] s(1) s'(1)
        show "comes_from L side c m m'" by (simp add: holds_def)
      qed
      then have "keeps (holds S C L side c m) (bind_go (call (api_StatusUpdate A (OBackupSession ?s))) (\<lambda>_. ret no_requeue))"
        by (intro keeps_bind keeps_ret)
      from keepsD [OF this I] run fin x(1) 2 show ?thesis
        by (simp add: backupSessionAdvance_def bind_go_run)
    qed
  qed
qed

lemma reconcile_keeps:
  assumes store: "shared_store A S C" and protocol: "sidecar_protocol side" and sort: "sort_law L"
    and sound: "sound side (C w) (S w)" and run: "reconcileBackupSession L A now k w = (r, w')"
  shows "C w' = C w \<and> comes_from L side (C w) (S w) (S w') \<and> r \<noteq> Panic"
proof -
  obtain x where x: "api_BackupSession A k w = (x, w)" "\<And>s. x = Inr s \<Longrightarrow> S w k = Some s"
    using shared_storeD(1) [OF store] by metis
  show ?thesis
  proof (cases x)
    case (Inl e)
    with x(1) run sound show ?thesis
      by (auto simp: reconcileBackupSession_def bind_go_run try_go_run call_run ret_run fail_run split: if_splits)
  next
    case (Inr s)
    have s: "S w (meta_key (bs_Meta s)) = Some s" "good_session side (C w) s"
      using soundD [OF sound x(2) [OF Inr]] x(2) [OF Inr] by simp_all
    obtain y where y: "api_BackupConfiguration A (bss_Ref (bs_Spec s)) w = (y, w)"
      "\<And>conf. y = Inr conf \<Longrightarrow> C w (bss_Ref (bs_Spec s)) = Some conf"
      using shared_storeD(2) [OF store] by metis
    show ?thesis
    proof (cases y)
      case (Inl e)
      with x(1) Inr y(1) run sound show ?thesis
        by (auto simp: reconcileBackupSession_def bind_go_run try_go_run call_run)
    next
      case conf: (Inr conf)
      have I: "holds S C L side (C w) (S w) w" using sound by (simp add: holds_def)
      obtain d w1 where d: "backupSessionDeletion L A conf s w = (d, w1)" by (cases "backupSessionDeletion L A conf s w")
      have del: "holds S C L side (C w) (S w) w1" "d \<noteq> Panic"
        using deletion_keeps [OF store I s(1) d] by simp_all
      have "holds S C L side (C w) (S w) w' \<and> r \<noteq> Panic"
      proof (cases "d = Ret None")
        case True
        then have "backupSessionAdvance L A now conf s w1 = (r, w')"
          using run x(1) Inr y(1) conf d
          by (simp add: reconcileBackupSession_def bind_go_run try_go_run call_run)
        then show ?thesis by (rule advance_keeps [OF store protocol sort del(1) s y(2) [OF conf]])
      next
        case False
        then have "w' = w1 \<and> r \<noteq> Panic"
          using run x(1) Inr y(1) conf d del(2)
          by (cases d) (auto simp: reconcileBackupSession_def bind_go_run try_go_run call_run ret_run split: option.splits)
        with del(1) show ?thesis by simp
      qed
      then show ?thesis by (simp add: holds_def)
    qed
  qed
qed

subsection \<open>Runs\<close>

inductive system_step :: "lib \<Rightarrow> 'w api \<Rightarrow> ('w \<Rightarrow> object_key \<rightharpoonup> backup_session) \<Rightarrow>
    ('w \<Rightarrow> object_key \<rightharpoonup> backup_configuration) \<Rightarrow> (target_status \<Rightarrow> target_status \<Rightarrow> bool) \<Rightarrow> 'w \<Rightarrow> 'w \<Rightarrow> bool"
  for L A S C side where
  reconcile: "reconcileBackupSession L A now k w = (r, w') \<Longrightarrow> system_step L A S C side w w'"
| report: "S w k = Some s \<Longrightarrow> i < length (bst_Targets (bs_Status s)) \<Longrightarrow> side (bst_Targets (bs_Status s) ! i) t \<Longrightarrow>
    S w' = (S w)(k \<mapsto> with_targets ((bst_Targets (bs_Status s))[i := t]) s) \<Longrightarrow> C w' = C w \<Longrightarrow>
    system_step L A S C side w w'"
| create: "S w (meta_key (bs_Meta s)) = None \<Longrightarrow> bs_machine s = created \<Longrightarrow>
    S w' = (S w)(meta_key (bs_Meta s) \<mapsto> s) \<Longrightarrow> C w' = C w \<Longrightarrow> system_step L A S C side w w'"
| delete: "S w' \<in> {remove_session s (S w), mark_deleted t s (S w)} \<Longrightarrow> C w' = C w \<Longrightarrow> system_step L A S C side w w'"

lemma report_becomes:
  assumes "i < length (bst_Targets (bs_Status s))" and "side (bst_Targets (bs_Status s) ! i) t"
  shows "becomes L side c s (with_targets ((bst_Targets (bs_Status s))[i := t]) s)"
proof -
  have "machine_step side conf (bs_machine s) (bs_machine (with_targets ((bst_Targets (bs_Status s))[i := t]) s))" for conf
    using machine_step.report [of i "bs_machine s" side t conf] assms
    by (simp add: bs_machine_def with_targets_def)
  then show ?thesis by (auto simp: becomes_def with_targets_def protected_def)
qed

lemma becomes_good:
  assumes "becomes L side c s s'" and "good_session side c s"
    and "bst_SessionState (bs_Status s') \<noteq> Unset \<longrightarrow> bst_StartTime (bs_Status s') \<noteq> None"
  shows "good_session side c s'"
proof -
  have "reachable side conf m'" if "(machine_step side conf)\<^sup>*\<^sup>* m m'" "reachable side conf m" for m m' conf
    using that by (induction rule: rtranclp_induct) (auto intro: reachable.step)
  with assms show ?thesis by (fastforce simp: good_session_def becomes_def)
qed

text \<open>What a key holds before and after a step, the session became; only a free key is created.\<close>

lemma system_step_keeps:
  assumes store: "shared_store A S C" and protocol: "sidecar_protocol side" and sort: "sort_law L"
    and step: "system_step L A S C side w w'" and sound: "sound side (C w) (S w)"
  shows "C w' = C w \<and> sound side (C w') (S w') \<and>
    (\<forall>k s s'. S w k = Some s \<and> S w' k = Some s' \<longrightarrow> becomes L side (C w) s s')"
proof -
  have frm: "?thesis" if "C w' = C w" "comes_from L side (C w) (S w) (S w')"
    using that comes_from_sound [OF that(2)] comes_fromD [OF that(2)] by auto
  have here: "comes_from L side (C w) (S w) (S w)" using sound by simp
  show ?thesis
    using step
  proof (cases rule: system_step.cases)
    case (reconcile now k r)
    with reconcile_keeps [OF store protocol sort sound] show ?thesis by (intro frm) auto
  next
    case (report k s i t)
    let ?s = "with_targets ((bst_Targets (bs_Status s))[i := t]) s"
    have s: "meta_key (bs_Meta s) = k" "good_session side (C w) s" using soundD [OF sound report(1)] by simp_all
    have b: "becomes L side (C w) s ?s" using report(2,3) by (rule report_becomes)
    moreover have "good_session side (C w) ?s"
      by (rule becomes_good [OF b s(2)]) (use s(2) in \<open>simp add: good_session_def with_targets_def\<close>)
    ultimately show ?thesis
      using comes_from_upd [OF here report(1) _ b] s(1) report(4,5) by (intro frm) (simp_all add: with_targets_def)
  next
    case (create s)
    then have "good_session side (C w) s"
      using reachable.start by (auto simp: good_session_def created_def bs_machine_def)
    with create sound show ?thesis by (auto simp: sound_def)
  next
    case (delete s t)
    with comes_from_remove [OF here, of s] comes_from_mark_deleted [OF here, of t s] show ?thesis
      by (intro frm) auto
  qed
qed

lemma run_sound:
  assumes "shared_store A S C" and "sidecar_protocol side" and "sort_law L"
    and "(system_step L A S C side)\<^sup>*\<^sup>* w0 w" and "S w0 = Map.empty"
  shows "sound side (C w) (S w)"
  using assms(4)
proof (induction rule: rtranclp_induct)
  case base
  show ?case by (simp add: sound_def assms(5))
next
  case (step w w')
  with system_step_keeps [OF assms(1-3)] show ?case by blast
qed

subsection \<open>Properties\<close>

text \<open>
  C1: the system refines the session machine. In every run that starts without sessions, whatever
  the interleaving of reconciliations of all the sessions, reports of the sidecars, creations and
  deletions, and whatever calls the API server refuses, each stored session whose configuration
  exists is in a state that the machine reaches by its own steps: no session is disturbed by the
  reconciliation of another, the retention pass of a sibling included.
\<close>

theorem stored_sessions_refine_the_machine:
  assumes "shared_store A S C" and "sidecar_protocol side" and "sort_law L"
    and "(system_step L A S C side)\<^sup>*\<^sup>* w0 w" and "S w0 = Map.empty"
    and "S w k = Some s" and "C w (bss_Ref (bs_Spec s)) = Some conf"
  shows "reachable side conf (bs_machine s)"
  using soundD [OF run_sound [OF assms(1-5)] assms(6)] assms(7) by (simp add: good_session_def)

text \<open>A run: a session is created and reconciled for the first time.\<close>

definition fresh_session :: backup_session where
  "fresh_session = (new_session ''first'')\<lparr>bs_Status :=
     \<lparr>bst_SessionState = Unset, bst_StartTime = None, bst_Targets = [], bst_Keep = ''''\<rparr>\<rparr>"

definition confs_only :: store where
  "confs_only = ([], [(''demo'', ''backup-demo'') \<mapsto> one_conf])"

definition after_create :: store where
  "after_create = ([((''demo'', ''first''), fresh_session)], [(''demo'', ''backup-demo'') \<mapsto> one_conf])"

definition after_reconcile :: store where
  "after_reconcile = ([((''demo'', ''first''), new_session ''first'')], [(''demo'', ''backup-demo'') \<mapsto> one_conf])"

lemma first_reconcile:
  "reconcileBackupSession sample_lib store_api (\<lambda>_. utc 0) (''demo'', ''first'') after_create = (Ret no_requeue, after_reconcile)"
  by (simp add: reconcileBackupSession_def backupSessionDeletion_def backupSessionAdvance_def backupSessionSwitch_def
      bind_go_run try_go_run ret_run call_def session_lawsD(1,2) [OF store_api_laws] after_create_def fresh_session_def
      new_session_def named_meta_def ptr_IsZero_def sample_lib_def)
    (simp add: store_api_def store_write_def with_state_def after_reconcile_def new_session_def named_meta_def meta_key_def
      bind_go_def ret_def)

lemma sample_steps:
  "system_step sample_lib store_api (\<lambda>w. map_of (fst w)) snd sample_side confs_only after_create"
  "system_step sample_lib store_api (\<lambda>w. map_of (fst w)) snd sample_side after_create after_reconcile"
proof -
  show "system_step sample_lib store_api (\<lambda>w. map_of (fst w)) snd sample_side confs_only after_create"
    by (rule system_step.create [of _ _ fresh_session])
      (simp_all add: confs_only_def after_create_def fresh_session_def new_session_def meta_key_def named_meta_def
        bs_machine_def created_def)
qed (rule system_step.reconcile [OF first_reconcile])

lemma sample_run: "(system_step sample_lib store_api (\<lambda>w. map_of (fst w)) snd sample_side)\<^sup>*\<^sup>* confs_only after_reconcile"
  using sample_steps by simp

theorem stored_sessions_refine_the_machine_witness:
  "reachable sample_side one_conf (bs_machine (new_session ''first''))"
  by (rule stored_sessions_refine_the_machine [OF store_api_shared sample_side_protocol sample_lib_sorts sample_run])
    (simp_all add: confs_only_def after_reconcile_def new_session_def)

text \<open>
  C2: no reconciliation panics. In every such run the reconciliation of any session returns,
  with or without an error: neither the index into the configured targets nor the start times
  that the retention pass reads are ever missing.
\<close>

theorem reconciliations_never_panic:
  assumes "shared_store A S C" and "sidecar_protocol side" and "sort_law L"
    and "(system_step L A S C side)\<^sup>*\<^sup>* w0 w" and "S w0 = Map.empty"
  shows "fst (reconcileBackupSession L A now k w) \<noteq> Panic"
  using reconcile_keeps [OF assms(1-3) run_sound [OF assms]] by (metis prod.collapse)

theorem reconciliations_never_panic_witness:
  "fst (reconcileBackupSession sample_lib store_api (\<lambda>_. utc 1) (''demo'', ''first'') after_reconcile) \<noteq> Panic"
  by (rule reconciliations_never_panic [OF store_api_shared sample_side_protocol sample_lib_sorts sample_run])
    (simp add: confs_only_def)

end
