(* ===== verification/RunLog.thy ===== *)
theory RunLog
  imports SystemRun
begin

section \<open>Who deletes a snapshot: the log of a whole run\<close>

text \<open>
  The runs of theory SystemRun, kept with the log of all calls that the reconciliations made, the
  keys of the sessions whose deletion a user asked for, and the sessions that were stored when a
  reconciliation began. The theory follows a deletion through three parts of the program: the
  retention pass of one session asks for the deletion of another, the API server marks that one as
  deleted, and its own reconciliation starts the job that deletes its snapshots. It shows that
  nothing else starts such a job.
\<close>

subsection \<open>Methods that keep an invariant\<close>

named_theorems maintains_intros \<open>syntax-directed rules for the invariants a method keeps\<close>

definition maintains :: "('w \<Rightarrow> bool) \<Rightarrow> ('w, 'a) go \<Rightarrow> bool" where
  "maintains I p \<longleftrightarrow> (\<forall>w. I w \<longrightarrow> I (snd (p w)))"

lemma maintainsD: "maintains I p \<Longrightarrow> I w \<Longrightarrow> p w = (r, w') \<Longrightarrow> I w'"
  unfolding maintains_def by (metis snd_conv)

lemma maintains_basic [maintains_intros]:
  "maintains I (ret a)" "maintains I (fail e)" "maintains I panic" "maintains I (of_option x)"
  by (cases x; simp add: maintains_def ret_def fail_def panic_def of_option_def)+

lemma maintains_bind [maintains_intros]:
  assumes "maintains I p" "\<And>a. maintains I (k a)"
  shows "maintains I (bind_go p k)"
  unfolding maintains_def
proof (intro allI impI)
  fix w assume "I w"
  obtain r w1 where p: "p w = (r, w1)" by (cases "p w")
  with maintainsD [OF assms(1) \<open>I w\<close>] have "I w1" by blast
  with assms(2) p show "I (snd (bind_go p k w))" by (cases r) (simp_all add: bind_go_run maintains_def)
qed

lemma maintains_try [maintains_intros]: "maintains I p \<Longrightarrow> maintains I (try_go p)"
  by (auto simp: maintains_def try_go_def split: prod.splits go_result.splits)

lemma maintains_ignore [maintains_intros]: "maintains I p \<Longrightarrow> maintains I (ignore_err p)"
  unfolding ignore_err_def by (intro maintains_intros)

lemma maintains_branches [maintains_intros]:
  "maintains I p \<Longrightarrow> maintains I q \<Longrightarrow> maintains I (if b then p else q)"
  "(\<And>e. maintains I (f e)) \<Longrightarrow> (\<And>a. maintains I (g a)) \<Longrightarrow> maintains I (case x of Inl e \<Rightarrow> f e | Inr a \<Rightarrow> g a)"
  "maintains I p \<Longrightarrow> (\<And>a. maintains I (h a)) \<Longrightarrow> maintains I (case y of None \<Rightarrow> p | Some a \<Rightarrow> h a)"
  "(\<And>a b. maintains I (k a b)) \<Longrightarrow> maintains I (case z of (a, b) \<Rightarrow> k a b)"
  by (simp_all split: sum.split option.split prod.split)

subsection \<open>What a deletion rests on\<close>

text \<open>The deletion of a key was asked for by a user or by the operator.\<close>

definition asked :: "object_key set \<Rightarrow> api_call list \<Rightarrow> object_key \<Rightarrow> bool" where
  "asked U l k \<longleftrightarrow> k \<in> U \<or> (\<exists>s. DeleteCall (OBackupSession s) \<in> set l \<and> meta_key (bs_Meta s) = k)"

definition successful_of :: "backup_configuration \<Rightarrow> backup_session \<Rightarrow> bool" where
  "successful_of conf s \<longleftrightarrow> state_string (bst_SessionState (bs_Status s)) = ''Success'' \<and>
     om_Namespace (bs_Meta s) = om_Namespace (bc_Meta conf) \<and> snd (bss_Ref (bs_Spec s)) = om_Name (bc_Meta conf)"

text \<open>
  A session of \<open>conf\<close> expired: it was stored and successful, and so were as many others of the same
  configuration as \<open>Keep.Last\<close> says, none of them older, on each of which the operator wrote
  that the last rule keeps it.
\<close>

definition expired :: "backup_configuration \<Rightarrow> backup_session set \<Rightarrow> api_call list \<Rightarrow> backup_session \<Rightarrow> bool" where
  "expired conf H l s \<longleftrightarrow> (\<exists>t newer. s \<in> H \<and> successful_of conf s \<and> bst_StartTime (bs_Status s) = Some t \<and>
     distinct newer \<and> s \<notin> set newer \<and> length newer = nat (sint (kp_Last (bcs_Keep (bc_Spec conf)))) \<and>
     (\<forall>s' \<in> set newer. s' \<in> H \<and> successful_of conf s' \<and>
        (\<exists>t'. bst_StartTime (bs_Status s') = Some t' \<and> Unix t \<le> Unix t') \<and>
        (\<exists>keep. ''last'' \<in> set keep \<and> StatusUpdateCall (OBackupSession (with_keep s' keep)) \<in> set l)))"

definition retired :: "(object_key \<rightharpoonup> backup_configuration) \<Rightarrow> backup_session set \<Rightarrow> api_call list \<Rightarrow>
    backup_session \<Rightarrow> bool" where
  "retired c H l s \<longleftrightarrow> (\<exists>k conf. c k = Some conf \<and> expired conf H l s)"

text \<open>
  The job deletes the snapshots of a session that was stored when a reconciliation began, was then
  marked as deleted, and refers to that configuration; and its deletion was asked for.
\<close>

definition on_request :: "(object_key \<rightharpoonup> backup_configuration) \<Rightarrow> object_key set \<Rightarrow> backup_session set \<Rightarrow> api_call list \<Rightarrow>
    job \<Rightarrow> bool" where
  "on_request c U H l j \<longleftrightarrow> (\<exists>s conf. s \<in> H \<and> \<not> ptr_IsZero (om_DeletionTimestamp (bs_Meta s)) \<and>
     c (bss_Ref (bs_Spec s)) = Some conf \<and> j = snapshot_job s (snapshot_containers s conf) \<and> asked U l (meta_key (bs_Meta s)))"

lemma asked_mono: "asked U l k \<Longrightarrow> set l \<subseteq> set l' \<Longrightarrow> U \<subseteq> U' \<Longrightarrow> asked U' l' k"
  unfolding asked_def by blast

lemma on_request_mono:
  "on_request c U H l j \<Longrightarrow> set l \<subseteq> set l' \<Longrightarrow> U \<subseteq> U' \<Longrightarrow> H \<subseteq> H' \<Longrightarrow> on_request c U' H' l' j"
  unfolding on_request_def using asked_mono by blast

lemma expired_mono: "expired conf H l s \<Longrightarrow> set l \<subseteq> set l' \<Longrightarrow> H \<subseteq> H' \<Longrightarrow> expired conf H' l' s"
  unfolding expired_def by (meson subsetD)

lemma retired_mono: "retired c H l s \<Longrightarrow> set l \<subseteq> set l' \<Longrightarrow> H \<subseteq> H' \<Longrightarrow> retired c H' l' s"
  unfolding retired_def using expired_mono by blast

subsection \<open>Marks: a session is marked as deleted only where that was asked for\<close>

definition justified :: "object_key set \<Rightarrow> api_call list \<Rightarrow> backup_session \<Rightarrow> bool" where
  "justified U l s \<longleftrightarrow> (\<not> ptr_IsZero (om_DeletionTimestamp (bs_Meta s)) \<longrightarrow> asked U l (meta_key (bs_Meta s)))"

definition marks :: "object_key set \<Rightarrow> api_call list \<Rightarrow> (object_key \<rightharpoonup> backup_session) \<Rightarrow> bool" where
  "marks U l m \<longleftrightarrow> (\<forall>k s. m k = Some s \<longrightarrow> meta_key (bs_Meta s) = k \<and> justified U l s)"

lemma marksD: "marks U l m \<Longrightarrow> m k = Some s \<Longrightarrow> meta_key (bs_Meta s) = k \<and> justified U l s"
  unfolding marks_def by blast

lemma justified_mono: "justified U l s \<Longrightarrow> set l \<subseteq> set l' \<Longrightarrow> U \<subseteq> U' \<Longrightarrow> justified U' l' s"
  unfolding justified_def using asked_mono by blast

lemma marks_mono: "marks U l m \<Longrightarrow> set l \<subseteq> set l' \<Longrightarrow> U \<subseteq> U' \<Longrightarrow> marks U' l' m"
  unfolding marks_def using justified_mono by blast

lemma marks_upd: "marks U l m \<Longrightarrow> meta_key (bs_Meta s) = k \<Longrightarrow> justified U l s \<Longrightarrow> marks U l (m(k \<mapsto> s))"
  by (simp add: marks_def)

lemma marks_remove: "marks U l m \<Longrightarrow> marks U l (remove_session s m)"
  by (simp add: marks_def remove_session_def)

lemma marks_put_status:
  assumes "marks U l m" shows "marks U l (put_status s m)"
proof (cases "m (meta_key (bs_Meta s))")
  case (Some s0)
  have "justified U l (s0\<lparr>bs_Status := bs_Status s\<rparr>)" "meta_key (bs_Meta s0) = meta_key (bs_Meta s)"
    using marksD [OF assms Some] by (auto simp: justified_def)
  with Some assms show ?thesis by (simp add: put_status_def marks_upd)
qed (simp add: put_status_def assms)

lemma marks_put_session:
  assumes "marks U l m" "justified U l s" shows "marks U l (put_session s m)"
proof (cases "m (meta_key (bs_Meta s))")
  case (Some s0)
  have "justified U l (s\<lparr>bs_Status := bs_Status s0\<rparr>)" using assms(2) by (simp add: justified_def)
  with Some assms(1) show ?thesis by (simp add: put_session_def marks_upd)
qed (simp add: put_session_def assms(1))

lemma marks_mark_deleted:
  assumes "marks U l m" "asked U l (meta_key (bs_Meta s))"
  shows "marks U l (mark_deleted t s m)"
proof (cases "m (meta_key (bs_Meta s))")
  case (Some s0)
  have "meta_key (bs_Meta s0) = meta_key (bs_Meta s)" using marksD [OF assms(1) Some] by simp
  with Some assms show ?thesis
    by (auto simp: mark_deleted_def justified_def meta_key_def intro!: marks_upd)
qed (simp add: mark_deleted_def assms(1))

text \<open>The state of a run in the middle of a reconciliation that began with the log \<open>l0\<close>.\<close>

definition marked :: "('w \<Rightarrow> object_key \<rightharpoonup> backup_session) \<Rightarrow> ('w \<Rightarrow> object_key \<rightharpoonup> backup_configuration) \<Rightarrow>
    (object_key \<rightharpoonup> backup_configuration) \<Rightarrow> object_key set \<Rightarrow> api_call list \<Rightarrow> 'w \<times> api_call list \<Rightarrow> bool" where
  "marked S C c U l0 x \<longleftrightarrow> C (fst x) = c \<and> marks U (snd x) (S (fst x)) \<and> set l0 \<subseteq> set (snd x)"

lemma maintains_read:
  assumes "\<And>w. snd (f w) = w" shows "maintains (marked S C c U l0) (call (log_call a f))"
proof -
  have "snd (call (log_call a f) (w, l)) = (w, l @ [a])" for w l
    using assms [of w] by (simp add: call_def log_call_def split: sum.split prod.split) auto
  then show ?thesis by (auto simp: maintains_def marked_def intro: marks_mono)
qed

lemma maintains_write:
  assumes "write_effects f S C effects"
    and "\<And>m l m'. marks U l m \<Longrightarrow> set l0 \<subseteq> set l \<Longrightarrow> m' \<in> effects s m \<Longrightarrow> marks U (l @ [a]) m'"
  shows "maintains (marked S C c U l0) (call (log_call a (f (OBackupSession s))))"
  unfolding maintains_def
proof (intro allI impI)
  fix x assume I: "marked S C c U l0 x"
  obtain w l where x: "x = (w, l)" by (cases x)
  obtain r w' where f: "f (OBackupSession s) w = (r, w')" "C w' = C w"
    "S w' \<in> insert (S w) (effects s (S w))"
    using assms(1) unfolding write_effects_def by blast
  have "snd (call (log_call a (f (OBackupSession s))) x) = (w', l @ [a])"
    using f(1) by (simp add: x call_def log_call_def split: sum.split)
  moreover have "marks U (l @ [a]) (S w)"
    using I by (auto simp: marked_def x intro: marks_mono)
  then have "marks U (l @ [a]) (S w')"
    using f(3) I assms(2) [of l "S w" "S w'"] by (auto simp: marked_def x)
  ultimately show "marked S C c U l0 (snd (call (log_call a (f (OBackupSession s))) x))"
    using I f(2) by (auto simp: marked_def x)
qed

subsection \<open>The marks during a reconciliation\<close>

lemma maintains_reads [maintains_intros]:
  assumes "shared_store A S C"
  shows "maintains (marked S C c U l0) (call (api_ListBackupSessions (logged A) ns v))"
    "maintains (marked S C c U l0) (call (api_BackupConfiguration (logged A) k))"
  unfolding logged_sel
  by (rule maintains_read, use shared_storeD(2,3) [OF assms] in \<open>metis snd_conv\<close>)+

lemma maintains_job:
  assumes "shared_store A S C"
  shows "maintains (marked S C c U l0) (call (api_Create (logged A) (OJob j)))"
  unfolding maintains_def
proof (intro allI impI)
  fix x assume I: "marked S C c U l0 x"
  obtain w l where x: "x = (w, l)" by (cases x)
  obtain r w' where "api_Create A (OJob j) w = (r, w')" "S w' = S w" "C w' = C w"
    using shared_storeD(4) [OF assms] by metis
  then show "marked S C c U l0 (snd (call (api_Create (logged A) (OJob j)) x))"
    using I by (auto simp: marked_def x call_def log_call_def split: sum.split intro: marks_mono)
qed

lemma maintains_session_writes [maintains_intros]:
  assumes "shared_store A S C"
  shows "justified U l0 s \<Longrightarrow> maintains (marked S C c U l0) (call (api_Update (logged A) (OBackupSession s)))"
    "maintains (marked S C c U l0) (call (api_StatusUpdate (logged A) (OBackupSession s)))"
    "maintains (marked S C c U l0) (call (api_Delete (logged A) (OBackupSession s)))"
proof -
  have longer: "marks U (l @ [a]) m" if "marks U l m" for l a m using that by (auto intro: marks_mono)
  show "maintains (marked S C c U l0) (call (api_Update (logged A) (OBackupSession s)))" if j: "justified U l0 s"
    unfolding logged_sel
  proof (rule maintains_write [OF shared_storeD(5) [OF assms]])
    fix m l m' assume m: "marks U l m" "set l0 \<subseteq> set l" "m' \<in> {put_session s m, remove_session s m}"
    have "justified U (l @ [UpdateCall (OBackupSession s)]) s"
      by (rule justified_mono [OF j]) (use m(2) in auto)
    with m(3) longer [OF m(1)] show "marks U (l @ [UpdateCall (OBackupSession s)]) m'"
      by (auto intro: marks_put_session marks_remove)
  qed
  show "maintains (marked S C c U l0) (call (api_StatusUpdate (logged A) (OBackupSession s)))"
    unfolding logged_sel
    by (rule maintains_write [OF shared_storeD(7) [OF assms]]) (auto intro: marks_put_status longer)
  show "maintains (marked S C c U l0) (call (api_Delete (logged A) (OBackupSession s)))"
    unfolding logged_sel
  proof (rule maintains_write [OF shared_storeD(6) [OF assms]])
    fix m l m' assume m: "marks U l m" "m' \<in> insert (remove_session s m) {mark_deleted t s m | t. True}"
    have "asked U (l @ [DeleteCall (OBackupSession s)]) (meta_key (bs_Meta s))" by (auto simp: asked_def)
    with m(2) longer [OF m(1)] show "marks U (l @ [DeleteCall (OBackupSession s)]) m'"
      by (auto intro: marks_mark_deleted marks_remove)
  qed
qed

lemma maintains_cleanup:
  assumes store: "shared_store A S C"
  shows "maintains (marked S C c U l0) (cleanupSessions L (logged A) conf)"
proof -
  have "maintains (marked S C c U l0) (cleanupLoop (logged A) n rt xs)" for n rt xs
  proof (induction xs arbitrary: rt)
    case (Cons x xs)
    then show ?case
      by (cases x) (auto simp: Let_def simp del: logged_sel split: prod.split intro!: maintains_intros store)
  qed (simp add: maintains_intros)
  then show ?thesis
    unfolding cleanupSessions_def by (intro maintains_intros store)
qed

lemma maintains_rest:
  assumes store: "shared_store A S C" and s: "justified U l0 s"
  shows "maintains (marked S C c U l0) (bind_go (backupSessionDeletion L (logged A) conf s)
    (\<lambda>done. case done of Some r \<Rightarrow> ret r | None \<Rightarrow> backupSessionAdvance L (logged A) now conf s))"
proof -
  have just: "justified U l0 (s\<lparr>bs_Meta := (bs_Meta s)\<lparr>om_Finalizers := fs\<rparr>\<rparr>)" for fs
    using s by (simp add: justified_def meta_key_def)
  have "maintains (marked S C c U l0) (backupSessionSwitch L (logged A) now conf s)"
    unfolding backupSessionSwitch_def isBackupOngoing_def Let_def
    by (cases "bst_SessionState (bs_Status s)"; simp only: session_state.case; intro maintains_intros store maintains_cleanup)
  then show ?thesis
    unfolding backupSessionDeletion_def backupSessionAdvance_def deleteSnapshots_def Let_def
    by (intro maintains_intros maintains_job store just)
qed

subsection \<open>The calls of a reconciliation\<close>

text \<open>Calls that start no deletion job but one that \<open>P\<close> allows, and ask for no deletion.\<close>

fun deletes_only :: "(job \<Rightarrow> bool) \<Rightarrow> api_call \<Rightarrow> bool" where
  "deletes_only P (CreateCall (OJob j)) = P j"
| "deletes_only P (DeleteCall _) = False"
| "deletes_only P _ = True"

lemma only_calls [emits_intros]:
  "deletes_only P (GetCall r k)" "deletes_only P (ListCall ns v)" "deletes_only P (UpdateCall x)" "deletes_only P (StatusUpdateCall x)"
  by simp_all

lemma only_switch:
  assumes "bst_SessionState (bs_Status s) \<noteq> Success"
  shows "emits (deletes_only P) (backupSessionSwitch L (logged A) now conf s) (\<lambda>_. True)"
  using assms unfolding backupSessionSwitch_def isBackupOngoing_def Let_def logged_sel
  by (cases "bst_SessionState (bs_Status s)"; simp only: session_state.case not_True_eq_False; intro emits_intros TrueI)

lemma only_advance:
  assumes "bst_SessionState (bs_Status s) \<noteq> Success \<or> \<not> ContainsFinalizer L (om_Finalizers (bs_Meta s)) finalizerName"
  shows "emits (deletes_only P) (backupSessionAdvance L (logged A) now conf s) (\<lambda>_. True)"
  unfolding backupSessionAdvance_def logged_sel
  by (intro emits_intros only_switch TrueI) (use assms in simp)

text \<open>Outside the retention pass, a job only for a session that is being deleted.\<close>

lemma only_rest:
  assumes "bst_SessionState (bs_Status s) \<noteq> Success \<or> \<not> tracked L s"
    and "\<not> ptr_IsZero (om_DeletionTimestamp (bs_Meta s)) \<Longrightarrow> P (snapshot_job s (snapshot_containers s conf))"
  shows "emits (deletes_only P) (bind_go (backupSessionDeletion L (logged A) conf s)
    (\<lambda>done. case done of Some r \<Rightarrow> ret r | None \<Rightarrow> backupSessionAdvance L (logged A) now conf s)) (\<lambda>_. True)"
proof (rule emits_bind [where R = "\<lambda>done. done = None \<longrightarrow> ptr_IsZero (om_DeletionTimestamp (bs_Meta s)) \<or>
    \<not> ContainsFinalizer L (om_Finalizers (bs_Meta s)) finalizerName"])
  have "deletes_only P (CreateCall (OJob (snapshot_job s (snapshot_containers s conf))))"
    if "\<not> ptr_IsZero (om_DeletionTimestamp (bs_Meta s))" using assms(2) [OF that] by simp
  then show "emits (deletes_only P) (backupSessionDeletion L (logged A) conf s)
      (\<lambda>done. done = None \<longrightarrow> ptr_IsZero (om_DeletionTimestamp (bs_Meta s)) \<or>
        \<not> ContainsFinalizer L (om_Finalizers (bs_Meta s)) finalizerName)"
    unfolding backupSessionDeletion_def deleteSnapshots_def Let_def logged_sel
    by (intro emits_intros) simp_all
next
  fix r :: "result option" assume r: "r = None \<longrightarrow> ptr_IsZero (om_DeletionTimestamp (bs_Meta s)) \<or>
    \<not> ContainsFinalizer L (om_Finalizers (bs_Meta s)) finalizerName"
  show "emits (deletes_only P) (case r of Some r \<Rightarrow> ret r | None \<Rightarrow> backupSessionAdvance L (logged A) now conf s) (\<lambda>_. True)"
  proof (cases r)
    case None
    with r assms(1) have "bst_SessionState (bs_Status s) \<noteq> Success \<or>
        \<not> ContainsFinalizer L (om_Finalizers (bs_Meta s)) finalizerName" by (auto simp: tracked_def)
    with None only_advance show ?thesis by simp
  qed (simp add: emits_intros)
qed

text \<open>
  In the retention pass: the deletions are of expired sessions. The list gives stored sessions, so
  under the marks each has its own key.
\<close>

lemma distinct_sub_mset:
  assumes "mset xs \<subseteq># mset ys" "distinct ys" shows "distinct xs"
proof -
  obtain zs where "mset ys = mset (xs @ zs)"
    using assms(1) by (metis ex_mset mset_append mset_subset_eq_exists_conv)
  with assms(2) have "distinct (xs @ zs)" by (metis mset_eq_imp_distinct_iff)
  then show ?thesis by simp
qed

lemma expired_in_plan:
  assumes sort: "sort_law L" and "distinct items" and ts: "those (map timed items) = Some ts"
    and items: "\<And>s. s \<in> set items \<Longrightarrow> s \<in> H \<and> state_string (bst_SessionState (bs_Status s)) = ''Success'' \<and>
      om_Namespace (bs_Meta s) = om_Namespace (bc_Meta conf)"
    and del: "DeleteCall (OBackupSession s) \<in> set (plan (om_Name (bc_Meta conf))
      (new_retention (bcs_Keep (bc_Spec conf))) (SortByStartDesc L ts))"
    and log: "set (plan (om_Name (bc_Meta conf)) (new_retention (bcs_Keep (bc_Spec conf))) (SortByStartDesc L ts)) \<subseteq> set l"
  shows "expired conf H l s"
proof -
  let ?name = "om_Name (bc_Meta conf)"
  have "list_all2 (\<lambda>s x. timed s = Some x) items ts"
    using ts unfolding those_eq_Some_iff list_all2_conv_all_nth
    by (metis length_map map_eq_imp_length_eq nth_map)
  then have pairs: "map fst ts = items" "\<forall>(s, t) \<in> set ts. s \<in> set items \<and> bst_StartTime (bs_Status s) = Some t"
    by (induction rule: list_all2_induct) (auto simp: timed_def)
  obtain t newer where newer: "length newer = nat (sint (kp_Last (bcs_Keep (bc_Spec conf))))"
    "add_mset (s, t) (mset newer) \<subseteq># mset (filter (own ?name) ts)"
    "\<forall>(s', t') \<in> set newer. Unix t \<le> Unix t' \<and> (\<exists>keep. ''last'' \<in> set keep \<and>
      StatusUpdateCall (OBackupSession (with_keep s' keep)) \<in> set l)"
    using plan_keeps_newest [OF sort del] log by (fastforce)
  have "image_mset fst (add_mset (s, t) (mset newer)) \<subseteq># image_mset fst (mset (filter (own ?name) ts))"
    by (rule image_mset_subseteq_mono [OF newer(2)])
  also have "\<dots> \<subseteq># mset (map fst ts)"
    by (metis image_mset_subseteq_mono mset_filter mset_map multiset_filter_subset)
  finally have sub: "mset (s # map fst newer) \<subseteq># mset items" by (simp add: pairs(1))
  have "distinct (s # map fst newer)"
    by (rule distinct_sub_mset [OF sub assms(2)])
  moreover have all: "x \<in> set ts \<and> own ?name x" if "x \<in> set ((s, t) # newer)" for x
  proof -
    have "x \<in># mset (filter (own ?name) ts)"
      using newer(2) that by (metis list.set_intros(1) mset.simps(2) mset_subset_eqD set_ConsD set_mset_mset)
    then show ?thesis by simp
  qed
  have fine: "s' \<in> H \<and> successful_of conf s' \<and> bst_StartTime (bs_Status s') = Some t'"
    if "(s', t') \<in> set ((s, t) # newer)" for s' t'
    using all [OF that] pairs(2) items [of s'] by (auto simp: successful_of_def own_def)
  have "\<forall>s' \<in> set (map fst newer). s' \<in> H \<and> successful_of conf s' \<and>
      (\<exists>t'. bst_StartTime (bs_Status s') = Some t' \<and> Unix t \<le> Unix t') \<and>
      (\<exists>keep. ''last'' \<in> set keep \<and> StatusUpdateCall (OBackupSession (with_keep s' keep)) \<in> set l)"
    using fine newer(3) by fastforce
  ultimately show ?thesis
    using fine [of s t] newer(1) unfolding expired_def
    by (intro exI [of _ t] exI [of _ "map fst newer"]) simp
qed

lemma cleanup_calls:
  assumes store: "shared_store A S C" and sort: "sort_law L"
    and keyed: "\<And>k s. S w k = Some s \<Longrightarrow> meta_key (bs_Meta s) = k"
  shows "\<exists>ex. snd (snd (cleanupSessions L (logged A) conf (w, l))) = l @ ex \<and> (\<forall>x. CreateCall x \<notin> set ex) \<and>
    (\<forall>s. DeleteCall (OBackupSession s) \<in> set ex \<longrightarrow> expired conf (ran (S w)) (l @ ex) s)"
proof -
  let ?ns = "om_Namespace (bc_Meta conf)" and ?rt = "new_retention (bcs_Keep (bc_Spec conf))"
  let ?list = "ListCall ?ns ''Success''"
  obtain x where x: "api_ListBackupSessions A ?ns ''Success'' w = (x, w)"
    "\<And>xs. x = Inr xs \<Longrightarrow> set xs \<subseteq> {s. \<exists>n. S w (?ns, n) = Some s \<and> ''Success'' \<in> set (sessionStateIndex s)}"
    using shared_storeD(3) [OF store, of ?ns "''Success''" w] by blast
  have distinct: "distinct xs" if "x = Inr xs" for xs
    using shared_storeD(8) [OF store, of ?ns "''Success''" w xs] x(1) that by simp
  consider (none) "snd (snd (cleanupSessions L (logged A) conf (w, l))) = l @ [?list]"
    | (pass) items ts where "x = Inr items" "those (map timed items) = Some ts"
        "snd (snd (cleanupSessions L (logged A) conf (w, l))) =
          l @ ?list # plan (om_Name (bc_Meta conf)) ?rt (SortByStartDesc L ts)"
  proof (cases x)
    case (Inl e)
    with x(1) none show ?thesis by (simp add: cleanupSessions_def go_exec)
  next
    case (Inr items)
    then have run: "cleanupSessions L (logged A) conf (w, l) =
        (if length items < 2 then ret ()
         else bind_go (of_option (those (map timed items)))
           (\<lambda>ts. cleanupLoop (logged A) (om_Name (bc_Meta conf)) ?rt (SortByStartDesc L ts)))
         (w, l @ [?list])"
      using x(1) by (simp add: cleanupSessions_def bind_go_def try_go_def call_def log_call_def)
    show ?thesis
    proof (cases "length items < 2 \<or> those (map timed items) = None")
      case True
      with none show ?thesis by (auto simp: run go_run of_option_def)
    next
      case False
      then obtain ts where ts: "those (map timed items) = Some ts" by auto
      with False cleanupLoop_plan [of A "om_Name (bc_Meta conf)" ?rt "SortByStartDesc L ts" w "l @ [?list]"]
      show ?thesis by (intro pass [OF Inr ts]) (auto simp: run go_run of_option_def)
    qed
  qed
  then show ?thesis
  proof cases
    case none
    then show ?thesis by auto
  next
    case (pass items ts)
    let ?plan = "plan (om_Name (bc_Meta conf)) ?rt (SortByStartDesc L ts)"
    have items: "s \<in> ran (S w) \<and> state_string (bst_SessionState (bs_Status s)) = ''Success'' \<and>
        om_Namespace (bs_Meta s) = ?ns" if s: "s \<in> set items" for s
    proof -
      obtain n where n: "S w (?ns, n) = Some s" "''Success'' \<in> set (sessionStateIndex s)"
        using subsetD [OF x(2) [OF pass(1)] s] by auto
      with keyed [OF n(1)] show ?thesis by (auto simp: sessionStateIndex_def meta_key_def intro: ranI)
    qed
    have calls: "\<exists>s keep. c = session_call s keep" if "c \<in> set ?plan" for c
      using that by (auto simp: plan_def Let_def)
    have "CreateCall y \<notin> set ?plan" for y
    proof
      assume "CreateCall y \<in> set ?plan"
      then obtain s keep where "CreateCall y = session_call s keep" using calls by blast
      then show False by (simp add: session_call_def split: if_splits)
    qed
    moreover have "expired conf (ran (S w)) (l @ ?list # ?plan) s" if "DeleteCall (OBackupSession s) \<in> set ?plan" for s
      by (rule expired_in_plan [OF sort distinct [OF pass(1)] pass(2) _ that]) (use items in auto)
    ultimately show ?thesis
      unfolding pass(3) by (intro exI [of _ "?list # ?plan"]) auto
  qed
qed

subsection \<open>One reconciliation\<close>

lemma bind_ret_world: "snd (bind_go p (\<lambda>_. ret a) w) = snd (p w)"
  by (simp add: bind_go_def ret_def split: prod.split go_result.split)

text \<open>What is known of a run so far.\<close>

definition audit :: "('w \<Rightarrow> object_key \<rightharpoonup> backup_session) \<Rightarrow> ('w \<Rightarrow> object_key \<rightharpoonup> backup_configuration) \<Rightarrow>
    'w \<Rightarrow> api_call list \<Rightarrow> object_key set \<Rightarrow> backup_session set \<Rightarrow> bool" where
  "audit S C w l U H \<longleftrightarrow> marks U l (S w) \<and>
     (\<forall>j. CreateCall (OJob j) \<in> set l \<longrightarrow> on_request (C w) U H l j) \<and>
     (\<forall>s. DeleteCall (OBackupSession s) \<in> set l \<longrightarrow> retired (C w) H l s)"

lemma audit_extend:
  assumes "audit S C w l U H" and "C w' = C w" and "marks U (l @ ex) (S w')" and "H \<subseteq> H'"
    and "\<And>j. CreateCall (OJob j) \<in> set ex \<Longrightarrow> on_request (C w) U H' (l @ ex) j"
    and "\<And>s. DeleteCall (OBackupSession s) \<in> set ex \<Longrightarrow> retired (C w) H' (l @ ex) s"
  shows "audit S C w' (l @ ex) U H'"
proof -
  have "on_request (C w) U H' (l @ ex) j" if "CreateCall (OJob j) \<in> set l" for j
    using assms(1,4) that by (auto simp: audit_def intro: on_request_mono)
  moreover have "retired (C w) H' (l @ ex) s" if "DeleteCall (OBackupSession s) \<in> set l" for s
    using assms(1,4) that by (auto simp: audit_def intro: retired_mono)
  ultimately show ?thesis using assms(2,3,5,6) by (auto simp: audit_def)
qed

abbreviation rest_of :: "lib \<Rightarrow> 'w api \<Rightarrow> (nat \<Rightarrow> go_time) \<Rightarrow> backup_configuration \<Rightarrow> backup_session \<Rightarrow>
    ('w, result) go" where
  "rest_of L A now conf s \<equiv> bind_go (backupSessionDeletion L A conf s)
     (\<lambda>done. case done of Some r \<Rightarrow> ret r | None \<Rightarrow> backupSessionAdvance L A now conf s)"

text \<open>The calls after the reads: what they create or delete, they may.\<close>

lemma ordinary_calls:
  assumes "justified U l s" and "\<not> (bst_SessionState (bs_Status s) = Success \<and> tracked L s)"
    and "s \<in> H" and "c (bss_Ref (bs_Spec s)) = Some conf"
  shows "\<exists>ex. snd (snd (rest_of L (logged A) now conf s (w, l))) = l @ ex \<and>
    (\<forall>j. CreateCall (OJob j) \<in> set ex \<longrightarrow> on_request c U H (l @ ex) j) \<and> (\<forall>x. DeleteCall x \<notin> set ex)"
proof -
  have "on_request c U H l (snapshot_job s (snapshot_containers s conf))"
    if "\<not> ptr_IsZero (om_DeletionTimestamp (bs_Meta s))"
    using assms(1,3,4) that by (auto simp: on_request_def justified_def)
  then have "emits (deletes_only (on_request c U H l)) (rest_of L (logged A) now conf s) (\<lambda>_. True)"
    using assms(2) by (intro only_rest) auto
  from emitsD [OF this, of w l] obtain ex where ex: "snd (snd (rest_of L (logged A) now conf s (w, l))) = l @ ex"
    and only: "\<forall>y \<in> set ex. deletes_only (on_request c U H l) y"
    by (metis list_all_iff snd_conv)
  have "on_request c U H (l @ ex) j" if "CreateCall (OJob j) \<in> set ex" for j
  proof -
    from only that have "deletes_only (on_request c U H l) (CreateCall (OJob j))" by blast
    then have "on_request c U H l j" by simp
    then show ?thesis by (rule on_request_mono) auto
  qed
  moreover have "DeleteCall x \<notin> set ex" for x using only by force
  ultimately show ?thesis using ex by blast
qed

lemma retention_calls:
  assumes store: "shared_store A S C" and sort: "sort_law L" and marks: "marks U l (S w)"
    and s: "bst_SessionState (bs_Status s) = Success" "tracked L s" and conf: "C w k = Some conf"
  shows "\<exists>ex. snd (snd (rest_of L (logged A) now conf s (w, l))) = l @ ex \<and> (\<forall>x. CreateCall x \<notin> set ex) \<and>
    (\<forall>z. DeleteCall (OBackupSession z) \<in> set ex \<longrightarrow> retired (C w) (ran (S w)) (l @ ex) z)"
proof -
  have "rest_of L (logged A) now conf s (w, l) = backupSessionAdvance L (logged A) now conf s (w, l)"
    using s(2) by (simp add: backupSessionDeletion_def tracked_def bind_go_run ret_run)
  moreover have "backupSessionAdvance L (logged A) now conf s =
      bind_go (cleanupSessions L (logged A) conf) (\<lambda>_. ret no_requeue)"
    using s by (simp add: backupSessionAdvance_def tracked_def backupSessionSwitch_def bind_assoc)
  ultimately have "snd (rest_of L (logged A) now conf s (w, l)) = snd (cleanupSessions L (logged A) conf (w, l))"
    by (simp only: bind_ret_world)
  moreover obtain ex where "snd (snd (cleanupSessions L (logged A) conf (w, l))) = l @ ex" "\<And>x. CreateCall x \<notin> set ex"
    "\<And>z. DeleteCall (OBackupSession z) \<in> set ex \<Longrightarrow> expired conf (ran (S w)) (l @ ex) z"
    using cleanup_calls [OF store sort, where w = w and conf = conf and l = l] marksD [OF marks] by blast
  moreover have "retired (C w) H l' z" if "expired conf H l' z" for H l' z
    using conf that unfolding retired_def by blast
  ultimately show ?thesis by (intro exI [of _ ex]) simp
qed

lemma reconcile_audit:
  assumes store: "shared_store A S C" and sort: "sort_law L" and before: "audit S C w l U H"
    and run: "reconcileBackupSession L (logged A) now k (w, l) = (r, (w', l'))"
  shows "C w' = C w \<and> audit S C w' l' U (H \<union> ran (S w))"
proof -
  have marks: "marks U l (S w)" using before by (simp add: audit_def)
  obtain x where x: "api_BackupSession A k w = (x, w)" "\<And>s. x = Inr s \<Longrightarrow> S w k = Some s"
    using shared_storeD(1) [OF store] by metis
  have idle: ?thesis if "w' = w" "l' = l @ ex" "set ex \<subseteq> {GetCall r k | r k. True}" for ex
    unfolding that(1,2)
    by (intro conjI refl audit_extend [OF before refl] marks_mono [OF marks])
      (use that(3) in auto)
  show ?thesis
  proof (cases x)
    case (Inl e)
    with x(1) run have "w' = w \<and> l' = l @ [GetCall RBackupSession k]"
      by (auto simp: reconcileBackupSession_def go_exec split: if_splits)
    with idle show ?thesis by auto
  next
    case (Inr s)
    let ?ref = "bss_Ref (bs_Spec s)" and ?gets = "[GetCall RBackupSession k, GetCall RBackupConfiguration (bss_Ref (bs_Spec s))]"
    let ?l = "l @ ?gets"
    obtain y where y: "api_BackupConfiguration A ?ref w = (y, w)" "\<And>conf. y = Inr conf \<Longrightarrow> C w ?ref = Some conf"
      using shared_storeD(2) [OF store] by metis
    show ?thesis
    proof (cases y)
      case (Inl e)
      with x(1) Inr y(1) run have "w' = w \<and> l' = ?l"
        by (auto simp: reconcileBackupSession_def go_exec)
      with idle show ?thesis by auto
    next
      case conf: (Inr conf)
      have rest: "rest_of L (logged A) now conf s (w, ?l) = (r, (w', l'))"
        using run x(1) y(1) Inr conf
        by (simp add: reconcileBackupSession_def bind_go_run try_go_run call_log_call)
      have marks': "marks U ?l (S w)" using marks by (auto intro: marks_mono)
      then have j: "justified U ?l s" using marksD x(2) [OF Inr] by blast
      have "marked S C (C w) U ?l (w, ?l)" using marks' by (simp add: marked_def)
      from maintainsD [OF maintains_rest [OF store j] this rest]
      have after: "C w' = C w" "marks U l' (S w')" by (simp_all add: marked_def)
      obtain ex where l': "l' = ?l @ ex" and ex: "\<And>j. CreateCall (OJob j) \<in> set ex \<Longrightarrow> on_request (C w) U (ran (S w)) l' j"
        "\<And>z. DeleteCall (OBackupSession z) \<in> set ex \<Longrightarrow> retired (C w) (ran (S w)) l' z"
        using ordinary_calls [where H = "ran (S w)" and c = "C w", OF j _ ranI [of "S w" k, OF x(2) [OF Inr]] y(2) [OF conf], where L = L and A = A and now = now and w = w]
          retention_calls [OF store sort marks' _ _ y(2) [OF conf], where s = s and now = now]
        unfolding rest by (metis snd_conv)
      have l'': "l' = l @ (?gets @ ex)" using l' by simp
      have "retired (C w) (H \<union> ran (S w)) l' z" if "DeleteCall (OBackupSession z) \<in> set ex" for z
        using ex(2) [OF that] by (rule retired_mono) auto
      moreover have "on_request (C w) U (H \<union> ran (S w)) l' j" if "CreateCall (OJob j) \<in> set ex" for j
        using ex(1) [OF that] by (rule on_request_mono) auto
      ultimately show ?thesis
        using after unfolding l''
        by (intro conjI audit_extend [OF before after(1)]) (auto simp: l'')
    qed
  qed
qed

subsection \<open>Runs\<close>

text \<open>
  \<open>audited w l U H\<close>: a run has reached \<open>w\<close>; \<open>l\<close> has the calls of its reconciliations, \<open>U\<close> the keys of the
  sessions that users asked to delete, \<open>H\<close> the sessions that were stored when a reconciliation
  began. The sidecars and users may write any status; a session is created without a deletion timestamp.
\<close>

inductive audited :: "lib \<Rightarrow> 'w api \<Rightarrow> ('w \<Rightarrow> object_key \<rightharpoonup> backup_session) \<Rightarrow>
    ('w \<Rightarrow> object_key \<rightharpoonup> backup_configuration) \<Rightarrow> 'w \<Rightarrow> api_call list \<Rightarrow> object_key set \<Rightarrow> backup_session set \<Rightarrow> bool"
  for L A S C where
  start: "S w = Map.empty \<Longrightarrow> audited L A S C w [] {} {}"
| reconcile: "audited L A S C w l U H \<Longrightarrow> reconcileBackupSession L (logged A) now k (w, l) = (r, (w', l')) \<Longrightarrow>
    audited L A S C w' l' U (H \<union> ran (S w))"
| report: "audited L A S C w l U H \<Longrightarrow> S w k = Some s \<Longrightarrow> S w' = (S w)(k \<mapsto> s\<lparr>bs_Status := st\<rparr>) \<Longrightarrow> C w' = C w \<Longrightarrow>
    audited L A S C w' l U H"
| create: "audited L A S C w l U H \<Longrightarrow> S w (meta_key (bs_Meta s)) = None \<Longrightarrow> om_DeletionTimestamp (bs_Meta s) = None \<Longrightarrow>
    S w' = (S w)(meta_key (bs_Meta s) \<mapsto> s) \<Longrightarrow> C w' = C w \<Longrightarrow> audited L A S C w' l U H"
| delete: "audited L A S C w l U H \<Longrightarrow> S w' \<in> {remove_session s (S w), mark_deleted t s (S w)} \<Longrightarrow> C w' = C w \<Longrightarrow>
    audited L A S C w' l (insert (meta_key (bs_Meta s)) U) H"

lemma run_audit:
  assumes store: "shared_store A S C" and sort: "sort_law L"
  shows "audited L A S C w l U H \<Longrightarrow> audit S C w l U H"
proof (induction rule: audited.induct)
  case (start w)
  then show ?case by (simp add: audit_def marks_def)
next
  case (reconcile w l U H now k r w' l')
  with reconcile_audit [OF store sort] show ?case by blast
next
  case (report w l U H k s w' st)
  have "marks U l (S w)" using report.IH by (simp add: audit_def)
  from this marksD [OF this report.hyps(2)] have "marks U l (S w')"
    unfolding report.hyps(3) by (intro marks_upd) (auto simp: justified_def)
  with report.IH report.hyps(4) show ?case by (simp add: audit_def)
next
  case (create w l U H s w')
  then show ?case by (simp add: audit_def marks_upd justified_def ptr_IsZero_def)
next
  case (delete w l U H w' s t)
  let ?U = "insert (meta_key (bs_Meta s)) U"
  have old: "marks ?U l (S w)" "\<And>j. on_request (C w) U H l j \<Longrightarrow> on_request (C w) ?U H l j"
    using delete.IH by (auto simp: audit_def intro: marks_mono on_request_mono)
  have "asked ?U l (meta_key (bs_Meta s))" by (simp add: asked_def)
  then have "marks ?U l (S w')"
    using delete.hyps(2) marks_remove [OF old(1)] marks_mark_deleted [OF old(1)] by auto
  with delete.IH delete.hyps(3) old(2) show ?case by (simp add: audit_def)
qed

subsection \<open>Property\<close>

text \<open>
  C3: snapshots are deleted on request only. In every run, whatever the interleaving of the
  reconciliations, the reports of the sidecars, the creations and the deletions, and whatever calls
  the API server refuses: a deletion job that the operator started is the job of the snapshots that
  a session recorded which was stored, marked as deleted, when a reconciliation began, under the
  configuration that it refers to; and a user asked to delete the session of that name, or the
  operator did because the session had expired. An expired session was stored and successful, as
  were \<open>Keep.Last\<close> others of its configuration, none of them older, which the operator recorded as
  kept.
\<close>

theorem snapshots_are_deleted_on_request:
  assumes "shared_store A S C" and "sort_law L" and "audited L A S C w l U H"
    and "CreateCall (OJob j) \<in> set l"
  shows "\<exists>s conf. s \<in> H \<and> \<not> ptr_IsZero (om_DeletionTimestamp (bs_Meta s)) \<and>
    C w (bss_Ref (bs_Spec s)) = Some conf \<and> j = snapshot_job s (snapshot_containers s conf) \<and> (meta_key (bs_Meta s) \<in> U \<or>
    (\<exists>s' k conf'. DeleteCall (OBackupSession s') \<in> set l \<and> meta_key (bs_Meta s') = meta_key (bs_Meta s) \<and>
       C w k = Some conf' \<and> expired conf' H l s'))"
proof -
  have audit: "audit S C w l U H" by (rule run_audit [OF assms(1-3)])
  then obtain s conf where "s \<in> H" "\<not> ptr_IsZero (om_DeletionTimestamp (bs_Meta s))" "C w (bss_Ref (bs_Spec s)) = Some conf"
    "j = snapshot_job s (snapshot_containers s conf)" "asked U l (meta_key (bs_Meta s))"
    using assms(4) by (auto simp: audit_def on_request_def)
  moreover have "\<exists>k conf'. C w k = Some conf' \<and> expired conf' H l s'" if "DeleteCall (OBackupSession s') \<in> set l" for s'
    using audit that by (auto simp: audit_def retired_def)
  ultimately show ?thesis unfolding asked_def by blast
qed

text \<open>A run: a session with a snapshot is created, a user asks to delete it, and it is reconciled.\<close>

definition with_snapshot :: store where
  "with_snapshot = ([((''demo'', ''run''), one_session Success Success ''s1'')], [(''demo'', ''backup-demo'') \<mapsto> one_conf])"

definition asked_to_go :: store where
  "asked_to_go = ([((''demo'', ''run''), deleted_session Success ''s1'')], [(''demo'', ''backup-demo'') \<mapsto> one_conf])"

lemma sample_audit: "audited sample_lib store_api (\<lambda>w. map_of (fst w)) snd asked_to_go [] {(''demo'', ''run'')} {}"
proof -
  let ?audited = "audited sample_lib store_api (\<lambda>w. map_of (fst w)) snd"
  have key: "meta_key (bs_Meta (one_session Success Success ''s1'')) = (''demo'', ''run'')"
    "om_DeletionTimestamp (bs_Meta (one_session Success Success ''s1'')) = None"
    by (simp_all add: one_session_simps meta_key_def)
  have "?audited confs_only [] {} {}" by (rule audited.start) (simp add: confs_only_def)
  then have "?audited with_snapshot [] {} {}"
    by (rule audited.create [where s = "one_session Success Success ''s1''"])
      (simp_all add: key confs_only_def with_snapshot_def)
  then have "?audited asked_to_go [] (insert (meta_key (bs_Meta (one_session Success Success ''s1''))) {}) {}"
    by (rule audited.delete [where t = "utc 5"])
      (simp_all add: with_snapshot_def asked_to_go_def mark_deleted_def key deleted_session_def)
  then show ?thesis by (simp add: key)
qed

theorem snapshots_are_deleted_on_request_witness:
  "\<exists>s conf. s \<in> {deleted_session Success ''s1''} \<and>
    snapshot_job (deleted_session Success ''s1'') (snapshot_containers (deleted_session Success ''s1'') one_conf) =
      snapshot_job s (snapshot_containers s conf) \<and> (meta_key (bs_Meta s) \<in> {(''demo'', ''run'')} \<or>
    (\<exists>s' l H conf'. DeleteCall (OBackupSession s') \<in> set l \<and> expired conf' H l s'))"
proof -
  let ?s = "deleted_session Success ''s1''"
  obtain r w' l' where run: "reconcileBackupSession sample_lib (logged store_api) (\<lambda>_. utc 9) (''demo'', ''run'')
      (asked_to_go, []) = (r, (w', l'))"
    by (metis prod.collapse)
  have "l' = snd (snd (reconcileBackupSession sample_lib (logged store_api) (\<lambda>_. utc 9) (''demo'', ''run'') (asked_to_go, [])))"
    by (simp add: run)
  also have "CreateCall (OJob (snapshot_job ?s (snapshot_containers ?s one_conf))) \<in> set \<dots>"
    by (subst deletion_calls [where s = ?s and conf = one_conf and ?w1.0 = asked_to_go and ?w2.0 = asked_to_go])
      (simp_all add: session_lawsD(1,2) [OF store_api_laws] asked_to_go_def deleted_session_def one_session_simps
        ptr_IsZero_def utc_def zero_time_def tm_IsZero_def sample_lib_def snapshot_containers_def sample_status_def)
  finally have "CreateCall (OJob (snapshot_job ?s (snapshot_containers ?s one_conf))) \<in> set l'" .
  from snapshots_are_deleted_on_request [OF store_api_shared sample_lib_sorts audited.reconcile [OF sample_audit run] this]
  have "\<exists>s conf. s \<in> ran (map_of (fst asked_to_go)) \<and>
      snapshot_job ?s (snapshot_containers ?s one_conf) = snapshot_job s (snapshot_containers s conf) \<and>
      (meta_key (bs_Meta s) \<in> {(''demo'', ''run'')} \<or>
       (\<exists>s' l H conf'. DeleteCall (OBackupSession s') \<in> set l \<and> expired conf' H l s'))" by blast
  then show ?thesis by (simp add: asked_to_go_def)
qed

end
