(* ===== verification/Fairness.thy ===== *)
theory Fairness
  imports SystemRun
begin

section \<open>Fair runs: every session of a namespace ends, unless an orphan blocks it\<close>

text \<open>
  Infinite runs of the system of theory SystemRun. The controller and the sidecars are fair: a
  session is reconciled again and again at moments at which the API server serves the calls (at any
  other moment it may refuse them), and a busy target is reported on eventually. Then the sessions
  of a namespace in which no more sessions are created all end. The guard \<open>isBackupOngoing\<close> holds
  new sessions back while one is \<open>Running\<close>; the theorem includes that it starves none of them.
\<close>

subsection \<open>Well-founded progress\<close>

text \<open>A sequence that only stays or descends in a well-founded order settles.\<close>

lemma descending_settles:
  assumes "wf R" and step: "\<And>i. n \<le> i \<Longrightarrow> f (Suc i) = f i \<or> (f (Suc i), f i) \<in> R\<^sup>+"
  shows "\<exists>N\<ge>n. \<forall>j\<ge>N. f j = f N"
proof -
  have "wf (R\<^sup>+)" using assms(1) by (rule wf_trancl)
  then obtain y where y: "y \<in> f ` {n..}" "\<And>z. (z, y) \<in> R\<^sup>+ \<Longrightarrow> z \<notin> f ` {n..}"
    by (rule wfE_min [of _ "f n" "f ` {n..}"]) auto
  then obtain N where N: "n \<le> N" "y = f N" by auto
  have "f j = f N" if "N \<le> j" for j
    using that
  proof (induction j rule: dec_induct)
    case (step j)
    have "(f (Suc j), f N) \<notin> R\<^sup>+" using y(2) [of "f (Suc j)"] N step.hyps(1) by auto
    with assms(2) [of j] step N(1) show ?case by auto
  qed simp
  with N(1) show ?thesis by blast
qed

lemma machine_steps_progress:
  assumes "sidecar_protocol side" and "(machine_step side conf)\<^sup>*\<^sup>* m m'"
  shows "m' = m \<or> (m', m) \<in> (progress_order (bcs_Targets (bc_Spec conf)))\<^sup>+"
  using assms(2)
proof (induction rule: rtranclp_induct)
  case (step m' m'')
  then show ?case using machine_step_progress [OF assms(1) step.hyps(2)] by (auto intro: trancl_trans)
qed simp

subsection \<open>Moments at which the API server serves\<close>

text \<open>
  At the moment \<open>w\<close> the reads are answered with what is stored, and the writes on the session \<open>k\<close> are
  accepted.
\<close>

definition serves :: "'w api \<Rightarrow> ('w \<Rightarrow> object_key \<rightharpoonup> backup_session) \<Rightarrow> ('w \<Rightarrow> object_key \<rightharpoonup> backup_configuration) \<Rightarrow>
    object_key \<Rightarrow> 'w \<Rightarrow> bool" where
  "serves A S C k w \<longleftrightarrow> api_BackupSession A k w = (answer_of (S w k), w) \<and>
     (\<forall>r. api_BackupConfiguration A r w = (answer_of (C w r), w)) \<and>
     (\<forall>ns v. \<exists>xs. api_ListBackupSessions A ns v w = (Inr xs, w) \<and>
        set xs = {s. \<exists>n. S w (ns, n) = Some s \<and> v \<in> set (sessionStateIndex s)}) \<and>
     (\<forall>s. meta_key (bs_Meta s) = k \<and> S w k \<noteq> None \<longrightarrow>
        (\<exists>w'. api_StatusUpdate A (OBackupSession s) w = (Inr (), w') \<and> S w' = put_status s (S w))) \<and>
     (\<forall>s. meta_key (bs_Meta s) = k \<and> S w k \<noteq> None \<and> om_DeletionTimestamp (bs_Meta s) = None \<longrightarrow>
        (\<exists>w'. api_Update A (OBackupSession s) w = (Inr (), w') \<and> S w' = put_session s (S w)))"

lemma servesD:
  assumes "serves A S C k w"
  shows "api_BackupSession A k w = (answer_of (S w k), w)"
    "api_BackupConfiguration A r w = (answer_of (C w r), w)"
    "\<exists>xs. api_ListBackupSessions A ns v w = (Inr xs, w) \<and>
       set xs = {s. \<exists>n. S w (ns, n) = Some s \<and> v \<in> set (sessionStateIndex s)}"
    "meta_key (bs_Meta s) = k \<Longrightarrow> S w k \<noteq> None \<Longrightarrow>
       \<exists>w'. api_StatusUpdate A (OBackupSession s) w = (Inr (), w') \<and> S w' = put_status s (S w)"
    "meta_key (bs_Meta s) = k \<Longrightarrow> S w k \<noteq> None \<Longrightarrow> om_DeletionTimestamp (bs_Meta s) = None \<Longrightarrow>
       \<exists>w'. api_Update A (OBackupSession s) w = (Inr (), w') \<and> S w' = put_session s (S w)"
  using assms unfolding serves_def by blast+

text \<open>The guard at such a moment.\<close>

definition running_in :: "string \<Rightarrow> (object_key \<rightharpoonup> backup_session) \<Rightarrow> bool" where
  "running_in ns m \<longleftrightarrow> (\<exists>n s. m (ns, n) = Some s \<and> state_string (bst_SessionState (bs_Status s)) = ''Running'')"

lemma served_guard:
  assumes "serves A S C k w"
  shows "isBackupOngoing A conf w = (Ret (running_in (om_Namespace (bc_Meta conf)) (S w)), w)"
proof -
  let ?ns = "om_Namespace (bc_Meta conf)"
  obtain xs where xs: "api_ListBackupSessions A ?ns ''Running'' w = (Inr xs, w)"
    "set xs = {s. \<exists>n. S w (?ns, n) = Some s \<and> ''Running'' \<in> set (sessionStateIndex s)}"
    using servesD(3) [OF assms] by blast
  have "xs \<noteq> [] \<longleftrightarrow> (\<exists>s. s \<in> set xs)" by (cases xs) auto
  also have "\<dots> \<longleftrightarrow> running_in ?ns (S w)"
    unfolding xs(2) running_in_def sessionStateIndex_def by fastforce
  finally show ?thesis using xs(1) by (simp add: isBackupOngoing_def go_exec)
qed

definition session_over :: "backup_session \<Rightarrow> bool" where
  "session_over s \<longleftrightarrow> bst_SessionState (bs_Status s) \<in> {Success, Failure}"

definition busy_target :: "target_status \<Rightarrow> bool" where
  "busy_target t \<longleftrightarrow> ts_SessionState t \<in> {Initializing, Running, Finalize, WaitingForJob}"

text \<open>A reconciliation at such a moment: without the finalizer it adds it.\<close>

lemma served_reconcile:
  assumes "serves A S C k w" and "S w k = Some s" and "om_DeletionTimestamp (bs_Meta s) = None"
    and "C w (bss_Ref (bs_Spec s)) = Some conf"
  shows "reconcileBackupSession L A now k w = backupSessionAdvance L A now conf s w"
  using assms by (simp add: reconcileBackupSession_def backupSessionDeletion_def bind_go_run try_go_run call_run
      ret_run servesD ptr_IsZero_def)

lemma served_finalizer:
  assumes srv: "serves A S C k w" and s: "S w k = Some s" "meta_key (bs_Meta s) = k" "om_DeletionTimestamp (bs_Meta s) = None"
    and conf: "C w (bss_Ref (bs_Spec s)) = Some conf" and laws: "finalizer_laws L"
    and run: "reconcileBackupSession L A now k w = (r, w')" and s': "S w' k = Some s'"
    and lacks: "\<not> ContainsFinalizer L (om_Finalizers (bs_Meta s)) finalizerName"
  shows "protected L s'"
proof -
  let ?s = "s\<lparr>bs_Meta := (bs_Meta s)\<lparr>om_Finalizers := AddFinalizer L (om_Finalizers (bs_Meta s)) finalizerName\<rparr>\<rparr>"
  have key: "meta_key (bs_Meta ?s) = k" using s(2) by (simp add: meta_key_def)
  then obtain w1 where w1: "api_Update A (OBackupSession ?s) w = (Inr (), w1)" "S w1 = put_session ?s (S w)"
    using servesD(5) [OF srv key] s(1,3) by auto
  have "w' = w1"
    using run w1(1) lacks by (simp add: served_reconcile [OF srv s(1,3) conf] backupSessionAdvance_def go_exec)
  with w1(2) s(1) s' key have "s' = ?s\<lparr>bs_Status := bs_Status s\<rparr>" by (auto simp: put_session_def)
  with laws show ?thesis by (simp add: protected_def finalizer_laws_def)
qed

text \<open>With it, a session that is not over moves on, waits for a sidecar, or is held back by the guard.\<close>

lemma served_status:
  assumes "serves A S C k w" and "S w k = Some s" and "meta_key (bs_Meta x) = k"
  shows "\<exists>w1 s1. api_StatusUpdate A (OBackupSession x) w = (Inr (), w1) \<and> S w1 k = Some s1 \<and> bs_Status s1 = bs_Status x"
proof -
  obtain w1 where "api_StatusUpdate A (OBackupSession x) w = (Inr (), w1)" "S w1 = put_status x (S w)"
    using servesD(4) [OF assms(1,3)] assms(2) by auto
  with assms show ?thesis by (auto simp: put_status_def)
qed

lemma served_switch:
  assumes srv: "serves A S C k w" and s: "S w k = Some s" "meta_key (bs_Meta s) = k"
    and run: "bind_go (backupSessionSwitch L A now conf s) (\<lambda>r. case r of
         None \<Rightarrow> ret \<lparr>RequeueAfter = 30\<rparr>
       | Some (n, s') \<Rightarrow> if n \<noteq> Unset then
             bind_go (call (api_StatusUpdate A (OBackupSession (with_state n s')))) (\<lambda>_. ret no_requeue)
           else ret no_requeue) w = (r, w')"
    and sw: "backupSessionSwitch L A now conf s w = (Ret (Some (n, x)), w)" "n \<noteq> Unset" "bs_Meta x = bs_Meta s"
  shows "\<exists>s'. S w' k = Some s' \<and> bs_machine s' = \<lparr>mc_State = n, mc_Targets = bst_Targets (bs_Status x)\<rparr>"
proof -
  have "meta_key (bs_Meta (with_state n x)) = k" using sw(3) s(2) by (simp add: with_state_def)
  then obtain w1 s1 where w1: "api_StatusUpdate A (OBackupSession (with_state n x)) w = (Inr (), w1)"
    "S w1 k = Some s1" "bs_Status s1 = bs_Status (with_state n x)"
    using served_status [OF srv s(1)] by blast
  have "w' = w1" using run sw w1(1) by (simp add: bind_go_run call_run ret_run)
  with w1(2,3) show ?thesis by (simp add: bs_machine_def with_state_def)
qed

lemma served_advance:
  assumes srv: "serves A S C k w" and s: "S w k = Some s" "meta_key (bs_Meta s) = k" "om_DeletionTimestamp (bs_Meta s) = None"
    and fin: "ContainsFinalizer L (om_Finalizers (bs_Meta s)) finalizerName"
    and conf: "C w (bss_Ref (bs_Spec s)) = Some conf" "bcs_Targets (bc_Spec conf) \<noteq> []"
    and protocol: "sidecar_protocol side" and reach: "reachable side conf (bs_machine s)" and "\<not> session_over s"
    and run: "reconcileBackupSession L A now k w = (r, w')"
  shows "(\<exists>s'. S w' k = Some s' \<and> bs_machine s' \<noteq> bs_machine s) \<or> (\<exists>t \<in> set (bst_Targets (bs_Status s)). busy_target t) \<or>
    bst_SessionState (bs_Status s) = New \<and> running_in (om_Namespace (bc_Meta conf)) (S w)"
proof -
  let ?m = "bs_machine s" and ?ongoing = "running_in (om_Namespace (bc_Meta conf)) (S w)"
  have "reconcileBackupSession L A now k w = bind_go (backupSessionSwitch L A now conf s) (\<lambda>r. case r of
         None \<Rightarrow> ret \<lparr>RequeueAfter = 30\<rparr>
       | Some (n, s') \<Rightarrow> if n \<noteq> Unset then
             bind_go (call (api_StatusUpdate A (OBackupSession (with_state n s')))) (\<lambda>_. ret no_requeue)
           else ret no_requeue) w"
    using fin by (simp add: served_reconcile [OF srv s(1,3) conf(1)] backupSessionAdvance_def)
  note moved = served_switch [OF srv s(1,2) this [symmetric, unfolded run]]
  consider (create) "mc_State ?m = Unset" | (init) "mc_State ?m = New" | (check) "mc_State ?m \<in> {Initializing, Running, Finalize}"
    using reachable_phase [OF protocol reach] \<open>\<not> session_over s\<close>
    by (cases "mc_State ?m") (auto simp: session_over_def bs_machine_def)
  then show ?thesis
  proof cases
    case create
    then have "backupSessionSwitch L A now conf s w = (Ret (Some (New, s\<lparr>bs_Status := (bs_Status s)\<lparr>bst_StartTime := Some (now 0)\<rparr>\<rparr>)), w)"
      by (simp add: backupSessionSwitch_def bs_machine_def ret_run)
    from moved [OF this] create show ?thesis by (auto simp: bs_machine_def)
  next
    case init
    show ?thesis
    proof (cases ?ongoing)
      case True
      with init show ?thesis by (simp add: bs_machine_def)
    next
      case False
      then have "backupSessionSwitch L A now conf s w = (Ret (Some (Initializing, with_targets (initSession now conf) s)), w)"
        by (simp add: backup_session.switch_init [OF init] served_guard [OF srv] bind_go_run ret_run)
      from moved [OF this] init show ?thesis by (auto simp: bs_machine_def with_targets_def)
    qed
  next
    case check
    obtain n tss where adv: "advance (mc_State ?m) (now 0) (mc_Targets ?m) conf = Some (n, tss)"
      using reachable_advance [OF protocol reach] by blast
    show ?thesis
    proof (cases "n = Unset \<or> n = mc_State ?m \<and> tss = mc_Targets ?m")
      case True
      have "length (mc_Targets ?m) = length (bcs_Targets (bc_Spec conf))"
        using reachable_tries [OF protocol reach] check by (auto simp: tries_bounded_def)
      with conf(2) have "mc_Targets ?m \<noteq> []" by auto
      with advance_idle [OF check adv True] check obtain t where "t \<in> set (mc_Targets ?m)" "busy_target t"
        by (auto simp: pending_job_def busy_target_def)
      then show ?thesis by (auto simp: bs_machine_def)
    next
      case False
      have "backupSessionSwitch L A now conf s w = (Ret (Some (n, with_targets tss s)), w)"
        by (simp add: backup_session.switch_check [OF check] adv bind_go_run of_option_run ret_run)
      from moved [OF this] False show ?thesis by (auto simp: bs_machine_def with_targets_def)
    qed
  qed
qed

subsection \<open>Infinite runs\<close>

text \<open>A run starts from a sound store, for instance from one without sessions.\<close>

definition system_run :: "lib \<Rightarrow> 'w api \<Rightarrow> ('w \<Rightarrow> object_key \<rightharpoonup> backup_session) \<Rightarrow>
    ('w \<Rightarrow> object_key \<rightharpoonup> backup_configuration) \<Rightarrow> (target_status \<Rightarrow> target_status \<Rightarrow> bool) \<Rightarrow> (nat \<Rightarrow> 'w) \<Rightarrow> bool" where
  "system_run L A S C side W \<longleftrightarrow> sound side (C (W 0)) (S (W 0)) \<and> (\<forall>i. system_step L A S C side (W i) (W (Suc i)))"

text \<open>From the moment \<open>n\<close> on the session is stored, and nobody asks for its deletion.\<close>

definition lasting :: "('w \<Rightarrow> object_key \<rightharpoonup> backup_session) \<Rightarrow> (nat \<Rightarrow> 'w) \<Rightarrow> nat \<Rightarrow> object_key \<Rightarrow> bool" where
  "lasting S W n k \<longleftrightarrow> (\<forall>i\<ge>n. \<exists>s. S (W i) k = Some s \<and> om_DeletionTimestamp (bs_Meta s) = None)"

definition served_fairly :: "lib \<Rightarrow> 'w api \<Rightarrow> ('w \<Rightarrow> object_key \<rightharpoonup> backup_session) \<Rightarrow>
    ('w \<Rightarrow> object_key \<rightharpoonup> backup_configuration) \<Rightarrow> (nat \<Rightarrow> 'w) \<Rightarrow> object_key \<Rightarrow> bool" where
  "served_fairly L A S C W k \<longleftrightarrow>
     (\<forall>i. \<exists>j\<ge>i. \<exists>now r. reconcileBackupSession L A now k (W j) = (r, W (Suc j)) \<and> serves A S C k (W j))"

definition reported_fairly :: "('w \<Rightarrow> object_key \<rightharpoonup> backup_session) \<Rightarrow> (nat \<Rightarrow> 'w) \<Rightarrow> object_key \<Rightarrow> bool" where
  "reported_fairly S W k \<longleftrightarrow>
     (\<forall>i s x. S (W i) k = Some s \<and> \<not> session_over s \<and> x < length (bst_Targets (bs_Status s)) \<and>
        busy_target (bst_Targets (bs_Status s) ! x) \<longrightarrow>
        (\<exists>j\<ge>i. \<forall>s'. S (W j) k = Some s' \<longrightarrow> bst_Targets (bs_Status s') ! x \<noteq> bst_Targets (bs_Status s) ! x))"

lemma lastingD: "lasting S W n k \<Longrightarrow> n \<le> i \<Longrightarrow> \<exists>s. S (W i) k = Some s \<and> om_DeletionTimestamp (bs_Meta s) = None"
  by (simp add: lasting_def)

lemma run_facts:
  assumes "shared_store A S C" and "sidecar_protocol side" and "sort_law L" and run: "system_run L A S C side W"
  shows "C (W i) = C (W 0) \<and> sound side (C (W 0)) (S (W i))"
proof (induction i)
  case 0
  then show ?case using run by (simp add: system_run_def)
next
  case (Suc i)
  have "system_step L A S C side (W i) (W (Suc i))" using run by (simp add: system_run_def)
  from system_step_keeps [OF assms(1-3) this] Suc.IH show ?case by auto
qed

lemma stored_becomes:
  assumes laws: "shared_store A S C" "sidecar_protocol side" "sort_law L" and run: "system_run L A S C side W"
    and "i \<le> j" and s: "S (W i) k = Some s"
  shows "\<forall>l. i \<le> l \<and> l \<le> j \<longrightarrow> S (W l) k \<noteq> None \<Longrightarrow> S (W j) k = Some s' \<Longrightarrow> becomes L side (C (W 0)) s s'"
  using \<open>i \<le> j\<close>
proof (induction j arbitrary: s' rule: dec_induct)
  case base
  with s show ?case by simp
next
  case (step j)
  then obtain s1 where s1: "S (W j) k = Some s1" by (metis le_SucI not_None_eq order.refl)
  have "system_step L A S C side (W j) (W (Suc j))" using run by (simp add: system_run_def)
  from system_step_keeps [OF laws this] run_facts [OF laws run, of j] s1 step.prems
  have "becomes L side (C (W 0)) s1 s'" by (metis (no_types))
  moreover have "becomes L side (C (W 0)) s s1" by (rule step.IH [OF _ s1]) (use step.prems(1) in simp)
  ultimately show ?case by (rule becomes_trans [rotated])
qed

lemma lasting_becomes:
  assumes "shared_store A S C" "sidecar_protocol side" "sort_law L" "system_run L A S C side W"
    and "lasting S W n k" and "n \<le> i" and "i \<le> j" and "S (W i) k = Some s" and "S (W j) k = Some s'"
  shows "becomes L side (C (W 0)) s s'"
  using stored_becomes [OF assms(1-4,7,8) _ assms(9)] lastingD [OF assms(5)] assms(6) by (metis option.distinct(1) order.trans)

lemma session_settles:
  assumes laws: "shared_store A S C" "sidecar_protocol side" "sort_law L" and run: "system_run L A S C side W"
    and last: "lasting S W n k" and s: "S (W n) k = Some s" and conf: "C (W 0) (bss_Ref (bs_Spec s)) = Some conf"
  shows "\<exists>N\<ge>n. \<exists>m. \<forall>j\<ge>N. \<exists>s'. S (W j) k = Some s' \<and> bs_machine s' = m"
proof -
  let ?f = "\<lambda>j. bs_machine (the (S (W j) k))"
  have "?f (Suc i) = ?f i \<or> (?f (Suc i), ?f i) \<in> (progress_order (bcs_Targets (bc_Spec conf)))\<^sup>+" if n: "n \<le> i" for i
  proof -
    obtain s1 s2 where s1: "S (W i) k = Some s1" and s2: "S (W (Suc i)) k = Some s2"
      using lastingD [OF last n] lastingD [OF last le_SucI [OF n]] by blast
    have "bs_Spec s1 = bs_Spec s" using lasting_becomes [OF laws run last order.refl n s s1] by (simp add: becomes_def)
    with lasting_becomes [OF laws run last n _ s1 s2] conf
    have "(machine_step side conf)\<^sup>*\<^sup>* (bs_machine s1) (bs_machine s2)" by (simp add: becomes_def)
    with machine_steps_progress [OF laws(2)] s1 s2 show ?thesis by simp
  qed
  from descending_settles [where f = ?f, OF wf_progress_order this] obtain N where N: "N \<ge> n" "\<forall>j\<ge>N. ?f j = ?f N" by blast
  have "\<exists>s'. S (W j) k = Some s' \<and> bs_machine s' = ?f N" if j: "j \<ge> N" for j
  proof -
    obtain s' where s': "S (W j) k = Some s'" using lastingD [OF last, of j] N(1) j by auto
    have "?f j = ?f N" using N(2) j by blast
    with s' show ?thesis by simp
  qed
  with N(1) show ?thesis by blast
qed

lemma lasting_facts:
  assumes laws: "shared_store A S C" "sidecar_protocol side" "sort_law L" and run: "system_run L A S C side W"
    and last: "lasting S W n k" and s: "S (W n) k = Some s" and conf: "C (W 0) (bss_Ref (bs_Spec s)) = Some conf"
    and j: "n \<le> j"
  shows "\<exists>s'. S (W j) k = Some s' \<and> om_DeletionTimestamp (bs_Meta s') = None \<and> meta_key (bs_Meta s') = k \<and>
    C (W j) (bss_Ref (bs_Spec s')) = Some conf \<and> reachable side conf (bs_machine s')"
proof -
  obtain s' where s': "S (W j) k = Some s'" "om_DeletionTimestamp (bs_Meta s') = None" using lastingD [OF last j] by blast
  have "bs_Spec s' = bs_Spec s" using lasting_becomes [OF laws run last order.refl j s s'(1)] by (simp add: becomes_def)
  with s' run_facts [OF laws run, of j] conf show ?thesis by (auto simp: good_session_def dest: soundD)
qed

text \<open>The first reconciliation at a serving moment adds the finalizer, if need be, and it stays.\<close>

lemma finalizer_stays:
  assumes laws: "shared_store A S C" "sidecar_protocol side" "sort_law L" and run: "system_run L A S C side W"
    and fin: "finalizer_laws L" and last: "lasting S W n k" and s: "S (W n) k = Some s"
    and conf: "C (W 0) (bss_Ref (bs_Spec s)) = Some conf" and fair: "served_fairly L A S C W k" and "n \<le> N"
  shows "\<exists>M\<ge>N. \<forall>j\<ge>M. \<forall>s'. S (W j) k = Some s' \<longrightarrow> ContainsFinalizer L (om_Finalizers (bs_Meta s')) finalizerName"
proof -
  obtain i now r where i: "N \<le> i" "reconcileBackupSession L A now k (W i) = (r, W (Suc i))" "serves A S C k (W i)"
    using fair unfolding served_fairly_def by blast
  then have n: "n \<le> i" using \<open>n \<le> N\<close> by simp
  obtain s1 where s1: "S (W i) k = Some s1" "om_DeletionTimestamp (bs_Meta s1) = None" "meta_key (bs_Meta s1) = k"
    "C (W i) (bss_Ref (bs_Spec s1)) = Some conf"
    using lasting_facts [OF laws run last s conf n] by blast
  obtain s2 where s2: "S (W (Suc i)) k = Some s2" using lastingD [OF last le_SucI [OF n]] by blast
  have prot: "protected L s2"
  proof (cases "ContainsFinalizer L (om_Finalizers (bs_Meta s1)) finalizerName")
    case True
    moreover have "becomes L side (C (W 0)) s1 s2" using lasting_becomes [OF laws run last n _ s1(1) s2] by simp
    ultimately show ?thesis by (simp add: becomes_def protected_def)
  next
    case False
    with served_finalizer [OF i(3) s1(1,3,2,4) fin i(2) s2] show ?thesis by blast
  qed
  have "ContainsFinalizer L (om_Finalizers (bs_Meta s')) finalizerName" if j: "Suc i \<le> j" and s': "S (W j) k = Some s'" for j s'
  proof -
    have "becomes L side (C (W 0)) s2 s'" using lasting_becomes [OF laws run last le_SucI [OF n] j s2 s'] .
    moreover have "om_DeletionTimestamp (bs_Meta s') = None" using lastingD [OF last, of j] n j s' by auto
    ultimately show ?thesis using prot by (auto simp: becomes_def protected_def)
  qed
  with i(1) show ?thesis by (intro exI [of _ "Suc i"]) auto
qed

text \<open>Where a session settles: it is over, or the guard holds it back.\<close>

lemma settled_over:
  assumes laws: "shared_store A S C" "sidecar_protocol side" "sort_law L" and run: "system_run L A S C side W"
    and fin: "finalizer_laws L" and last: "lasting S W n k" and s: "S (W n) k = Some s"
    and conf: "C (W 0) (bss_Ref (bs_Spec s)) = Some conf" "bcs_Targets (bc_Spec conf) \<noteq> []"
    and fair: "served_fairly L A S C W k" "reported_fairly S W k"
    and settled: "n \<le> N" "\<And>j. N \<le> j \<Longrightarrow> \<exists>s'. S (W j) k = Some s' \<and> bs_machine s' = m"
  shows "mc_State m \<in> {Success, Failure} \<or>
    mc_State m = New \<and> (\<exists>j\<ge>N. running_in (om_Namespace (bc_Meta conf)) (S (W j)))"
proof (cases "mc_State m \<in> {Success, Failure}")
  case False
  obtain M where M: "N \<le> M" "\<And>j s'. M \<le> j \<Longrightarrow> S (W j) k = Some s' \<Longrightarrow>
      ContainsFinalizer L (om_Finalizers (bs_Meta s')) finalizerName"
    using finalizer_stays [OF laws run fin last s conf(1) fair(1) settled(1)] by blast
  obtain i now r where i: "M \<le> i" "reconcileBackupSession L A now k (W i) = (r, W (Suc i))" "serves A S C k (W i)"
    using fair(1) unfolding served_fairly_def by blast
  have N: "N \<le> i" and n: "n \<le> i" using M(1) i(1) settled(1) by simp_all
  obtain s' where s': "S (W i) k = Some s'" "bs_machine s' = m" "om_DeletionTimestamp (bs_Meta s') = None"
    "meta_key (bs_Meta s') = k" "C (W i) (bss_Ref (bs_Spec s')) = Some conf" "reachable side conf (bs_machine s')"
    using lasting_facts [OF laws run last s conf(1) n] settled(2) [OF N] by auto
  have going: "\<not> session_over s'" using False s'(2) by (auto simp: session_over_def bs_machine_def)
  consider (moved) s2 where "S (W (Suc i)) k = Some s2" "bs_machine s2 \<noteq> m"
    | (busy) t where "t \<in> set (bst_Targets (bs_Status s'))" "busy_target t"
    | (held) "bst_SessionState (bs_Status s') = New" "running_in (om_Namespace (bc_Meta conf)) (S (W i))"
    using served_advance [OF i(3) s'(1,4,3) M(2) [OF i(1) s'(1)] s'(5) conf(2) laws(2) s'(6) going i(2)] s'(2) by blast
  then show ?thesis
  proof cases
    case moved
    with settled(2) [of "Suc i"] N show ?thesis by simp
  next
    case busy
    then obtain x where x: "x < length (bst_Targets (bs_Status s'))" "busy_target (bst_Targets (bs_Status s') ! x)"
      by (metis in_set_conv_nth)
    with fair(2) s'(1) going obtain j where j: "i \<le> j"
      "\<forall>s2. S (W j) k = Some s2 \<longrightarrow> bst_Targets (bs_Status s2) ! x \<noteq> bst_Targets (bs_Status s') ! x"
      unfolding reported_fairly_def by blast
    obtain s2 where "S (W j) k = Some s2" "bs_machine s2 = m" using settled(2) [of j] N j(1) by auto
    with j(2) s'(2) show ?thesis by (auto simp: bs_machine_def)
  next
    case held
    with s'(2) N show ?thesis by (auto simp: bs_machine_def)
  qed
qed simp

subsection \<open>A fair run\<close>

text \<open>One session is created, succeeds, and is then reconciled for ever.\<close>

definition stage :: "session_state \<Rightarrow> session_state list \<Rightarrow> store" where
  "stage st ss = ([((''demo'', ''first''), with_state st (with_targets (map sample_status ss) (new_session ''first'')))],
     [(''demo'', ''backup-demo'') \<mapsto> one_conf])"

definition stages :: "(session_state \<times> session_state list) list" where
  "stages = [(New, []), (Initializing, [Unset]), (Initializing, [Initializing]), (Initializing, [Initialized]),
     (Running, [Initialized]), (Running, [Running]), (Running, [Waiting]), (Finalize, [Waiting]),
     (Finalize, [Finalize]), (Finalize, [Success]), (Success, [Success])]"

fun fair_run :: "nat \<Rightarrow> store" where
  "fair_run 0 = confs_only"
| "fair_run (Suc 0) = after_create"
| "fair_run (Suc (Suc j)) = case_prod stage (stages ! min j 10)"

abbreviation "first_key \<equiv> (''demo'', ''first'')"

lemma store_serves: "serves store_api (\<lambda>w. map_of (fst w)) snd k w"
proof -
  have "\<exists>w'. api_Update store_api (OBackupSession s) w = (Inr (), w') \<and> map_of (fst w') = put_session s (map_of (fst w))"
    if "meta_key (bs_Meta s) = k" "map_of (fst w) k \<noteq> None" for s
    using that by (auto simp: store_api_def store_write_def put_session_def AList.update_conv' case_prod_beta)
  moreover have "\<exists>w'. api_StatusUpdate store_api (OBackupSession s) w = (Inr (), w') \<and> map_of (fst w') = put_status s (map_of (fst w))"
    if "meta_key (bs_Meta s) = k" "map_of (fst w) k \<noteq> None" for s
    using session_lawsD(4) [OF store_api_laws, of s w] that by fastforce
  ultimately show ?thesis
    unfolding serves_def using session_lawsD(1-3) [OF store_api_laws] by blast
qed

lemma stage_session:
  "map_of (fst (stage st ss)) first_key = Some (with_state st (with_targets (map sample_status ss) (new_session ''first'')))"
  "snd (stage st ss) (''demo'', ''backup-demo'') = Some one_conf"
  by (simp_all add: stage_def)

lemma stage_reconcile:
  assumes "backupSessionSwitch sample_lib store_api (\<lambda>_. utc 0) one_conf
      (with_state st (with_targets (map sample_status ss) (new_session ''first''))) (stage st ss) =
      (Ret (Some (n, with_state st (with_targets (map sample_status ss') (new_session ''first'')))), stage st ss)"
  shows "\<exists>r. reconcileBackupSession sample_lib store_api (\<lambda>_. utc 0) first_key (stage st ss) =
    (r, if n = Unset then stage st ss else stage n ss')"
proof -
  let ?s = "with_state st (with_targets (map sample_status ss) (new_session ''first''))"
  have s: "om_DeletionTimestamp (bs_Meta ?s) = None" "bss_Ref (bs_Spec ?s) = (''demo'', ''backup-demo'')"
    "ContainsFinalizer sample_lib (om_Finalizers (bs_Meta ?s)) finalizerName"
    by (simp_all add: with_state_def with_targets_def new_session_def named_meta_def sample_lib_def)
  have conf: "snd (stage st ss) (bss_Ref (bs_Spec ?s)) = Some one_conf" by (simp only: s(2) stage_session(2))
  have put: "api_StatusUpdate store_api (OBackupSession (with_state n (with_state st (with_targets (map sample_status ss')
      (new_session ''first''))))) (stage st ss) = (Inr (), stage n ss')"
    by (simp add: store_api_def store_write_def stage_def with_state_def with_targets_def new_session_def named_meta_def
        meta_key_def)
  have "reconcileBackupSession sample_lib store_api (\<lambda>_. utc 0) first_key (stage st ss) =
      backupSessionAdvance sample_lib store_api (\<lambda>_. utc 0) one_conf ?s (stage st ss)"
    by (rule served_reconcile [where S = "\<lambda>w. map_of (fst w)" and C = snd]) (rule store_serves stage_session(1) s(1) conf)+
  then show ?thesis
    using s(3) assms put by (simp add: backupSessionAdvance_def bind_go_run call_run ret_run)
qed

lemma stage_check:
  assumes "st \<in> {Initializing, Running, Finalize}" and "advance st (utc 0) (map sample_status ss) one_conf = Some (n, map sample_status ss')"
    and "n \<noteq> Unset"
  shows "\<exists>r. reconcileBackupSession sample_lib store_api (\<lambda>_. utc 0) first_key (stage st ss) = (r, stage n ss')"
proof -
  let ?s = "with_state st (with_targets (map sample_status ss) (new_session ''first''))"
  have m: "mc_State (bs_machine ?s) = st" "mc_Targets (bs_machine ?s) = map sample_status ss"
    by (simp_all add: bs_machine_def with_state_def with_targets_def)
  have "backupSessionSwitch sample_lib store_api (\<lambda>_. utc 0) one_conf ?s (stage st ss) =
      (Ret (Some (n, with_state st (with_targets (map sample_status ss') (new_session ''first'')))), stage st ss)"
    using backup_session.switch_check [of ?s sample_lib store_api "\<lambda>_. utc 0" one_conf] assms m
    by (simp add: bind_go_run of_option_run ret_run with_state_def with_targets_def)
  from stage_reconcile [OF this] assms(3) show ?thesis by simp
qed

lemma stage_new:
  "\<exists>r. reconcileBackupSession sample_lib store_api (\<lambda>_. utc 0) first_key (stage New []) = (r, stage Initializing [Unset])"
proof -
  let ?s = "with_state New (with_targets (map sample_status []) (new_session ''first''))"
  have "\<not> running_in ns (map_of (fst (stage New [])))" for ns
    by (auto simp: running_in_def stage_def with_state_def split: if_splits)
  then have guard: "isBackupOngoing store_api one_conf (stage New []) = (Ret False, stage New [])"
    using served_guard [OF store_serves [of first_key], of one_conf] by simp
  have targets: "initSession (\<lambda>_. utc 0) one_conf = map sample_status [Unset]"
    by (simp add: initSession_def one_targets sample_target_def sample_status_def)
  have "mc_State (bs_machine ?s) = New" by (simp add: bs_machine_def with_state_def)
  then have "backupSessionSwitch sample_lib store_api (\<lambda>_. utc 0) one_conf ?s (stage New []) =
      (Ret (Some (Initializing, with_state New (with_targets (map sample_status [Unset]) (new_session ''first'')))), stage New [])"
    by (subst backup_session.switch_init)
      (simp_all add: bind_go_def guard targets ret_def with_state_def with_targets_def)
  from stage_reconcile [OF this] show ?thesis by simp
qed

lemma stage_success:
  "\<exists>r. reconcileBackupSession sample_lib store_api (\<lambda>_. utc 0) first_key (stage Success [Success]) = (r, stage Success [Success])"
proof -
  let ?s = "with_state Success (with_targets (map sample_status [Success]) (new_session ''first''))"
  have "cleanupSessions sample_lib store_api one_conf (stage Success [Success]) = (Ret (), stage Success [Success])"
    by (simp add: cleanupSessions_def bind_go_def try_go_def call_def store_api_def stage_def ret_def)
  then have "backupSessionSwitch sample_lib store_api (\<lambda>_. utc 0) one_conf ?s (stage Success [Success]) =
      (Ret (Some (Unset, ?s)), stage Success [Success])"
    by (simp add: backupSessionSwitch_def with_state_def bind_go_run ret_run)
  from stage_reconcile [OF this] show ?thesis by simp
qed

text \<open>The run is one of the system, and it is fair.\<close>

abbreviation "store_step \<equiv> system_step sample_lib store_api (\<lambda>w. map_of (fst w)) snd sample_side"

lemma reconcile_step:
  "\<exists>r. reconcileBackupSession sample_lib store_api (\<lambda>_. utc 0) first_key w = (r, w') \<Longrightarrow> store_step w w'"
  by (auto intro: system_step.reconcile)

lemma report_step:
  assumes "(s, s') \<in> report_edges"
  shows "store_step (stage st [s]) (stage st [s'])"
proof (rule system_step.report [where k = first_key and i = 0 and t = "sample_status s'"])
  show "map_of (fst (stage st [s])) first_key = Some (with_state st (with_targets (map sample_status [s]) (new_session ''first'')))"
    by (rule stage_session)
qed (use assms in \<open>simp_all add: stage_def with_state_def with_targets_def new_session_def sample_side_def sample_status_def\<close>)

lemma stage_steps: "successively (\<lambda>x y. store_step (case_prod stage x) (case_prod stage y)) stages"
proof -
  have check: "store_step (stage st [s]) (stage n [s'])"
    if "st \<in> {Initializing, Running, Finalize}" "advance st (utc 0) (map sample_status [s]) one_conf = Some (n, map sample_status [s'])"
      "n \<noteq> Unset" for st s n s'
    using stage_check [OF that] by (rule reconcile_step)
  have "store_step (stage New []) (stage Initializing [Unset])" by (rule reconcile_step [OF stage_new])
  moreover have "store_step (stage Initializing [Unset]) (stage Initializing [Initializing])"
    "store_step (stage Initializing [Initialized]) (stage Running [Initialized])"
    "store_step (stage Running [Initialized]) (stage Running [Running])"
    "store_step (stage Running [Waiting]) (stage Finalize [Waiting])"
    "store_step (stage Finalize [Waiting]) (stage Finalize [Finalize])"
    "store_step (stage Finalize [Success]) (stage Success [Success])"
    by (rule check; simp add: one_simps)+
  moreover have "store_step (stage Initializing [Initializing]) (stage Initializing [Initialized])"
    "store_step (stage Running [Running]) (stage Running [Waiting])"
    "store_step (stage Finalize [Finalize]) (stage Finalize [Success])"
    by (rule report_step; simp add: report_edges_def)+
  ultimately show ?thesis by (simp add: stages_def)
qed

lemma fair_run_last [simp]: "10 \<le> j \<Longrightarrow> fair_run (Suc (Suc j)) = stage Success [Success]"
  by (simp add: stages_def)

lemma fair_run_is_run: "system_run sample_lib store_api (\<lambda>w. map_of (fst w)) snd sample_side fair_run"
  unfolding system_run_def
proof (intro conjI allI)
  show "sound sample_side (snd (fair_run 0)) (map_of (fst (fair_run 0)))" by (simp add: confs_only_def sound_def)
  fix i
  consider "i = 0" | "i = 1" | j where "i = Suc (Suc j)" "j < 10" | j where "i = Suc (Suc j)" "10 \<le> j"
    by (metis One_nat_def not_le not0_implies_Suc)
  then show "store_step (fair_run i) (fair_run (Suc i))"
  proof cases
    case 1
    then show ?thesis using sample_steps(1) by simp
  next
    case 2
    have "after_reconcile = stage New []" by (simp add: after_reconcile_def stage_def new_session_def with_state_def with_targets_def)
    with 2 sample_steps(2) show ?thesis by (simp add: stages_def)
  next
    case 3
    then have "Suc j < length stages" by (simp add: stages_def)
    with stage_steps 3 show ?thesis by (simp add: successively_conv_nth)
  next
    case 4
    with reconcile_step [OF stage_success] show ?thesis by (simp del: fair_run.simps)
  qed
qed

lemma fair_run_session:
  assumes "1 \<le> i"
  shows "\<exists>s. map_of (fst (fair_run i)) = [first_key \<mapsto> s] \<and> om_DeletionTimestamp (bs_Meta s) = None"
proof (cases "i = 1")
  case True
  then show ?thesis
    by (intro exI [of _ fresh_session]) (simp add: after_create_def fresh_session_def new_session_def named_meta_def)
next
  case False
  with assms obtain j where "i = Suc (Suc j)" by (metis One_nat_def le0 not0_implies_Suc not_one_le_zero)
  moreover obtain st ss where "stages ! min j 10 = (st, ss)" by fastforce
  ultimately show ?thesis
    by (intro exI [of _ "with_state st (with_targets (map sample_status ss) (new_session ''first''))"])
      (simp add: stage_def with_state_def with_targets_def new_session_def named_meta_def)
qed

lemma fair_run_lasting: "lasting (\<lambda>w. map_of (fst w)) fair_run 1 first_key"
  using fair_run_session by (fastforce simp: lasting_def)

lemma fair_run_served: "served_fairly sample_lib store_api (\<lambda>w. map_of (fst w)) snd fair_run first_key"
  unfolding served_fairly_def
proof
  fix i
  have "fair_run (Suc (Suc (i + 10))) = stage Success [Success]" "fair_run (Suc (Suc (Suc (i + 10)))) = stage Success [Success]"
    by (rule fair_run_last, simp)+
  then show "\<exists>j\<ge>i. \<exists>now r. reconcileBackupSession sample_lib store_api now first_key (fair_run j) = (r, fair_run (Suc j)) \<and>
      serves store_api (\<lambda>w. map_of (fst w)) snd first_key (fair_run j)"
    using stage_success store_serves by (intro exI [of _ "Suc (Suc (i + 10))"]) auto
qed

lemma fair_run_reported: "reported_fairly (\<lambda>w. map_of (fst w)) fair_run first_key"
  unfolding reported_fairly_def
proof (intro allI impI)
  fix i s x
  assume s: "map_of (fst (fair_run i)) first_key = Some s \<and> \<not> session_over s \<and> x < length (bst_Targets (bs_Status s)) \<and>
      busy_target (bst_Targets (bs_Status s) ! x)"
  have x: "x = 0"
  proof -
    consider "i = 0" | "i = 1" | j where "i = Suc (Suc j)" by (metis One_nat_def not0_implies_Suc)
    then show ?thesis
    proof cases
      case 3
      have "min j 10 < length stages" by (simp add: stages_def)
      then have "stages ! min j 10 \<in> set stages" by (rule nth_mem)
      then have "length (snd (stages ! min j 10)) \<le> 1" by (auto simp: stages_def)
      with 3 s show ?thesis
        by (cases "stages ! min j 10") (auto simp: stage_def with_state_def with_targets_def)
    qed (use s in \<open>auto simp: confs_only_def after_create_def fresh_session_def\<close>)
  qed
  have "map_of (fst (fair_run (Suc (Suc (i + 10))))) first_key =
      Some (with_state Success (with_targets [sample_status Success] (new_session ''first'')))"
    using fair_run_last [of "i + 10"] by (simp add: stage_session del: fair_run.simps)
  moreover have "\<not> busy_target (sample_status Success)" by (simp add: busy_target_def sample_status_def)
  with s have "sample_status Success \<noteq> bst_Targets (bs_Status s) ! x" by metis
  ultimately show "\<exists>j\<ge>i. \<forall>s'. map_of (fst (fair_run j)) first_key = Some s' \<longrightarrow>
      bst_Targets (bs_Status s') ! x \<noteq> bst_Targets (bs_Status s) ! x"
    by (intro exI [of _ "Suc (Suc (i + 10))"]) (auto simp: x with_state_def with_targets_def simp del: fair_run.simps)
qed

subsection \<open>Property\<close>

text \<open>
  C4: every session of a namespace ends. Take any infinite run, with any interleaving of
  reconciliations, reports, creations and deletions of all sessions, in which no more sessions are
  created in a namespace after some moment and those of it are not deleted, and whose
  configurations are of that namespace and have targets. If each of them is reconciled again and
  again at moments when the API server serves it (at all other moments any call may be refused),
  and no busy target stays without a report for ever, then from some moment on all of them are a
  \<open>Success\<close> or a \<open>Failure\<close>: none is stuck, none goes round in circles, and the guard that holds
  new sessions back while another one is \<open>Running\<close> starves none of them.
\<close>

theorem namespaces_drain:
  assumes laws: "shared_store A S C" "sidecar_protocol side" "sort_law L" "finalizer_laws L"
    and run: "system_run L A S C side W"
    and keys: "finite K" "\<And>i name. n \<le> i \<Longrightarrow> S (W i) (ns, name) \<noteq> None \<Longrightarrow> (ns, name) \<in> K"
    and each: "\<And>k. k \<in> K \<Longrightarrow> lasting S W n k \<and> served_fairly L A S C W k \<and> reported_fairly S W k"
    and confs: "\<And>k s. k \<in> K \<Longrightarrow> S (W n) k = Some s \<Longrightarrow> \<exists>conf. C (W 0) (bss_Ref (bs_Spec s)) = Some conf \<and>
      om_Namespace (bc_Meta conf) = ns \<and> bcs_Targets (bc_Spec conf) \<noteq> []"
  shows "\<exists>N. \<forall>i\<ge>N. \<forall>k\<in>K. \<exists>s. S (W i) k = Some s \<and> session_over s"
proof -
  have "\<exists>N\<ge>n. \<exists>m. \<forall>j\<ge>N. \<exists>s'. S (W j) k = Some s' \<and> bs_machine s' = m" if k: "k \<in> K" for k
  proof -
    obtain s where "S (W n) k = Some s" using lastingD each [OF k] by blast
    moreover from confs [OF k this] obtain conf where "C (W 0) (bss_Ref (bs_Spec s)) = Some conf" by blast
    ultimately show ?thesis using session_settles [OF laws(1-3) run] each [OF k] by blast
  qed
  then obtain N M where NM: "\<And>k. k \<in> K \<Longrightarrow> n \<le> N k \<and> (\<forall>j\<ge>N k. \<exists>s'. S (W j) k = Some s' \<and> bs_machine s' = M k)"
    by metis
  define N0 where "N0 = Max (insert n (N ` K))"
  have N0: "n \<le> N0" "\<And>k. k \<in> K \<Longrightarrow> N k \<le> N0" using keys(1) by (simp_all add: N0_def)
  then have settled: "\<exists>s'. S (W j) k = Some s' \<and> bs_machine s' = M k" if "k \<in> K" "N0 \<le> j" for k j
    using NM that order.trans by metis
  have over: "mc_State (M k) \<in> {Success, Failure} \<or> mc_State (M k) = New \<and> (\<exists>j\<ge>N0. running_in ns (S (W j)))"
    if k: "k \<in> K" for k
  proof -
    obtain s where s: "S (W n) k = Some s" using lastingD each [OF k] by blast
    with confs [OF k] obtain conf where conf: "C (W 0) (bss_Ref (bs_Spec s)) = Some conf" "om_Namespace (bc_Meta conf) = ns"
      "bcs_Targets (bc_Spec conf) \<noteq> []" by blast
    from settled_over [OF laws(1-3) run laws(4) _ s conf(1,3) _ _ N0(1) settled [OF k]] each [OF k] conf(2)
    show ?thesis by blast
  qed
  have "\<not> running_in ns (S (W j))" if j: "N0 \<le> j" for j
  proof
    assume "running_in ns (S (W j))"
    then obtain name s where s: "S (W j) (ns, name) = Some s" "state_string (bst_SessionState (bs_Status s)) = ''Running''"
      by (auto simp: running_in_def)
    then have k: "(ns, name) \<in> K" using keys(2) [of j name] N0(1) j by auto
    with settled [OF k j] s(1) have "mc_State (M (ns, name)) = bst_SessionState (bs_Status s)" by (metis bs_machine_def machine.select_convs(1) option.inject)
    with s(2) have "state_string (mc_State (M (ns, name))) = ''Running''" by simp
    with over [OF k] show False by auto
  qed
  with over have "mc_State (M k) \<in> {Success, Failure}" if "k \<in> K" for k using that by blast
  then have "\<exists>s. S (W i) k = Some s \<and> session_over s" if "N0 \<le> i" "k \<in> K" for i k
    using settled [OF that(2,1)] that(2) by (metis bs_machine_def machine.select_convs(1) session_over_def)
  then show ?thesis by blast
qed

theorem namespaces_drain_witness:
  "\<exists>N. \<forall>i\<ge>N. \<exists>s. map_of (fst (fair_run i)) first_key = Some s \<and> session_over s"
proof -
  have key: "(''demo'', name) \<in> {first_key}" if "1 \<le> i" "map_of (fst (fair_run i)) (''demo'', name) \<noteq> None" for i name
    using fair_run_session [OF that(1)] that(2) by (auto split: if_splits)
  have conf: "\<exists>conf. snd (fair_run 0) (bss_Ref (bs_Spec s)) = Some conf \<and> om_Namespace (bc_Meta conf) = ''demo'' \<and>
      bcs_Targets (bc_Spec conf) \<noteq> []" if "map_of (fst (fair_run 1)) first_key = Some s" for s
    using that by (auto simp: after_create_def fresh_session_def new_session_def confs_only_def one_conf_def sample_conf_def named_meta_def)
  have "\<exists>N. \<forall>i\<ge>N. \<forall>k\<in>{first_key}. \<exists>s. map_of (fst (fair_run i)) k = Some s \<and> session_over s"
    by (rule namespaces_drain [OF store_api_shared sample_side_protocol sample_lib_sorts sample_lib_finalizers
          fair_run_is_run, of _ 1 "''demo''"])
      (use key conf fair_run_lasting fair_run_served fair_run_reported in auto)
  then show ?thesis by simp
qed

text \<open>
  C36: an orphan blocks its namespace. If the configuration of a \<open>Running\<close> session does not exist any
  more, the session stays \<open>Running\<close> for as long as it is stored, whatever else happens, a request
  for its deletion included. All that time, a reconciliation of a new session that has the finalizer
  and is not being deleted, of any configuration in the same namespace, changes nothing and asks
  to be called again after 30 seconds, whenever the API server answers it (\<open>serves\<close>).
\<close>

theorem orphans_block_their_namespace:
  assumes laws: "shared_store A S C" "sidecar_protocol side" "sort_law L" and run: "system_run L A S C side W"
    and orphan: "S (W n) (ns, name) = Some s" "bst_SessionState (bs_Status s) = Running" "C (W 0) (bss_Ref (bs_Spec s)) = None"
    and there: "\<forall>j. n \<le> j \<and> j \<le> i \<longrightarrow> S (W j) (ns, name) \<noteq> None"
  shows "\<forall>j. n \<le> j \<and> j \<le> i \<longrightarrow>
    (\<exists>x. S (W j) (ns, name) = Some x \<and> bst_SessionState (bs_Status x) = Running) \<and>
    (\<forall>now k s' conf. S (W j) k = Some s' \<and> bst_SessionState (bs_Status s') = New \<and> om_DeletionTimestamp (bs_Meta s') = None \<and>
      ContainsFinalizer L (om_Finalizers (bs_Meta s')) finalizerName \<and>
      C (W 0) (bss_Ref (bs_Spec s')) = Some conf \<and> om_Namespace (bc_Meta conf) = ns \<and> serves A S C k (W j) \<longrightarrow>
      reconcileBackupSession L A now k (W j) = (Ret \<lparr>RequeueAfter = 30\<rparr>, W j))"
proof (intro allI impI conjI; elim conjE)
  fix j assume j: "n \<le> j" "j \<le> i"
  then have "\<forall>m. n \<le> m \<and> m \<le> j \<longrightarrow> S (W m) (ns, name) \<noteq> None" using there by simp
  with j show still: "\<exists>x. S (W j) (ns, name) = Some x \<and> bst_SessionState (bs_Status x) = Running"
    using stored_becomes [OF laws run j(1) orphan(1)] orphan(2,3) by (fastforce simp: becomes_def)
  fix now k s' conf
  assume new: "S (W j) k = Some s'" "bst_SessionState (bs_Status s') = New" "om_DeletionTimestamp (bs_Meta s') = None"
      "ContainsFinalizer L (om_Finalizers (bs_Meta s')) finalizerName"
    and conf: "C (W 0) (bss_Ref (bs_Spec s')) = Some conf" "om_Namespace (bc_Meta conf) = ns" and serves: "serves A S C k (W j)"
  from still have "running_in ns (S (W j))" unfolding running_in_def by (metis state_string.simps(5))
  then have "isBackupOngoing A conf (W j) = (Ret True, W j)" using served_guard [OF serves] conf(2) by simp
  moreover have "C (W j) (bss_Ref (bs_Spec s')) = Some conf" using run_facts [OF laws run, of j] conf(1) by simp
  moreover have "mc_State (bs_machine s') = New" using new(2) by (simp add: bs_machine_def)
  ultimately show "reconcileBackupSession L A now k (W j) = (Ret \<lparr>RequeueAfter = 30\<rparr>, W j)"
    using new(4) by (simp add: served_reconcile [OF serves new(1,3)] backupSessionAdvance_def
        backup_session.switch_init bind_go_run ret_run)
qed

definition orphan_store :: store where
  "orphan_store = ([(first_key, new_session ''first''), ((''demo'', ''lost''), with_state Running
     (with_targets [sample_status Waiting] ((new_session ''lost'')\<lparr>bs_Spec := \<lparr>bss_Ref = (''demo'', ''gone'')\<rparr>\<rparr>)))],
     [(''demo'', ''backup-demo'') \<mapsto> one_conf])"

lemma orphan_store_sound: "sound sample_side (snd orphan_store) (map_of (fst orphan_store))"
proof -
  have "controller_step one_conf created \<lparr>mc_State = New, mc_Targets = []\<rparr>"
    using controller_step.create [of created one_conf] by (simp add: created_def)
  then have "reachable sample_side one_conf \<lparr>mc_State = New, mc_Targets = []\<rparr>"
    by (blast intro: reachable.start reachable.step machine_step.reconcile)
  then show ?thesis
    by (auto simp: sound_def good_session_def orphan_store_def new_session_def bs_machine_def with_state_def
        with_targets_def meta_key_def named_meta_def split: if_splits)
qed

theorem orphans_block_their_namespace_witness:
  "(\<exists>x. map_of (fst orphan_store) (''demo'', ''lost'') = Some x \<and> bst_SessionState (bs_Status x) = Running) \<and>
   reconcileBackupSession sample_lib store_api (\<lambda>_. utc 0) first_key orphan_store = (Ret \<lparr>RequeueAfter = 30\<rparr>, orphan_store)"
proof -
  have "\<exists>r. reconcileBackupSession sample_lib store_api (\<lambda>_. utc 0) (''demo'', ''none'') orphan_store = (r, orphan_store)"
    by (simp add: reconcileBackupSession_def bind_go_run try_go_run call_run session_lawsD(1) [OF store_api_laws]
        orphan_store_def ret_run)
  then have "store_step orphan_store orphan_store" by (auto intro: system_step.reconcile)
  then have run: "system_run sample_lib store_api (\<lambda>w. map_of (fst w)) snd sample_side (\<lambda>_. orphan_store)"
    using orphan_store_sound by (simp add: system_run_def)
  have first: "map_of (fst orphan_store) first_key = Some (new_session ''first'')"
    "bst_SessionState (bs_Status (new_session ''first'')) = New" "om_DeletionTimestamp (bs_Meta (new_session ''first'')) = None"
    "ContainsFinalizer sample_lib (om_Finalizers (bs_Meta (new_session ''first''))) finalizerName"
    "snd orphan_store (bss_Ref (bs_Spec (new_session ''first''))) = Some one_conf" "om_Namespace (bc_Meta one_conf) = ''demo''"
    "serves store_api (\<lambda>w. map_of (fst w)) snd first_key orphan_store"
    by (rule store_serves | simp add: orphan_store_def new_session_def named_meta_def sample_lib_def one_conf_def sample_conf_def)+
  have lost: "map_of (fst orphan_store) (''demo'', ''lost'') = Some (with_state Running
      (with_targets [sample_status Waiting] ((new_session ''lost'')\<lparr>bs_Spec := \<lparr>bss_Ref = (''demo'', ''gone'')\<rparr>\<rparr>)))"
    by (simp add: orphan_store_def)
  from orphans_block_their_namespace [OF store_api_shared sample_side_protocol sample_lib_sorts run, where n = 0 and i = 0
      and ns = "''demo''" and name = "''lost''", OF lost, THEN spec, of 0] first
  show ?thesis by (simp add: orphan_store_def with_state_def with_targets_def new_session_def)
qed

end
