(* ===== verification/Memory.thy ===== *)
theory Memory
  imports Prelude
begin

section \<open>Memory with pointers and slices, and copies that share nothing\<close>

text \<open>
  The other theories treat the objects of the API as values. In Go they are structs with pointers
  and slices, so two copies of a struct can share memory, and the code of
  \<open>zz_generated.deepcopy.go\<close> is there to prevent it. This theory has the memory: cells that hold
  arrays, pointers to an element of an array, slices of an array; the loops and allocations of a
  deep copy; and the contract \<open>copier\<close> of a function that copies a struct: the copy has the same
  contents, and not one cell in common with what was there before.

  A reading of a type says what the contents of a value are: all that is reached from it, as a
  value without pointers, together with the cells that hold it.
\<close>

subsection \<open>Cells, pointers, slices\<close>

type_synonym address = nat

type_synonym pointer = "address \<times> nat"

record slice =
  sl_Array :: address
  sl_From :: nat
  sl_Len :: nat

record 'c memory =
  mem_Cells :: "address \<rightharpoonup> 'c"
  mem_Next :: address

text \<open>How the arrays of one element type are kept in cells, which hold arrays of all the types.\<close>

record ('c, 'a) kind =
  in_cell :: "'a list \<Rightarrow> 'c"
  of_cell :: "'c \<Rightarrow> 'a list option"

definition kind_ok :: "('c, 'a) kind \<Rightarrow> bool" where
  "kind_ok K \<longleftrightarrow> (\<forall>xs. of_cell K (in_cell K xs) = Some xs)"

definition array_at :: "('c, 'a) kind \<Rightarrow> address \<Rightarrow> 'c memory \<Rightarrow> 'a list option" where
  "array_at K a m = Option.bind (mem_Cells m a) (of_cell K)"

definition deref :: "('c, 'a) kind \<Rightarrow> pointer \<Rightarrow> 'c memory \<Rightarrow> 'a option" where
  "deref K p m = Option.bind (array_at K (fst p) m) (\<lambda>xs. if snd p < length xs then Some (xs ! snd p) else None)"

definition slice_items :: "('c, 'a) kind \<Rightarrow> slice \<Rightarrow> 'c memory \<Rightarrow> 'a list option" where
  "slice_items K s m = Option.bind (array_at K (sl_Array s) m) (\<lambda>xs.
     if sl_From s + sl_Len s \<le> length xs then Some (take (sl_Len s) (drop (sl_From s) xs)) else None)"

text \<open>A read of memory, which panics where there is nothing of the type, and an allocation.\<close>

definition peek :: "('c memory \<Rightarrow> 'a option) \<Rightarrow> ('c memory, 'a) go" where
  "peek g = (\<lambda>m. (case g m of None \<Rightarrow> Panic | Some x \<Rightarrow> Ret x, m))"

definition new_cell :: "'c \<Rightarrow> ('c memory, address) go" where
  "new_cell c = (\<lambda>m. (Ret (mem_Next m),
     m\<lparr>mem_Cells := (mem_Cells m)(mem_Next m \<mapsto> c), mem_Next := Suc (mem_Next m)\<rparr>))"

definition wf_memory :: "'c memory \<Rightarrow> bool" where
  "wf_memory m \<longleftrightarrow> (\<forall>a \<in> dom (mem_Cells m). a < mem_Next m)"

definition grows :: "'c memory \<Rightarrow> 'c memory \<Rightarrow> bool" where
  "grows m m' \<longleftrightarrow> wf_memory m' \<and> mem_Cells m \<subseteq>\<^sub>m mem_Cells m'"

lemma grows_refl: "wf_memory m \<Longrightarrow> grows m m"
  by (simp add: grows_def)

lemma grows_trans: "grows m m' \<Longrightarrow> grows m' m'' \<Longrightarrow> grows m m''"
  by (auto simp: grows_def intro: map_le_trans)

lemma grows_wf: "grows m m' \<Longrightarrow> wf_memory m'"
  by (simp add: grows_def)

lemma grows_dom: "grows m m' \<Longrightarrow> dom (mem_Cells m) \<subseteq> dom (mem_Cells m')"
  by (auto simp: grows_def map_le_implies_dom_le)

lemma grows_cell: "grows m m' \<Longrightarrow> a \<in> dom (mem_Cells m) \<Longrightarrow> mem_Cells m' a = mem_Cells m a"
  by (auto simp: grows_def map_le_def)

lemma peek_run [go_run]: "g m = Some x \<Longrightarrow> peek g m = (Ret x, m)"
  by (simp add: peek_def)

lemma new_cell_run:
  assumes "wf_memory m"
  shows "\<exists>m'. new_cell c m = (Ret (mem_Next m), m') \<and> grows m m' \<and> mem_Cells m' (mem_Next m) = Some c \<and>
    mem_Next m \<notin> dom (mem_Cells m)"
  using assms by (auto simp: new_cell_def grows_def wf_memory_def map_le_def intro: less_SucI)

subsection \<open>The loops of a deep copy\<close>

text \<open>\<open>for i := range *in { (*in)[i].DeepCopyInto(&(*out)[i]) }\<close>; with \<open>ret\<close>, \<open>copy(*out, *in)\<close>.\<close>

fun copy_all :: "('a \<Rightarrow> ('w, 'a) go) \<Rightarrow> 'a list \<Rightarrow> ('w, 'a list) go" where
  "copy_all f [] = ret []"
| "copy_all f (x # xs) = bind_go (f x) (\<lambda>y. bind_go (copy_all f xs) (\<lambda>ys. ret (y # ys)))"

text \<open>
  \<open>if in.F != nil { in, out := &in.F, &out.F; *out = new(T); (*in).DeepCopyInto(*out) }\<close>, and a
  method \<open>DeepCopy\<close>: the new cell is allocated with its final contents.
\<close>

definition copy_ptr :: "('c, 'a) kind \<Rightarrow> ('a \<Rightarrow> ('c memory, 'a) go) \<Rightarrow> pointer option \<Rightarrow> ('c memory, pointer option) go" where
  "copy_ptr K f p = (case p of None \<Rightarrow> ret None | Some q \<Rightarrow>
     bind_go (peek (deref K q)) (\<lambda>x.
     bind_go (f x) (\<lambda>y.
     bind_go (new_cell (in_cell K [y])) (\<lambda>a. ret (Some (a, 0))))))"

text \<open>\<open>if in.F != nil { ...; *out = make([]T, len(*in)); for i := range *in { ... } }\<close>\<close>

definition copy_slice :: "('c, 'a) kind \<Rightarrow> ('a \<Rightarrow> ('c memory, 'a) go) \<Rightarrow> slice option \<Rightarrow> ('c memory, slice option) go" where
  "copy_slice K f s = (case s of None \<Rightarrow> ret None | Some t \<Rightarrow>
     bind_go (peek (slice_items K t)) (\<lambda>xs.
     bind_go (copy_all f xs) (\<lambda>ys.
     bind_go (new_cell (in_cell K ys)) (\<lambda>a. ret (Some \<lparr>sl_Array = a, sl_From = 0, sl_Len = length ys\<rparr>)))))"

definition copy_pair :: "('a \<Rightarrow> ('w, 'a) go) \<Rightarrow> ('b \<Rightarrow> ('w, 'b) go) \<Rightarrow> 'a \<times> 'b \<Rightarrow> ('w, 'a \<times> 'b) go" where
  "copy_pair f g p = bind_go (f (fst p)) (\<lambda>x. bind_go (g (snd p)) (\<lambda>y. ret (x, y)))"

subsection \<open>Readings\<close>

type_synonym ('c, 'a, 'v) reading = "'c memory \<Rightarrow> 'a \<Rightarrow> ('v \<times> address list) option"

definition deep_plain :: "('c, 'a, 'a) reading" where
  "deep_plain m x = Some (x, [])"

definition deep_ptr :: "('c, 'a) kind \<Rightarrow> ('c, 'a, 'v) reading \<Rightarrow> ('c, pointer option, 'v option) reading" where
  "deep_ptr K R m p = (case p of None \<Rightarrow> Some (None, []) | Some q \<Rightarrow>
     Option.bind (deref K q m) (\<lambda>x. map_option (\<lambda>(v, as). (Some v, fst q # as)) (R m x)))"

fun deep_all :: "('c, 'a, 'v) reading \<Rightarrow> ('c, 'a list, 'v list) reading" where
  "deep_all R m [] = Some ([], [])"
| "deep_all R m (x # xs) = Option.bind (R m x) (\<lambda>(v, as).
     map_option (\<lambda>(vs, bs). (v # vs, as @ bs)) (deep_all R m xs))"

text \<open>A nil slice has the contents of an empty one.\<close>

definition deep_slice :: "('c, 'a) kind \<Rightarrow> ('c, 'a, 'v) reading \<Rightarrow> ('c, slice option, 'v list) reading" where
  "deep_slice K R m s = (case s of None \<Rightarrow> Some ([], []) | Some t \<Rightarrow>
     Option.bind (slice_items K t m) (\<lambda>xs. map_option (\<lambda>(vs, as). (vs, sl_Array t # as)) (deep_all R m xs)))"

definition deep_pair :: "('c, 'a, 'v) reading \<Rightarrow> ('c, 'b, 'u) reading \<Rightarrow> ('c, 'a \<times> 'b, 'v \<times> 'u) reading" where
  "deep_pair R S m p = Option.bind (R m (fst p)) (\<lambda>(v, as).
     map_option (\<lambda>(u, bs). ((v, u), as @ bs)) (S m (snd p)))"

text \<open>A struct: \<open>get\<close> are its fields with pointers, the contents are made from theirs and the rest.\<close>

definition deep_struct :: "('s \<Rightarrow> 'a) \<Rightarrow> ('s \<Rightarrow> 'v \<Rightarrow> 'u) \<Rightarrow> ('c, 'a, 'v) reading \<Rightarrow> ('c, 's, 'u) reading" where
  "deep_struct get mk R m s = map_option (\<lambda>(v, as). (mk s v, as)) (R m (get s))"

subsection \<open>The contract of a copy\<close>

text \<open>A reading depends on the cells it names, and on no other.\<close>

locale reading =
  fixes R :: "('c, 'a, 'v) reading"
  assumes local: "R m x = Some (v, as) \<Longrightarrow> \<forall>a \<in> set as. mem_Cells m' a = mem_Cells m a \<Longrightarrow> R m' x = Some (v, as)"
    and present: "R m x = Some (v, as) \<Longrightarrow> set as \<subseteq> dom (mem_Cells m)"
begin

lemma after_growth: "R m x = Some (v, as) \<Longrightarrow> grows m m' \<Longrightarrow> R m' x = Some (v, as)"
  using local present grows_cell by blast

end

text \<open>
  The copy returns, changes no cell, and has the same contents in cells that are all new, each
  named once.
\<close>

locale copier = reading R for R :: "('c, 'a, 'v) reading" +
  fixes f :: "'a \<Rightarrow> ('c memory, 'a) go"
  assumes copies: "wf_memory m \<Longrightarrow> R m x = Some (v, as) \<Longrightarrow>
    \<exists>y bs m'. f x m = (Ret y, m') \<and> grows m m' \<and> R m' y = Some (v, bs) \<and>
      set bs \<inter> dom (mem_Cells m) = {} \<and> distinct bs"
begin

text \<open>Writes to what was there do not reach the copy, and writes elsewhere not the original.\<close>

lemma independent:
  assumes "wf_memory m" "R m x = Some (v, as)"
  shows "\<exists>y bs m'. f x m = (Ret y, m') \<and> grows m m' \<and> R m' y = Some (v, bs) \<and>
    (\<forall>m''. (\<forall>a. a \<notin> dom (mem_Cells m) \<longrightarrow> mem_Cells m'' a = mem_Cells m' a) \<longrightarrow> R m'' y = Some (v, bs)) \<and>
    (\<forall>m''. (\<forall>a. a \<in> dom (mem_Cells m) \<longrightarrow> mem_Cells m'' a = mem_Cells m' a) \<longrightarrow> R m'' x = Some (v, as))"
proof -
  obtain y bs m' where copy: "f x m = (Ret y, m')" "grows m m'" "R m' y = Some (v, bs)"
    "set bs \<inter> dom (mem_Cells m) = {}"
    using copies [OF assms] by blast
  have "R m'' y = Some (v, bs)" if "\<forall>a. a \<notin> dom (mem_Cells m) \<longrightarrow> mem_Cells m'' a = mem_Cells m' a" for m''
    using local [OF copy(3)] copy(4) that by blast
  moreover have "R m'' x = Some (v, as)" if "\<forall>a. a \<in> dom (mem_Cells m) \<longrightarrow> mem_Cells m'' a = mem_Cells m' a" for m''
    using local [OF after_growth [OF assms(2) copy(2)]] present [OF assms(2)] that by blast
  ultimately show ?thesis using copy(1,2,3) by blast
qed

end

named_theorems copier_intros \<open>the copiers, by the structure of the type\<close>

lemma copierI:
  assumes "reading R"
    and "\<And>m x v as. wf_memory m \<Longrightarrow> R m x = Some (v, as) \<Longrightarrow>
      \<exists>y bs m'. f x m = (Ret y, m') \<and> grows m m' \<and> R m' y = Some (v, bs) \<and>
        set bs \<inter> dom (mem_Cells m) = {} \<and> distinct bs"
  shows "copier R f"
  using assms by (simp add: copier_def copier_axioms_def)

lemma reading_plain: "reading deep_plain"
  by unfold_locales (auto simp: deep_plain_def)

lemma copier_plain [copier_intros]: "copier deep_plain ret"
  by (rule copierI [OF reading_plain]) (auto simp: deep_plain_def ret_run grows_refl)

lemma readingI:
  assumes "\<And>m m' x v as. R m x = Some (v, as) \<Longrightarrow> set as \<subseteq> dom (mem_Cells m) \<and>
    ((\<forall>a \<in> set as. mem_Cells m' a = mem_Cells m a) \<longrightarrow> R m' x = Some (v, as))"
  shows "reading R"
  using assms by unfold_locales blast+

lemma reading_pair:
  assumes R: "reading R" and S: "reading S"
  shows "reading (deep_pair R S)"
proof (rule readingI)
  fix m m' p v as
  assume "deep_pair R S m p = Some (v, as)"
  then obtain v1 as1 v2 as2 where p: "R m (fst p) = Some (v1, as1)" "S m (snd p) = Some (v2, as2)"
    "v = (v1, v2)" "as = as1 @ as2"
    by (auto simp: deep_pair_def split: bind_splits)
  with reading.present [OF R p(1)] reading.present [OF S p(2)] reading.local [OF R p(1)] reading.local [OF S p(2)]
  show "set as \<subseteq> dom (mem_Cells m) \<and> ((\<forall>a \<in> set as. mem_Cells m' a = mem_Cells m a) \<longrightarrow>
      deep_pair R S m' p = Some (v, as))"
    by (auto simp: deep_pair_def)
qed

lemma reading_all:
  assumes R: "reading R"
  shows "reading (deep_all R)"
proof (rule readingI)
  fix m m' xs v as
  assume "deep_all R m xs = Some (v, as)"
  then show "set as \<subseteq> dom (mem_Cells m) \<and> ((\<forall>a \<in> set as. mem_Cells m' a = mem_Cells m a) \<longrightarrow>
      deep_all R m' xs = Some (v, as))"
  proof (induction xs arbitrary: v as)
    case (Cons x xs)
    then obtain v1 as1 vs as2 where x: "R m x = Some (v1, as1)" "deep_all R m xs = Some (vs, as2)"
      "v = v1 # vs" "as = as1 @ as2"
      by (auto split: bind_splits)
    with Cons.IH [OF x(2)] reading.present [OF R x(1)] reading.local [OF R x(1)] show ?case by auto
  qed simp
qed

lemma deref_same:
  assumes "deref K p m = Some x"
  shows "fst p \<in> dom (mem_Cells m)" "mem_Cells m' (fst p) = mem_Cells m (fst p) \<Longrightarrow> deref K p m' = Some x"
  using assms by (auto simp: deref_def array_at_def split: bind_splits)

lemma slice_items_same:
  assumes "slice_items K s m = Some xs"
  shows "sl_Array s \<in> dom (mem_Cells m)"
    "mem_Cells m' (sl_Array s) = mem_Cells m (sl_Array s) \<Longrightarrow> slice_items K s m' = Some xs"
  using assms by (auto simp: slice_items_def array_at_def split: bind_splits)

lemma reading_ptr:
  assumes R: "reading R"
  shows "reading (deep_ptr K R)"
proof (rule readingI)
  fix m m' p v as
  assume deep: "deep_ptr K R m p = Some (v, as)"
  show "set as \<subseteq> dom (mem_Cells m) \<and> ((\<forall>a \<in> set as. mem_Cells m' a = mem_Cells m a) \<longrightarrow>
      deep_ptr K R m' p = Some (v, as))"
  proof (cases p)
    case (Some q)
    with deep obtain x v1 as1 where x: "deref K q m = Some x" "R m x = Some (v1, as1)" "v = Some v1" "as = fst q # as1"
      by (auto simp: deep_ptr_def split: bind_splits)
    with reading.present [OF R x(2)] reading.local [OF R x(2)] deref_same [OF x(1)] show ?thesis
      by (auto simp: deep_ptr_def Some)
  qed (use deep in \<open>simp add: deep_ptr_def\<close>)
qed

lemma reading_slice:
  assumes R: "reading R"
  shows "reading (deep_slice K R)"
proof (rule readingI)
  fix m m' s v as
  assume deep: "deep_slice K R m s = Some (v, as)"
  show "set as \<subseteq> dom (mem_Cells m) \<and> ((\<forall>a \<in> set as. mem_Cells m' a = mem_Cells m a) \<longrightarrow>
      deep_slice K R m' s = Some (v, as))"
  proof (cases s)
    case (Some t)
    with deep obtain xs as1 where x: "slice_items K t m = Some xs" "deep_all R m xs = Some (v, as1)" "as = sl_Array t # as1"
      by (auto simp: deep_slice_def split: bind_splits)
    with reading.present [OF reading_all [OF R] x(2)] reading.local [OF reading_all [OF R] x(2)] slice_items_same [OF x(1)]
    show ?thesis by (auto simp: deep_slice_def Some)
  qed (use deep in \<open>simp add: deep_slice_def\<close>)
qed

lemma reading_struct: "reading R \<Longrightarrow> reading (deep_struct get mk R)"
  by (rule readingI) (auto simp: deep_struct_def dest: reading.present reading.local)

subsection \<open>Copiers are closed under the constructions of the types\<close>

lemma fresh_append:
  assumes "set as \<inter> A = {}" "set as \<subseteq> B" "A \<subseteq> B" "set bs \<inter> B = {}" "distinct as" "distinct bs"
  shows "set (as @ bs) \<inter> A = {}" "distinct (as @ bs)"
  using assms by auto

lemma copier_reading: "copier R f \<Longrightarrow> reading R"
  by (simp add: copier_def)

lemma copier_pair [copier_intros]:
  assumes f: "copier R f" and g: "copier S g"
  shows "copier (deep_pair R S) (copy_pair f g)"
proof (rule copierI [OF reading_pair [OF copier_reading [OF f] copier_reading [OF g]]])
  fix m p v as
  assume wf: "wf_memory m" and "deep_pair R S m p = Some (v, as)"
  then obtain v1 as1 v2 as2 where p: "R m (fst p) = Some (v1, as1)" "S m (snd p) = Some (v2, as2)" "v = (v1, v2)"
    by (auto simp: deep_pair_def split: bind_splits)
  obtain y bs1 m1 where y: "f (fst p) m = (Ret y, m1)" "grows m m1" "R m1 y = Some (v1, bs1)"
    "set bs1 \<inter> dom (mem_Cells m) = {}" "distinct bs1"
    using copier.copies [OF f wf p(1)] by blast
  have "S m1 (snd p) = Some (v2, as2)" using reading.after_growth [OF copier_reading [OF g] p(2) y(2)] .
  then obtain z bs2 m2 where z: "g (snd p) m1 = (Ret z, m2)" "grows m1 m2" "S m2 z = Some (v2, bs2)"
    "set bs2 \<inter> dom (mem_Cells m1) = {}" "distinct bs2"
    using copier.copies [OF g grows_wf [OF y(2)]] by blast
  have "R m2 y = Some (v1, bs1)" using reading.after_growth [OF copier_reading [OF f] y(3) z(2)] .
  moreover note fresh_append [OF y(4) reading.present [OF copier_reading [OF f] y(3)] grows_dom [OF y(2)] z(4) y(5) z(5)]
  moreover have "copy_pair f g p m = (Ret (y, z), m2)" by (simp add: copy_pair_def bind_go_run y(1) z(1) ret_run)
  ultimately show "\<exists>y bs m'. copy_pair f g p m = (Ret y, m') \<and> grows m m' \<and> deep_pair R S m' y = Some (v, bs) \<and>
      set bs \<inter> dom (mem_Cells m) = {} \<and> distinct bs"
    using z(3) grows_trans [OF y(2) z(2)] p(3)
    by (intro exI [of _ "(y, z)"] exI [of _ "bs1 @ bs2"] exI [of _ m2]) (simp add: deep_pair_def)
qed

lemma copier_all:
  assumes f: "copier R f"
  shows "copier (deep_all R) (copy_all f)"
proof (rule copierI [OF reading_all [OF copier_reading [OF f]]])
  fix m xs v as
  assume "wf_memory m" and "deep_all R m xs = Some (v, as)"
  then show "\<exists>ys bs m'. copy_all f xs m = (Ret ys, m') \<and> grows m m' \<and> deep_all R m' ys = Some (v, bs) \<and>
      set bs \<inter> dom (mem_Cells m) = {} \<and> distinct bs"
  proof (induction xs arbitrary: m v as)
    case Nil
    then show ?case by (auto simp: ret_run grows_refl)
  next
    case (Cons x xs)
    then obtain v1 as1 v2 as2 where x: "R m x = Some (v1, as1)" "deep_all R m xs = Some (v2, as2)" "v = v1 # v2"
      by (auto split: bind_splits)
    obtain y bs1 m1 where y: "f x m = (Ret y, m1)" "grows m m1" "R m1 y = Some (v1, bs1)"
      "set bs1 \<inter> dom (mem_Cells m) = {}" "distinct bs1"
      using copier.copies [OF f Cons.prems(1) x(1)] by blast
    have "deep_all R m1 xs = Some (v2, as2)"
      using reading.after_growth [OF reading_all [OF copier_reading [OF f]] x(2) y(2)] .
    then obtain ys bs2 m2 where z: "copy_all f xs m1 = (Ret ys, m2)" "grows m1 m2" "deep_all R m2 ys = Some (v2, bs2)"
      "set bs2 \<inter> dom (mem_Cells m1) = {}" "distinct bs2"
      using Cons.IH [OF grows_wf [OF y(2)]] by blast
    have "R m2 y = Some (v1, bs1)" using reading.after_growth [OF copier_reading [OF f] y(3) z(2)] .
    moreover note fresh_append [OF y(4) reading.present [OF copier_reading [OF f] y(3)] grows_dom [OF y(2)] z(4) y(5) z(5)]
    moreover have "copy_all f (x # xs) m = (Ret (y # ys), m2)" by (simp add: bind_go_run y(1) z(1) ret_run)
    ultimately show ?case
      using z(3) grows_trans [OF y(2) z(2)] x(3)
      by (intro exI [of _ "y # ys"] exI [of _ "bs1 @ bs2"] exI [of _ m2]) simp
  qed
qed

text \<open>The last step of a pointer's and of a slice's copy: the contents go into a new cell.\<close>

lemma copy_into_new_cell:
  assumes R: "reading R" and y: "grows m m1" "R m1 y = Some (v, bs)" "set bs \<inter> dom (mem_Cells m) = {}" "distinct bs"
  obtains a m2 where "new_cell c m1 = (Ret a, m2)" "grows m m2" "R m2 y = Some (v, bs)"
    "mem_Cells m2 a = Some c" "set (a # bs) \<inter> dom (mem_Cells m) = {}" "distinct (a # bs)"
proof -
  obtain m2 where m2: "new_cell c m1 = (Ret (mem_Next m1), m2)" "grows m1 m2" "mem_Cells m2 (mem_Next m1) = Some c"
    "mem_Next m1 \<notin> dom (mem_Cells m1)"
    using new_cell_run [OF grows_wf [OF y(1)]] by blast
  show thesis
  proof (rule that [OF m2(1) grows_trans [OF y(1) m2(2)] reading.after_growth [OF R y(2) m2(2)] m2(3)])
    show "set (mem_Next m1 # bs) \<inter> dom (mem_Cells m) = {}" using y(3) m2(4) grows_dom [OF y(1)] by auto
    show "distinct (mem_Next m1 # bs)" using y(4) m2(4) reading.present [OF R y(2)] by auto
  qed
qed

lemma copier_ptr [copier_intros]:
  assumes K: "kind_ok K" and f: "copier R f"
  shows "copier (deep_ptr K R) (copy_ptr K f)"
proof (rule copierI [OF reading_ptr [OF copier_reading [OF f]]])
  fix m p v as
  assume wf: "wf_memory m" and deep: "deep_ptr K R m p = Some (v, as)"
  show "\<exists>y bs m'. copy_ptr K f p m = (Ret y, m') \<and> grows m m' \<and> deep_ptr K R m' y = Some (v, bs) \<and>
      set bs \<inter> dom (mem_Cells m) = {} \<and> distinct bs"
  proof (cases p)
    case None
    with wf deep show ?thesis by (auto simp: copy_ptr_def deep_ptr_def ret_run grows_refl)
  next
    case (Some q)
    with deep obtain x v1 as1 where x: "deref K q m = Some x" "R m x = Some (v1, as1)" "v = Some v1"
      by (auto simp: deep_ptr_def split: bind_splits)
    obtain y bs m1 where y: "f x m = (Ret y, m1)" "grows m m1" "R m1 y = Some (v1, bs)"
      "set bs \<inter> dom (mem_Cells m) = {}" "distinct bs"
      using copier.copies [OF f wf x(2)] by blast
    obtain a m2 where a: "new_cell (in_cell K [y]) m1 = (Ret a, m2)" "grows m m2" "R m2 y = Some (v1, bs)"
      "mem_Cells m2 a = Some (in_cell K [y])" "set (a # bs) \<inter> dom (mem_Cells m) = {}" "distinct (a # bs)"
      using copy_into_new_cell [OF copier_reading [OF f] y(2-5)] by blast
    have "copy_ptr K f p m = (Ret (Some (a, 0)), m2)"
      by (simp add: copy_ptr_def Some bind_go_run peek_run [where g = "deref K q", OF x(1)] y(1) a(1) ret_run)
    moreover have "deep_ptr K R m2 (Some (a, 0)) = Some (v, a # bs)"
      using K a(3,4) by (simp add: deep_ptr_def deref_def array_at_def kind_ok_def x(3))
    ultimately show ?thesis using a(2,5,6) by blast
  qed
qed

lemma copier_slice [copier_intros]:
  assumes K: "kind_ok K" and f: "copier R f"
  shows "copier (deep_slice K R) (copy_slice K f)"
proof (rule copierI [OF reading_slice [OF copier_reading [OF f]]])
  fix m s v as
  assume wf: "wf_memory m" and deep: "deep_slice K R m s = Some (v, as)"
  show "\<exists>y bs m'. copy_slice K f s m = (Ret y, m') \<and> grows m m' \<and> deep_slice K R m' y = Some (v, bs) \<and>
      set bs \<inter> dom (mem_Cells m) = {} \<and> distinct bs"
  proof (cases s)
    case None
    with wf deep show ?thesis by (auto simp: copy_slice_def deep_slice_def ret_run grows_refl)
  next
    case (Some t)
    with deep obtain xs as1 where x: "slice_items K t m = Some xs" "deep_all R m xs = Some (v, as1)"
      by (auto simp: deep_slice_def split: bind_splits)
    obtain ys bs m1 where y: "copy_all f xs m = (Ret ys, m1)" "grows m m1" "deep_all R m1 ys = Some (v, bs)"
      "set bs \<inter> dom (mem_Cells m) = {}" "distinct bs"
      using copier.copies [OF copier_all [OF f] wf x(2)] by blast
    obtain a m2 where a: "new_cell (in_cell K ys) m1 = (Ret a, m2)" "grows m m2" "deep_all R m2 ys = Some (v, bs)"
      "mem_Cells m2 a = Some (in_cell K ys)" "set (a # bs) \<inter> dom (mem_Cells m) = {}" "distinct (a # bs)"
      using copy_into_new_cell [OF reading_all [OF copier_reading [OF f]] y(2-5)] by blast
    let ?t = "\<lparr>sl_Array = a, sl_From = 0, sl_Len = length ys\<rparr>"
    have "copy_slice K f s m = (Ret (Some ?t), m2)"
      by (simp add: copy_slice_def Some bind_go_run peek_run [where g = "slice_items K t", OF x(1)] y(1) a(1) ret_run)
    moreover have "deep_slice K R m2 (Some ?t) = Some (v, a # bs)"
      using K a(3,4) by (simp add: deep_slice_def slice_items_def array_at_def kind_ok_def)
    ultimately show ?thesis using a(2,5,6) by blast
  qed
qed

text \<open>
  A struct: \<open>*out = *in\<close>, then the fields with pointers are copied one after the other and stored
  by \<open>put\<close>.
\<close>

lemma copier_struct:
  assumes c: "copier R c" and f: "\<And>s. f s = bind_go (c (get s)) (\<lambda>y. ret (put s y))"
    and fields: "\<And>s y. get (put s y) = y" "\<And>s y. mk (put s y) = mk s"
  shows "copier (deep_struct get mk R) f"
proof (rule copierI [OF reading_struct [OF copier_reading [OF c]]])
  fix m s v as
  assume wf: "wf_memory m" and "deep_struct get mk R m s = Some (v, as)"
  then obtain v1 where v1: "R m (get s) = Some (v1, as)" "v = mk s v1" by (auto simp: deep_struct_def)
  obtain y bs m1 where y: "c (get s) m = (Ret y, m1)" "grows m m1" "R m1 y = Some (v1, bs)"
    "set bs \<inter> dom (mem_Cells m) = {}" "distinct bs"
    using copier.copies [OF c wf v1(1)] by blast
  then show "\<exists>y bs m'. f s m = (Ret y, m') \<and> grows m m' \<and> deep_struct get mk R m' y = Some (v, bs) \<and>
      set bs \<inter> dom (mem_Cells m) = {} \<and> distinct bs"
    by (intro exI [of _ "put s y"] exI [of _ bs] exI [of _ m1])
      (simp add: f bind_go_run y(1) ret_run deep_struct_def fields v1(2))
qed

end
