(* ===== verification/Layout.thy ===== *)
theory Layout
  imports Memory ApiTypes
begin

section \<open>The structs of the API as they lie in memory (api/v1alpha1)\<close>

text \<open>
  The structs of \<open>api/v1alpha1\<close> with their pointers and slices, where theory ApiTypes has options
  and lists; a struct without any is the record of that theory. The five kinds of objects have one
  shape, and so have their lists. Structs of other packages (\<open>ObjectMeta\<close>, \<open>ListMeta\<close>,
  \<open>VolumeSource\<close>, \<open>Container\<close>) are of the type \<open>'x\<close>, of which nothing is known; \<open>Time\<close> and
  \<open>Duration\<close> hold no pointers.
\<close>

subsection \<open>Structs\<close>

record go_step =
  gst_Finalize :: "pointer option"
  gst_Initialize :: "pointer option"
  gst_Backup :: "pointer option"
  gst_Restore :: "pointer option"

record go_target_container =
  gtc_Name :: string
  gtc_Paths :: "slice option"
  gtc_Steps :: "slice option"
  gtc_SharePath :: string
  gtc_Job :: "slice option"

record go_target =
  gtg_BackupType :: backup_type
  gtg_TargetKind :: target_kind
  gtg_TargetName :: string
  gtg_Containers :: "slice option"
  gtg_Retry :: int
  gtg_VolumeSnapshotClass :: string

record go_configuration_spec =
  gcs_Repository :: string
  gcs_Image :: string
  gcs_Suspend :: "pointer option"
  gcs_Schedule :: string
  gcs_Keep :: keep_policy
  gcs_Targets :: "slice option"

record go_configuration_status =
  gct_LastBackupTime :: "pointer option"
  gct_Suspended :: bool
  gct_ActiveCronJob :: bool
  gct_ActiveSidecar :: bool

record go_target_status =
  gts_BackupType :: backup_type
  gts_TargetName :: string
  gts_TargetKind :: target_kind
  gts_SessionState :: session_state
  gts_SnapshotId :: string
  gts_StartTime :: "pointer option"
  gts_Duration :: "pointer option"
  gts_Try :: int

record go_session_status =
  gss_SessionState :: session_state
  gss_StartTime :: "pointer option"
  gss_Targets :: "slice option"
  gss_Keep :: string

record go_session_ref =
  gsr_Spec :: backup_session_spec
  gsr_Status :: go_session_status

record go_restore_spec =
  grs_BackupSessionRef :: go_session_ref

record go_restore_status =
  grt_SessionState :: session_state
  grt_StartTime :: "pointer option"
  grt_Targets :: "slice option"

record 'x go_local =
  glo_VolumeSource :: 'x

record go_backend =
  gbe_S3 :: "pointer option"
  gbe_Local :: "pointer option"

record go_repo_spec =
  grp_Backend :: go_backend
  grp_RepositorySecrets :: string

text \<open>Two statuses are structs without fields.\<close>

type_synonym go_repo_status = unit
type_synonym go_function_status = unit

text \<open>\<open>TypeMeta\<close> is the kind and the API version.\<close>

type_synonym type_meta = "string \<times> string"

record ('x, 's, 't) go_object =
  gob_TypeMeta :: type_meta
  gob_ObjectMeta :: 'x
  gob_Spec :: 's
  gob_Status :: 't

record 'x go_list =
  gli_TypeMeta :: type_meta
  gli_ListMeta :: 'x
  gli_Items :: "slice option"

type_synonym 'x go_configuration = "('x, go_configuration_spec, go_configuration_status) go_object"
type_synonym 'x go_session = "('x, backup_session_spec, go_session_status) go_object"
type_synonym 'x go_restore = "('x, go_restore_spec, go_restore_status) go_object"
type_synonym 'x go_repo = "('x, go_repo_spec, go_repo_status) go_object"
type_synonym 'x go_function = "('x, 'x, go_function_status) go_object"

type_synonym 'x go_configuration_list = "'x go_list"
type_synonym 'x go_session_list = "'x go_list"
type_synonym 'x go_restore_list = "'x go_list"
type_synonym 'x go_repo_list = "'x go_list"
type_synonym 'x go_function_list = "'x go_list"

subsection \<open>Cells\<close>

text \<open>A cell has an array of one of the types, or whatever the structs of other packages point to.\<close>

datatype (plugins only: code) (dead 'x) cell =
    CBools "bool list"
  | CStrings "string list"
  | CTimes "go_time list"
  | CDurations "int list"
  | CBackends "go_backend list"
  | CConfigurations "'x go_configuration list"
  | CConfigurationLists "'x go_configuration_list list"
  | CConfigurationSpecs "go_configuration_spec list"
  | CConfigurationStatuses "go_configuration_status list"
  | CSessions "'x go_session list"
  | CSessionLists "'x go_session_list list"
  | CSessionRefs "go_session_ref list"
  | CSessionSpecs "backup_session_spec list"
  | CSessionStatuses "go_session_status list"
  | CFunctions "'x go_function list"
  | CFunctionLists "'x go_function_list list"
  | CFunctionStatuses "go_function_status list"
  | CKeeps "keep_policy list"
  | CLocals "'x go_local list"
  | CRepos "'x go_repo list"
  | CRepoLists "'x go_repo_list list"
  | CRepoSpecs "go_repo_spec list"
  | CRepoStatuses "go_repo_status list"
  | CRestores "'x go_restore list"
  | CRestoreLists "'x go_restore_list list"
  | CRestoreSpecs "go_restore_spec list"
  | CRestoreStatuses "go_restore_status list"
  | CS3s "s3 list"
  | CSteps "go_step list"
  | CTargets "go_target list"
  | CContainers "go_target_container list"
  | CStatuses "go_target_status list"
  | CForeign 'x

definition Bool_kind :: "('x cell, bool) kind" where
  "Bool_kind = \<lparr>in_cell = CBools, of_cell = (\<lambda>c. case c of CBools xs \<Rightarrow> Some xs | _ \<Rightarrow> None)\<rparr>"

definition String_kind :: "('x cell, string) kind" where
  "String_kind = \<lparr>in_cell = CStrings, of_cell = (\<lambda>c. case c of CStrings xs \<Rightarrow> Some xs | _ \<Rightarrow> None)\<rparr>"

definition Time_kind :: "('x cell, go_time) kind" where
  "Time_kind = \<lparr>in_cell = CTimes, of_cell = (\<lambda>c. case c of CTimes xs \<Rightarrow> Some xs | _ \<Rightarrow> None)\<rparr>"

definition Duration_kind :: "('x cell, int) kind" where
  "Duration_kind = \<lparr>in_cell = CDurations, of_cell = (\<lambda>c. case c of CDurations xs \<Rightarrow> Some xs | _ \<Rightarrow> None)\<rparr>"

definition Backend_kind :: "('x cell, go_backend) kind" where
  "Backend_kind = \<lparr>in_cell = CBackends, of_cell = (\<lambda>c. case c of CBackends xs \<Rightarrow> Some xs | _ \<Rightarrow> None)\<rparr>"

definition BackupConfiguration_kind :: "('x cell, 'x go_configuration) kind" where
  "BackupConfiguration_kind = \<lparr>in_cell = CConfigurations, of_cell = (\<lambda>c. case c of CConfigurations xs \<Rightarrow> Some xs | _ \<Rightarrow> None)\<rparr>"

definition BackupConfigurationList_kind :: "('x cell, 'x go_configuration_list) kind" where
  "BackupConfigurationList_kind = \<lparr>in_cell = CConfigurationLists, of_cell = (\<lambda>c. case c of CConfigurationLists xs \<Rightarrow> Some xs | _ \<Rightarrow> None)\<rparr>"

definition BackupConfigurationSpec_kind :: "('x cell, go_configuration_spec) kind" where
  "BackupConfigurationSpec_kind = \<lparr>in_cell = CConfigurationSpecs, of_cell = (\<lambda>c. case c of CConfigurationSpecs xs \<Rightarrow> Some xs | _ \<Rightarrow> None)\<rparr>"

definition BackupConfigurationStatus_kind :: "('x cell, go_configuration_status) kind" where
  "BackupConfigurationStatus_kind = \<lparr>in_cell = CConfigurationStatuses, of_cell = (\<lambda>c. case c of CConfigurationStatuses xs \<Rightarrow> Some xs | _ \<Rightarrow> None)\<rparr>"

definition BackupSession_kind :: "('x cell, 'x go_session) kind" where
  "BackupSession_kind = \<lparr>in_cell = CSessions, of_cell = (\<lambda>c. case c of CSessions xs \<Rightarrow> Some xs | _ \<Rightarrow> None)\<rparr>"

definition BackupSessionList_kind :: "('x cell, 'x go_session_list) kind" where
  "BackupSessionList_kind = \<lparr>in_cell = CSessionLists, of_cell = (\<lambda>c. case c of CSessionLists xs \<Rightarrow> Some xs | _ \<Rightarrow> None)\<rparr>"

definition BackupSessionRef_kind :: "('x cell, go_session_ref) kind" where
  "BackupSessionRef_kind = \<lparr>in_cell = CSessionRefs, of_cell = (\<lambda>c. case c of CSessionRefs xs \<Rightarrow> Some xs | _ \<Rightarrow> None)\<rparr>"

definition BackupSessionSpec_kind :: "('x cell, backup_session_spec) kind" where
  "BackupSessionSpec_kind = \<lparr>in_cell = CSessionSpecs, of_cell = (\<lambda>c. case c of CSessionSpecs xs \<Rightarrow> Some xs | _ \<Rightarrow> None)\<rparr>"

definition BackupSessionStatus_kind :: "('x cell, go_session_status) kind" where
  "BackupSessionStatus_kind = \<lparr>in_cell = CSessionStatuses, of_cell = (\<lambda>c. case c of CSessionStatuses xs \<Rightarrow> Some xs | _ \<Rightarrow> None)\<rparr>"

definition Function_kind :: "('x cell, 'x go_function) kind" where
  "Function_kind = \<lparr>in_cell = CFunctions, of_cell = (\<lambda>c. case c of CFunctions xs \<Rightarrow> Some xs | _ \<Rightarrow> None)\<rparr>"

definition FunctionList_kind :: "('x cell, 'x go_function_list) kind" where
  "FunctionList_kind = \<lparr>in_cell = CFunctionLists, of_cell = (\<lambda>c. case c of CFunctionLists xs \<Rightarrow> Some xs | _ \<Rightarrow> None)\<rparr>"

definition FunctionStatus_kind :: "('x cell, go_function_status) kind" where
  "FunctionStatus_kind = \<lparr>in_cell = CFunctionStatuses, of_cell = (\<lambda>c. case c of CFunctionStatuses xs \<Rightarrow> Some xs | _ \<Rightarrow> None)\<rparr>"

definition Keep_kind :: "('x cell, keep_policy) kind" where
  "Keep_kind = \<lparr>in_cell = CKeeps, of_cell = (\<lambda>c. case c of CKeeps xs \<Rightarrow> Some xs | _ \<Rightarrow> None)\<rparr>"

definition Local_kind :: "('x cell, 'x go_local) kind" where
  "Local_kind = \<lparr>in_cell = CLocals, of_cell = (\<lambda>c. case c of CLocals xs \<Rightarrow> Some xs | _ \<Rightarrow> None)\<rparr>"

definition Repo_kind :: "('x cell, 'x go_repo) kind" where
  "Repo_kind = \<lparr>in_cell = CRepos, of_cell = (\<lambda>c. case c of CRepos xs \<Rightarrow> Some xs | _ \<Rightarrow> None)\<rparr>"

definition RepoList_kind :: "('x cell, 'x go_repo_list) kind" where
  "RepoList_kind = \<lparr>in_cell = CRepoLists, of_cell = (\<lambda>c. case c of CRepoLists xs \<Rightarrow> Some xs | _ \<Rightarrow> None)\<rparr>"

definition RepoSpec_kind :: "('x cell, go_repo_spec) kind" where
  "RepoSpec_kind = \<lparr>in_cell = CRepoSpecs, of_cell = (\<lambda>c. case c of CRepoSpecs xs \<Rightarrow> Some xs | _ \<Rightarrow> None)\<rparr>"

definition RepoStatus_kind :: "('x cell, go_repo_status) kind" where
  "RepoStatus_kind = \<lparr>in_cell = CRepoStatuses, of_cell = (\<lambda>c. case c of CRepoStatuses xs \<Rightarrow> Some xs | _ \<Rightarrow> None)\<rparr>"

definition RestoreSession_kind :: "('x cell, 'x go_restore) kind" where
  "RestoreSession_kind = \<lparr>in_cell = CRestores, of_cell = (\<lambda>c. case c of CRestores xs \<Rightarrow> Some xs | _ \<Rightarrow> None)\<rparr>"

definition RestoreSessionList_kind :: "('x cell, 'x go_restore_list) kind" where
  "RestoreSessionList_kind = \<lparr>in_cell = CRestoreLists, of_cell = (\<lambda>c. case c of CRestoreLists xs \<Rightarrow> Some xs | _ \<Rightarrow> None)\<rparr>"

definition RestoreSessionSpec_kind :: "('x cell, go_restore_spec) kind" where
  "RestoreSessionSpec_kind = \<lparr>in_cell = CRestoreSpecs, of_cell = (\<lambda>c. case c of CRestoreSpecs xs \<Rightarrow> Some xs | _ \<Rightarrow> None)\<rparr>"

definition RestoreSessionStatus_kind :: "('x cell, go_restore_status) kind" where
  "RestoreSessionStatus_kind = \<lparr>in_cell = CRestoreStatuses, of_cell = (\<lambda>c. case c of CRestoreStatuses xs \<Rightarrow> Some xs | _ \<Rightarrow> None)\<rparr>"

definition S3_kind :: "('x cell, s3) kind" where
  "S3_kind = \<lparr>in_cell = CS3s, of_cell = (\<lambda>c. case c of CS3s xs \<Rightarrow> Some xs | _ \<Rightarrow> None)\<rparr>"

definition Step_kind :: "('x cell, go_step) kind" where
  "Step_kind = \<lparr>in_cell = CSteps, of_cell = (\<lambda>c. case c of CSteps xs \<Rightarrow> Some xs | _ \<Rightarrow> None)\<rparr>"

definition Target_kind :: "('x cell, go_target) kind" where
  "Target_kind = \<lparr>in_cell = CTargets, of_cell = (\<lambda>c. case c of CTargets xs \<Rightarrow> Some xs | _ \<Rightarrow> None)\<rparr>"

definition TargetContainer_kind :: "('x cell, go_target_container) kind" where
  "TargetContainer_kind = \<lparr>in_cell = CContainers, of_cell = (\<lambda>c. case c of CContainers xs \<Rightarrow> Some xs | _ \<Rightarrow> None)\<rparr>"

definition TargetStatus_kind :: "('x cell, go_target_status) kind" where
  "TargetStatus_kind = \<lparr>in_cell = CStatuses, of_cell = (\<lambda>c. case c of CStatuses xs \<Rightarrow> Some xs | _ \<Rightarrow> None)\<rparr>"

lemmas kind_defs = Bool_kind_def String_kind_def Time_kind_def Duration_kind_def Backend_kind_def BackupConfiguration_kind_def BackupConfigurationList_kind_def BackupConfigurationSpec_kind_def BackupConfigurationStatus_kind_def BackupSession_kind_def BackupSessionList_kind_def BackupSessionRef_kind_def BackupSessionSpec_kind_def BackupSessionStatus_kind_def Function_kind_def FunctionList_kind_def FunctionStatus_kind_def Keep_kind_def Local_kind_def Repo_kind_def RepoList_kind_def RepoSpec_kind_def RepoStatus_kind_def RestoreSession_kind_def RestoreSessionList_kind_def RestoreSessionSpec_kind_def RestoreSessionStatus_kind_def S3_kind_def Step_kind_def Target_kind_def TargetContainer_kind_def TargetStatus_kind_def

lemma kinds_ok [copier_intros]:
  "kind_ok Bool_kind" "kind_ok String_kind" "kind_ok Time_kind"
  "kind_ok Duration_kind" "kind_ok Backend_kind" "kind_ok BackupConfiguration_kind"
  "kind_ok BackupConfigurationList_kind" "kind_ok BackupConfigurationSpec_kind" "kind_ok BackupConfigurationStatus_kind"
  "kind_ok BackupSession_kind" "kind_ok BackupSessionList_kind" "kind_ok BackupSessionRef_kind"
  "kind_ok BackupSessionSpec_kind" "kind_ok BackupSessionStatus_kind" "kind_ok Function_kind"
  "kind_ok FunctionList_kind" "kind_ok FunctionStatus_kind" "kind_ok Keep_kind"
  "kind_ok Local_kind" "kind_ok Repo_kind" "kind_ok RepoList_kind"
  "kind_ok RepoSpec_kind" "kind_ok RepoStatus_kind" "kind_ok RestoreSession_kind"
  "kind_ok RestoreSessionList_kind" "kind_ok RestoreSessionSpec_kind" "kind_ok RestoreSessionStatus_kind"
  "kind_ok S3_kind" "kind_ok Step_kind" "kind_ok Target_kind"
  "kind_ok TargetContainer_kind" "kind_ok TargetStatus_kind"
  by (simp_all add: kind_ok_def kind_defs)

end
