(* ===== verification/DeepCopy.thy ===== *)
theory DeepCopy
  imports Layout
begin

section \<open>Deep copies (api/v1alpha1/zz_generated.deepcopy.go)\<close>

text \<open>
  The generated methods \<open>DeepCopyInto\<close>, \<open>DeepCopy\<close> and \<open>DeepCopyObject\<close> of every type of the API,
  on the memory of theory Memory. \<open>DeepCopyInto\<close> takes the struct \<open>*in\<close> and answers the one it leaves
  in \<open>*out\<close>, for an \<open>out\<close> that is not \<open>in\<close>. The methods of other packages that they call are
  parameters (\<open>foreign\<close>), with the contract of a copier as their law. The contract is then proved for
  each type, by the structure of the types.
\<close>

record 'x foreign =
  ObjectMeta_DeepCopyInto :: "'x \<Rightarrow> ('x cell memory, 'x) go"
  ListMeta_DeepCopyInto :: "'x \<Rightarrow> ('x cell memory, 'x) go"
  VolumeSource_DeepCopyInto :: "'x \<Rightarrow> ('x cell memory, 'x) go"
  Container_DeepCopyInto :: "'x \<Rightarrow> ('x cell memory, 'x) go"
  Time_DeepCopy :: "pointer option \<Rightarrow> ('x cell memory, pointer option) go"

subsection \<open>Steps, containers, targets\<close>

definition Step_DeepCopyInto :: "go_step \<Rightarrow> ('x cell memory, go_step) go" where
  "Step_DeepCopyInto s =
     bind_go (copy_ptr String_kind ret (gst_Finalize s)) (\<lambda>a.
     bind_go (copy_ptr String_kind ret (gst_Initialize s)) (\<lambda>b.
     bind_go (copy_ptr String_kind ret (gst_Backup s)) (\<lambda>c.
     bind_go (copy_ptr String_kind ret (gst_Restore s)) (\<lambda>d.
     ret (s\<lparr>gst_Finalize := a, gst_Initialize := b, gst_Backup := c, gst_Restore := d\<rparr>)))))"

definition Step_DeepCopy :: "pointer option \<Rightarrow> ('x cell memory, pointer option) go" where
  "Step_DeepCopy = copy_ptr Step_kind Step_DeepCopyInto"

definition TargetContainer_DeepCopyInto :: "go_target_container \<Rightarrow> ('x cell memory, go_target_container) go" where
  "TargetContainer_DeepCopyInto c =
     bind_go (copy_slice String_kind ret (gtc_Paths c)) (\<lambda>ps.
     bind_go (copy_slice Step_kind Step_DeepCopyInto (gtc_Steps c)) (\<lambda>ss.
     bind_go (copy_slice Step_kind Step_DeepCopyInto (gtc_Job c)) (\<lambda>js.
     ret (c\<lparr>gtc_Paths := ps, gtc_Steps := ss, gtc_Job := js\<rparr>))))"

definition TargetContainer_DeepCopy :: "pointer option \<Rightarrow> ('x cell memory, pointer option) go" where
  "TargetContainer_DeepCopy = copy_ptr TargetContainer_kind TargetContainer_DeepCopyInto"

definition Target_DeepCopyInto :: "go_target \<Rightarrow> ('x cell memory, go_target) go" where
  "Target_DeepCopyInto t =
     bind_go (copy_slice TargetContainer_kind TargetContainer_DeepCopyInto (gtg_Containers t)) (\<lambda>cs.
     ret (t\<lparr>gtg_Containers := cs\<rparr>))"

definition Target_DeepCopy :: "pointer option \<Rightarrow> ('x cell memory, pointer option) go" where
  "Target_DeepCopy = copy_ptr Target_kind Target_DeepCopyInto"

definition Keep_DeepCopyInto :: "keep_policy \<Rightarrow> ('x cell memory, keep_policy) go" where
  "Keep_DeepCopyInto k = ret k"

definition Keep_DeepCopy :: "pointer option \<Rightarrow> ('x cell memory, pointer option) go" where
  "Keep_DeepCopy = copy_ptr Keep_kind Keep_DeepCopyInto"

subsection \<open>Objects and lists\<close>

text \<open>\<open>if in.T != nil { *out = (*in).DeepCopy() }\<close>, for a time.\<close>

definition copy_time :: "'x foreign \<Rightarrow> pointer option \<Rightarrow> ('x cell memory, pointer option) go" where
  "copy_time F p = (case p of None \<Rightarrow> ret None | Some q \<Rightarrow> Time_DeepCopy F (Some q))"

text \<open>
  The shape of \<open>DeepCopyInto\<close> for the five kinds of objects and their lists; a spec or status
  without pointers is assigned, which is \<open>ret\<close>.
\<close>

definition object_DeepCopyInto :: "'x foreign \<Rightarrow> ('s \<Rightarrow> ('x cell memory, 's) go) \<Rightarrow> ('t \<Rightarrow> ('x cell memory, 't) go) \<Rightarrow>
    ('x, 's, 't) go_object \<Rightarrow> ('x cell memory, ('x, 's, 't) go_object) go" where
  "object_DeepCopyInto F spec status x =
     bind_go (ObjectMeta_DeepCopyInto F (gob_ObjectMeta x)) (\<lambda>m.
     bind_go (spec (gob_Spec x)) (\<lambda>s.
     bind_go (status (gob_Status x)) (\<lambda>t.
     ret (x\<lparr>gob_ObjectMeta := m, gob_Spec := s, gob_Status := t\<rparr>))))"

definition list_DeepCopyInto :: "'x foreign \<Rightarrow> ('x cell, 'a) kind \<Rightarrow> ('a \<Rightarrow> ('x cell memory, 'a) go) \<Rightarrow>
    'x go_list \<Rightarrow> ('x cell memory, 'x go_list) go" where
  "list_DeepCopyInto F K item l =
     bind_go (ListMeta_DeepCopyInto F (gli_ListMeta l)) (\<lambda>m.
     bind_go (copy_slice K item (gli_Items l)) (\<lambda>xs.
     ret (l\<lparr>gli_ListMeta := m, gli_Items := xs\<rparr>)))"

text \<open>What \<open>DeepCopyObject\<close> answers: an interface with a pointer to an object in it, or nil.\<close>

datatype runtime_object =
    ROBackupConfiguration pointer
  | ROBackupConfigurationList pointer
  | ROBackupSession pointer
  | ROBackupSessionList pointer
  | ROFunction pointer
  | ROFunctionList pointer
  | RORepo pointer
  | RORepoList pointer
  | RORestoreSession pointer
  | RORestoreSessionList pointer

definition copy_object :: "(pointer \<Rightarrow> runtime_object) \<Rightarrow> (pointer option \<Rightarrow> ('w, pointer option) go) \<Rightarrow>
    pointer option \<Rightarrow> ('w, runtime_object option) go" where
  "copy_object mk copy p = bind_go (copy p) (\<lambda>c. case c of Some q \<Rightarrow> ret (Some (mk q)) | None \<Rightarrow> ret None)"

subsection \<open>Backup configurations\<close>

definition BackupConfigurationSpec_DeepCopyInto :: "go_configuration_spec \<Rightarrow> ('x cell memory, go_configuration_spec) go" where
  "BackupConfigurationSpec_DeepCopyInto s =
     bind_go (copy_ptr Bool_kind ret (gcs_Suspend s)) (\<lambda>b.
     bind_go (copy_slice Target_kind Target_DeepCopyInto (gcs_Targets s)) (\<lambda>ts.
     ret (s\<lparr>gcs_Suspend := b, gcs_Keep := gcs_Keep s, gcs_Targets := ts\<rparr>)))"

definition BackupConfigurationSpec_DeepCopy :: "pointer option \<Rightarrow> ('x cell memory, pointer option) go" where
  "BackupConfigurationSpec_DeepCopy = copy_ptr BackupConfigurationSpec_kind BackupConfigurationSpec_DeepCopyInto"

definition BackupConfigurationStatus_DeepCopyInto :: "'x foreign \<Rightarrow> go_configuration_status \<Rightarrow> ('x cell memory, go_configuration_status) go" where
  "BackupConfigurationStatus_DeepCopyInto F s =
     bind_go (copy_time F (gct_LastBackupTime s)) (\<lambda>t. ret (s\<lparr>gct_LastBackupTime := t\<rparr>))"

definition BackupConfigurationStatus_DeepCopy :: "'x foreign \<Rightarrow> pointer option \<Rightarrow> ('x cell memory, pointer option) go" where
  "BackupConfigurationStatus_DeepCopy F = copy_ptr BackupConfigurationStatus_kind (BackupConfigurationStatus_DeepCopyInto F)"

definition BackupConfiguration_DeepCopyInto :: "'x foreign \<Rightarrow> 'x go_configuration \<Rightarrow> ('x cell memory, 'x go_configuration) go" where
  "BackupConfiguration_DeepCopyInto F =
     object_DeepCopyInto F BackupConfigurationSpec_DeepCopyInto (BackupConfigurationStatus_DeepCopyInto F)"

definition BackupConfiguration_DeepCopy :: "'x foreign \<Rightarrow> pointer option \<Rightarrow> ('x cell memory, pointer option) go" where
  "BackupConfiguration_DeepCopy F = copy_ptr BackupConfiguration_kind (BackupConfiguration_DeepCopyInto F)"

definition BackupConfiguration_DeepCopyObject :: "'x foreign \<Rightarrow> pointer option \<Rightarrow> ('x cell memory, runtime_object option) go" where
  "BackupConfiguration_DeepCopyObject F = copy_object ROBackupConfiguration (BackupConfiguration_DeepCopy F)"

definition BackupConfigurationList_DeepCopyInto :: "'x foreign \<Rightarrow> 'x go_configuration_list \<Rightarrow> ('x cell memory, 'x go_configuration_list) go" where
  "BackupConfigurationList_DeepCopyInto F = list_DeepCopyInto F BackupConfiguration_kind (BackupConfiguration_DeepCopyInto F)"

definition BackupConfigurationList_DeepCopy :: "'x foreign \<Rightarrow> pointer option \<Rightarrow> ('x cell memory, pointer option) go" where
  "BackupConfigurationList_DeepCopy F = copy_ptr BackupConfigurationList_kind (BackupConfigurationList_DeepCopyInto F)"

definition BackupConfigurationList_DeepCopyObject :: "'x foreign \<Rightarrow> pointer option \<Rightarrow> ('x cell memory, runtime_object option) go" where
  "BackupConfigurationList_DeepCopyObject F = copy_object ROBackupConfigurationList (BackupConfigurationList_DeepCopy F)"

subsection \<open>Backup sessions\<close>

definition TargetStatus_DeepCopyInto :: "'x foreign \<Rightarrow> go_target_status \<Rightarrow> ('x cell memory, go_target_status) go" where
  "TargetStatus_DeepCopyInto F s =
     bind_go (copy_time F (gts_StartTime s)) (\<lambda>t.
     bind_go (copy_ptr Duration_kind ret (gts_Duration s)) (\<lambda>d.
     ret (s\<lparr>gts_StartTime := t, gts_Duration := d\<rparr>)))"

definition TargetStatus_DeepCopy :: "'x foreign \<Rightarrow> pointer option \<Rightarrow> ('x cell memory, pointer option) go" where
  "TargetStatus_DeepCopy F = copy_ptr TargetStatus_kind (TargetStatus_DeepCopyInto F)"

definition BackupSessionSpec_DeepCopyInto :: "backup_session_spec \<Rightarrow> ('x cell memory, backup_session_spec) go" where
  "BackupSessionSpec_DeepCopyInto s = ret (s\<lparr>bss_Ref := bss_Ref s\<rparr>)"

definition BackupSessionSpec_DeepCopy :: "pointer option \<Rightarrow> ('x cell memory, pointer option) go" where
  "BackupSessionSpec_DeepCopy = copy_ptr BackupSessionSpec_kind BackupSessionSpec_DeepCopyInto"

definition BackupSessionStatus_DeepCopyInto :: "'x foreign \<Rightarrow> go_session_status \<Rightarrow> ('x cell memory, go_session_status) go" where
  "BackupSessionStatus_DeepCopyInto F s =
     bind_go (copy_time F (gss_StartTime s)) (\<lambda>t.
     bind_go (copy_slice TargetStatus_kind (TargetStatus_DeepCopyInto F) (gss_Targets s)) (\<lambda>ts.
     ret (s\<lparr>gss_StartTime := t, gss_Targets := ts\<rparr>)))"

definition BackupSessionStatus_DeepCopy :: "'x foreign \<Rightarrow> pointer option \<Rightarrow> ('x cell memory, pointer option) go" where
  "BackupSessionStatus_DeepCopy F = copy_ptr BackupSessionStatus_kind (BackupSessionStatus_DeepCopyInto F)"

definition BackupSession_DeepCopyInto :: "'x foreign \<Rightarrow> 'x go_session \<Rightarrow> ('x cell memory, 'x go_session) go" where
  "BackupSession_DeepCopyInto F = object_DeepCopyInto F ret (BackupSessionStatus_DeepCopyInto F)"

definition BackupSession_DeepCopy :: "'x foreign \<Rightarrow> pointer option \<Rightarrow> ('x cell memory, pointer option) go" where
  "BackupSession_DeepCopy F = copy_ptr BackupSession_kind (BackupSession_DeepCopyInto F)"

definition BackupSession_DeepCopyObject :: "'x foreign \<Rightarrow> pointer option \<Rightarrow> ('x cell memory, runtime_object option) go" where
  "BackupSession_DeepCopyObject F = copy_object ROBackupSession (BackupSession_DeepCopy F)"

definition BackupSessionList_DeepCopyInto :: "'x foreign \<Rightarrow> 'x go_session_list \<Rightarrow> ('x cell memory, 'x go_session_list) go" where
  "BackupSessionList_DeepCopyInto F = list_DeepCopyInto F BackupSession_kind (BackupSession_DeepCopyInto F)"

definition BackupSessionList_DeepCopy :: "'x foreign \<Rightarrow> pointer option \<Rightarrow> ('x cell memory, pointer option) go" where
  "BackupSessionList_DeepCopy F = copy_ptr BackupSessionList_kind (BackupSessionList_DeepCopyInto F)"

definition BackupSessionList_DeepCopyObject :: "'x foreign \<Rightarrow> pointer option \<Rightarrow> ('x cell memory, runtime_object option) go" where
  "BackupSessionList_DeepCopyObject F = copy_object ROBackupSessionList (BackupSessionList_DeepCopy F)"

subsection \<open>Restore sessions\<close>

definition BackupSessionRef_DeepCopyInto :: "'x foreign \<Rightarrow> go_session_ref \<Rightarrow> ('x cell memory, go_session_ref) go" where
  "BackupSessionRef_DeepCopyInto F s =
     bind_go (BackupSessionStatus_DeepCopyInto F (gsr_Status s)) (\<lambda>t.
     ret (s\<lparr>gsr_Spec := gsr_Spec s, gsr_Status := t\<rparr>))"

definition BackupSessionRef_DeepCopy :: "'x foreign \<Rightarrow> pointer option \<Rightarrow> ('x cell memory, pointer option) go" where
  "BackupSessionRef_DeepCopy F = copy_ptr BackupSessionRef_kind (BackupSessionRef_DeepCopyInto F)"

definition RestoreSessionSpec_DeepCopyInto :: "'x foreign \<Rightarrow> go_restore_spec \<Rightarrow> ('x cell memory, go_restore_spec) go" where
  "RestoreSessionSpec_DeepCopyInto F s =
     bind_go (BackupSessionRef_DeepCopyInto F (grs_BackupSessionRef s)) (\<lambda>r.
     ret (s\<lparr>grs_BackupSessionRef := r\<rparr>))"

definition RestoreSessionSpec_DeepCopy :: "'x foreign \<Rightarrow> pointer option \<Rightarrow> ('x cell memory, pointer option) go" where
  "RestoreSessionSpec_DeepCopy F = copy_ptr RestoreSessionSpec_kind (RestoreSessionSpec_DeepCopyInto F)"

definition RestoreSessionStatus_DeepCopyInto :: "'x foreign \<Rightarrow> go_restore_status \<Rightarrow> ('x cell memory, go_restore_status) go" where
  "RestoreSessionStatus_DeepCopyInto F s =
     bind_go (copy_time F (grt_StartTime s)) (\<lambda>t.
     bind_go (copy_slice TargetStatus_kind (TargetStatus_DeepCopyInto F) (grt_Targets s)) (\<lambda>ts.
     ret (s\<lparr>grt_StartTime := t, grt_Targets := ts\<rparr>)))"

definition RestoreSessionStatus_DeepCopy :: "'x foreign \<Rightarrow> pointer option \<Rightarrow> ('x cell memory, pointer option) go" where
  "RestoreSessionStatus_DeepCopy F = copy_ptr RestoreSessionStatus_kind (RestoreSessionStatus_DeepCopyInto F)"

definition RestoreSession_DeepCopyInto :: "'x foreign \<Rightarrow> 'x go_restore \<Rightarrow> ('x cell memory, 'x go_restore) go" where
  "RestoreSession_DeepCopyInto F =
     object_DeepCopyInto F (RestoreSessionSpec_DeepCopyInto F) (RestoreSessionStatus_DeepCopyInto F)"

definition RestoreSession_DeepCopy :: "'x foreign \<Rightarrow> pointer option \<Rightarrow> ('x cell memory, pointer option) go" where
  "RestoreSession_DeepCopy F = copy_ptr RestoreSession_kind (RestoreSession_DeepCopyInto F)"

definition RestoreSession_DeepCopyObject :: "'x foreign \<Rightarrow> pointer option \<Rightarrow> ('x cell memory, runtime_object option) go" where
  "RestoreSession_DeepCopyObject F = copy_object RORestoreSession (RestoreSession_DeepCopy F)"

definition RestoreSessionList_DeepCopyInto :: "'x foreign \<Rightarrow> 'x go_restore_list \<Rightarrow> ('x cell memory, 'x go_restore_list) go" where
  "RestoreSessionList_DeepCopyInto F = list_DeepCopyInto F RestoreSession_kind (RestoreSession_DeepCopyInto F)"

definition RestoreSessionList_DeepCopy :: "'x foreign \<Rightarrow> pointer option \<Rightarrow> ('x cell memory, pointer option) go" where
  "RestoreSessionList_DeepCopy F = copy_ptr RestoreSessionList_kind (RestoreSessionList_DeepCopyInto F)"

definition RestoreSessionList_DeepCopyObject :: "'x foreign \<Rightarrow> pointer option \<Rightarrow> ('x cell memory, runtime_object option) go" where
  "RestoreSessionList_DeepCopyObject F = copy_object RORestoreSessionList (RestoreSessionList_DeepCopy F)"

subsection \<open>Repositories and functions\<close>

definition S3_DeepCopyInto :: "s3 \<Rightarrow> ('x cell memory, s3) go" where
  "S3_DeepCopyInto s = ret s"

definition S3_DeepCopy :: "pointer option \<Rightarrow> ('x cell memory, pointer option) go" where
  "S3_DeepCopy = copy_ptr S3_kind S3_DeepCopyInto"

definition Local_DeepCopyInto :: "'x foreign \<Rightarrow> 'x go_local \<Rightarrow> ('x cell memory, 'x go_local) go" where
  "Local_DeepCopyInto F l =
     bind_go (VolumeSource_DeepCopyInto F (glo_VolumeSource l)) (\<lambda>v. ret (l\<lparr>glo_VolumeSource := v\<rparr>))"

definition Local_DeepCopy :: "'x foreign \<Rightarrow> pointer option \<Rightarrow> ('x cell memory, pointer option) go" where
  "Local_DeepCopy F = copy_ptr Local_kind (Local_DeepCopyInto F)"

definition Backend_DeepCopyInto :: "'x foreign \<Rightarrow> go_backend \<Rightarrow> ('x cell memory, go_backend) go" where
  "Backend_DeepCopyInto F b =
     bind_go (copy_ptr S3_kind ret (gbe_S3 b)) (\<lambda>s.
     bind_go (copy_ptr Local_kind (Local_DeepCopyInto F) (gbe_Local b)) (\<lambda>l.
     ret (b\<lparr>gbe_S3 := s, gbe_Local := l\<rparr>)))"

definition Backend_DeepCopy :: "'x foreign \<Rightarrow> pointer option \<Rightarrow> ('x cell memory, pointer option) go" where
  "Backend_DeepCopy F = copy_ptr Backend_kind (Backend_DeepCopyInto F)"

definition RepoSpec_DeepCopyInto :: "'x foreign \<Rightarrow> go_repo_spec \<Rightarrow> ('x cell memory, go_repo_spec) go" where
  "RepoSpec_DeepCopyInto F s =
     bind_go (Backend_DeepCopyInto F (grp_Backend s)) (\<lambda>b. ret (s\<lparr>grp_Backend := b\<rparr>))"

definition RepoSpec_DeepCopy :: "'x foreign \<Rightarrow> pointer option \<Rightarrow> ('x cell memory, pointer option) go" where
  "RepoSpec_DeepCopy F = copy_ptr RepoSpec_kind (RepoSpec_DeepCopyInto F)"

definition RepoStatus_DeepCopyInto :: "go_repo_status \<Rightarrow> ('x cell memory, go_repo_status) go" where
  "RepoStatus_DeepCopyInto s = ret s"

definition RepoStatus_DeepCopy :: "pointer option \<Rightarrow> ('x cell memory, pointer option) go" where
  "RepoStatus_DeepCopy = copy_ptr RepoStatus_kind RepoStatus_DeepCopyInto"

definition Repo_DeepCopyInto :: "'x foreign \<Rightarrow> 'x go_repo \<Rightarrow> ('x cell memory, 'x go_repo) go" where
  "Repo_DeepCopyInto F = object_DeepCopyInto F (RepoSpec_DeepCopyInto F) ret"

definition Repo_DeepCopy :: "'x foreign \<Rightarrow> pointer option \<Rightarrow> ('x cell memory, pointer option) go" where
  "Repo_DeepCopy F = copy_ptr Repo_kind (Repo_DeepCopyInto F)"

definition Repo_DeepCopyObject :: "'x foreign \<Rightarrow> pointer option \<Rightarrow> ('x cell memory, runtime_object option) go" where
  "Repo_DeepCopyObject F = copy_object RORepo (Repo_DeepCopy F)"

definition RepoList_DeepCopyInto :: "'x foreign \<Rightarrow> 'x go_repo_list \<Rightarrow> ('x cell memory, 'x go_repo_list) go" where
  "RepoList_DeepCopyInto F = list_DeepCopyInto F Repo_kind (Repo_DeepCopyInto F)"

definition RepoList_DeepCopy :: "'x foreign \<Rightarrow> pointer option \<Rightarrow> ('x cell memory, pointer option) go" where
  "RepoList_DeepCopy F = copy_ptr RepoList_kind (RepoList_DeepCopyInto F)"

definition RepoList_DeepCopyObject :: "'x foreign \<Rightarrow> pointer option \<Rightarrow> ('x cell memory, runtime_object option) go" where
  "RepoList_DeepCopyObject F = copy_object RORepoList (RepoList_DeepCopy F)"

definition FunctionStatus_DeepCopyInto :: "go_function_status \<Rightarrow> ('x cell memory, go_function_status) go" where
  "FunctionStatus_DeepCopyInto s = ret s"

definition FunctionStatus_DeepCopy :: "pointer option \<Rightarrow> ('x cell memory, pointer option) go" where
  "FunctionStatus_DeepCopy = copy_ptr FunctionStatus_kind FunctionStatus_DeepCopyInto"

definition Function_DeepCopyInto :: "'x foreign \<Rightarrow> 'x go_function \<Rightarrow> ('x cell memory, 'x go_function) go" where
  "Function_DeepCopyInto F = object_DeepCopyInto F (Container_DeepCopyInto F) ret"

definition Function_DeepCopy :: "'x foreign \<Rightarrow> pointer option \<Rightarrow> ('x cell memory, pointer option) go" where
  "Function_DeepCopy F = copy_ptr Function_kind (Function_DeepCopyInto F)"

definition Function_DeepCopyObject :: "'x foreign \<Rightarrow> pointer option \<Rightarrow> ('x cell memory, runtime_object option) go" where
  "Function_DeepCopyObject F = copy_object ROFunction (Function_DeepCopy F)"

definition FunctionList_DeepCopyInto :: "'x foreign \<Rightarrow> 'x go_function_list \<Rightarrow> ('x cell memory, 'x go_function_list) go" where
  "FunctionList_DeepCopyInto F = list_DeepCopyInto F Function_kind (Function_DeepCopyInto F)"

definition FunctionList_DeepCopy :: "'x foreign \<Rightarrow> pointer option \<Rightarrow> ('x cell memory, pointer option) go" where
  "FunctionList_DeepCopy F = copy_ptr FunctionList_kind (FunctionList_DeepCopyInto F)"

definition FunctionList_DeepCopyObject :: "'x foreign \<Rightarrow> pointer option \<Rightarrow> ('x cell memory, runtime_object option) go" where
  "FunctionList_DeepCopyObject F = copy_object ROFunctionList (FunctionList_DeepCopy F)"

end
