(* ===== verification/Sharing.thy ===== *)
theory Sharing
  imports DeepCopy
begin

section \<open>The deep copies are copies, and share nothing\<close>

text \<open>
  The contents of each type, which are the records of theory ApiTypes that the rest of the
  development works with, and the proof that the generated methods satisfy the contract
  \<open>copier\<close> of theory Memory for them.
\<close>

subsection \<open>Steps, containers, targets, specifications\<close>

definition deep_step :: "('x cell, go_step, step) reading" where
  "deep_step = deep_struct (\<lambda>s. (gst_Finalize s, gst_Initialize s, gst_Backup s, gst_Restore s))
     (\<lambda>_ (a, b, c, d). \<lparr>st_Finalize = a, st_Initialize = b, st_Backup = c, st_Restore = d\<rparr>)
     (let p = deep_ptr String_kind deep_plain in deep_pair p (deep_pair p (deep_pair p p)))"

lemmas copy_chain = copy_pair_def bind_assoc

lemma Step_copier [copier_intros]: "copier deep_step Step_DeepCopyInto"
  unfolding deep_step_def Let_def
  by (rule copier_struct [where put = "\<lambda>s (a, b, c, d). s\<lparr>gst_Finalize := a, gst_Initialize := b, gst_Backup := c, gst_Restore := d\<rparr>"])
    (auto intro!: copier_intros simp: Step_DeepCopyInto_def copy_chain)

definition deep_target_container :: "('x cell, go_target_container, target_container) reading" where
  "deep_target_container = deep_struct (\<lambda>c. (gtc_Paths c, gtc_Steps c, gtc_Job c))
     (\<lambda>c (ps, ss, js). \<lparr>tc_Name = gtc_Name c, tc_Paths = ps, tc_Steps = ss, tc_SharePath = gtc_SharePath c, tc_Job = js\<rparr>)
     (deep_pair (deep_slice String_kind deep_plain) (deep_pair (deep_slice Step_kind deep_step) (deep_slice Step_kind deep_step)))"

lemma TargetContainer_copier [copier_intros]: "copier deep_target_container TargetContainer_DeepCopyInto"
  unfolding deep_target_container_def
  by (rule copier_struct [where put = "\<lambda>c (ps, ss, js). c\<lparr>gtc_Paths := ps, gtc_Steps := ss, gtc_Job := js\<rparr>"])
    (auto intro!: copier_intros simp: TargetContainer_DeepCopyInto_def copy_chain)

definition deep_target :: "('x cell, go_target, target) reading" where
  "deep_target = deep_struct gtg_Containers
     (\<lambda>t cs. \<lparr>tg_BackupType = gtg_BackupType t, tg_TargetKind = gtg_TargetKind t, tg_TargetName = gtg_TargetName t,
       tg_Containers = cs, tg_Retry = gtg_Retry t, tg_VolumeSnapshotClass = gtg_VolumeSnapshotClass t\<rparr>)
     (deep_slice TargetContainer_kind deep_target_container)"

lemma Target_copier [copier_intros]: "copier deep_target Target_DeepCopyInto"
  unfolding deep_target_def
  by (rule copier_struct [where put = "\<lambda>t cs. t\<lparr>gtg_Containers := cs\<rparr>"])
    (auto intro!: copier_intros simp: Target_DeepCopyInto_def)

definition deep_configuration_spec :: "('x cell, go_configuration_spec, backup_configuration_spec) reading" where
  "deep_configuration_spec = deep_struct (\<lambda>s. (gcs_Suspend s, gcs_Targets s))
     (\<lambda>s (b, ts). \<lparr>bcs_Repository = gcs_Repository s, bcs_Image = gcs_Image s, bcs_Suspend = b,
       bcs_Schedule = gcs_Schedule s, bcs_Keep = gcs_Keep s, bcs_Targets = ts\<rparr>)
     (deep_pair (deep_ptr Bool_kind deep_plain) (deep_slice Target_kind deep_target))"

lemma BackupConfigurationSpec_copier [copier_intros]: "copier deep_configuration_spec BackupConfigurationSpec_DeepCopyInto"
  unfolding deep_configuration_spec_def
  by (rule copier_struct [where put = "\<lambda>s (b, ts). s\<lparr>gcs_Suspend := b, gcs_Targets := ts\<rparr>"])
    (auto intro!: copier_intros simp: BackupConfigurationSpec_DeepCopyInto_def copy_chain)

text \<open>These types need nothing from other packages: their copiers are copiers without a hypothesis.\<close>

interpretation step: copier deep_step Step_DeepCopyInto
  by (rule Step_copier)

interpretation target: copier deep_target Target_DeepCopyInto
  by (rule Target_copier)

interpretation configuration_spec: copier deep_configuration_spec BackupConfigurationSpec_DeepCopyInto
  by (rule BackupConfigurationSpec_copier)

subsection \<open>What is asked of the other packages\<close>

text \<open>What their structs have in them, and that their methods are copiers too.\<close>

record ('x, 'l) contents =
  object_meta :: "('x cell, 'x, obj_meta) reading"
  list_meta :: "('x cell, 'x, 'l) reading"
  volume_source :: "('x cell, 'x, volume_source) reading"
  pod_container :: "('x cell, 'x, container) reading"

definition deep_time :: "('x cell, pointer option, go_time option) reading" where
  "deep_time = deep_ptr Time_kind deep_plain"

definition foreign_laws :: "'x foreign \<Rightarrow> ('x, 'l) contents \<Rightarrow> bool" where
  "foreign_laws F G \<longleftrightarrow>
     copier (object_meta G) (ObjectMeta_DeepCopyInto F) \<and>
     copier (list_meta G) (ListMeta_DeepCopyInto F) \<and>
     copier (volume_source G) (VolumeSource_DeepCopyInto F) \<and>
     copier (pod_container G) (Container_DeepCopyInto F) \<and>
     copier deep_time (Time_DeepCopy F)"

lemma foreign_lawsD [copier_intros]:
  assumes "foreign_laws F G"
  shows "copier (object_meta G) (ObjectMeta_DeepCopyInto F)" "copier (list_meta G) (ListMeta_DeepCopyInto F)"
    "copier (volume_source G) (VolumeSource_DeepCopyInto F)" "copier (pod_container G) (Container_DeepCopyInto F)"
  using assms by (simp_all add: foreign_laws_def)

lemma copy_time_copier [copier_intros]:
  assumes "foreign_laws F G"
  shows "copier deep_time (copy_time F)"
proof (rule copierI)
  have time: "copier deep_time (Time_DeepCopy F)" using assms by (simp add: foreign_laws_def)
  then show "reading (deep_time :: ('a cell, _, _) reading)" by (rule copier_reading)
  show "\<exists>y bs m'. copy_time F p m = (Ret y, m') \<and> grows m m' \<and> deep_time m' y = Some (v, bs) \<and>
      set bs \<inter> dom (mem_Cells m) = {} \<and> distinct bs"
    if "wf_memory m" "deep_time m p = Some (v, as)" for m p v as
  proof (cases p)
    case None
    with that show ?thesis by (auto simp: copy_time_def deep_time_def deep_ptr_def ret_run grows_refl)
  next
    case (Some q)
    with copier.copies [OF time that] show ?thesis by (simp add: copy_time_def)
  qed
qed

subsection \<open>Sessions, repositories, objects and lists\<close>

definition deep_configuration_status :: "('x cell, go_configuration_status, backup_configuration_status) reading" where
  "deep_configuration_status = deep_struct gct_LastBackupTime
     (\<lambda>s t. \<lparr>bct_LastBackupTime = t, bct_Suspended = gct_Suspended s, bct_ActiveCronJob = gct_ActiveCronJob s,
       bct_ActiveSidecar = gct_ActiveSidecar s\<rparr>) deep_time"

lemma BackupConfigurationStatus_copier [copier_intros]:
  "foreign_laws F G \<Longrightarrow> copier deep_configuration_status (BackupConfigurationStatus_DeepCopyInto F)"
  unfolding deep_configuration_status_def
  by (rule copier_struct [where put = "\<lambda>s t. s\<lparr>gct_LastBackupTime := t\<rparr>"])
    (auto intro!: copier_intros simp: BackupConfigurationStatus_DeepCopyInto_def)

definition deep_target_status :: "('x cell, go_target_status, target_status) reading" where
  "deep_target_status = deep_struct (\<lambda>s. (gts_StartTime s, gts_Duration s))
     (\<lambda>s (t, d). \<lparr>ts_BackupType = gts_BackupType s, ts_TargetName = gts_TargetName s, ts_TargetKind = gts_TargetKind s,
       ts_SessionState = gts_SessionState s, ts_SnapshotId = gts_SnapshotId s, ts_StartTime = t, ts_Duration = d,
       ts_Try = gts_Try s\<rparr>)
     (deep_pair deep_time (deep_ptr Duration_kind deep_plain))"

lemma TargetStatus_copier [copier_intros]:
  "foreign_laws F G \<Longrightarrow> copier deep_target_status (TargetStatus_DeepCopyInto F)"
  unfolding deep_target_status_def
  by (rule copier_struct [where put = "\<lambda>s (t, d). s\<lparr>gts_StartTime := t, gts_Duration := d\<rparr>"])
    (auto intro!: copier_intros simp: TargetStatus_DeepCopyInto_def copy_chain)

definition deep_session_status :: "('x cell, go_session_status, backup_session_status) reading" where
  "deep_session_status = deep_struct (\<lambda>s. (gss_StartTime s, gss_Targets s))
     (\<lambda>s (t, ts). \<lparr>bst_SessionState = gss_SessionState s, bst_StartTime = t, bst_Targets = ts, bst_Keep = gss_Keep s\<rparr>)
     (deep_pair deep_time (deep_slice TargetStatus_kind deep_target_status))"

lemma BackupSessionStatus_copier [copier_intros]:
  "foreign_laws F G \<Longrightarrow> copier deep_session_status (BackupSessionStatus_DeepCopyInto F)"
  unfolding deep_session_status_def
  by (rule copier_struct [where put = "\<lambda>s (t, ts). s\<lparr>gss_StartTime := t, gss_Targets := ts\<rparr>"])
    (auto intro!: copier_intros simp: BackupSessionStatus_DeepCopyInto_def copy_chain)

definition deep_session_ref :: "('x cell, go_session_ref, backup_session_ref) reading" where
  "deep_session_ref = deep_struct gsr_Status (\<lambda>s t. \<lparr>bsr_Spec = gsr_Spec s, bsr_Status = t\<rparr>) deep_session_status"

lemma BackupSessionRef_copier [copier_intros]:
  "foreign_laws F G \<Longrightarrow> copier deep_session_ref (BackupSessionRef_DeepCopyInto F)"
  unfolding deep_session_ref_def
  by (rule copier_struct [where put = "\<lambda>s t. s\<lparr>gsr_Status := t\<rparr>"])
    (auto intro!: copier_intros simp: BackupSessionRef_DeepCopyInto_def)

definition deep_restore_spec :: "('x cell, go_restore_spec, restore_session_spec) reading" where
  "deep_restore_spec = deep_struct grs_BackupSessionRef (\<lambda>_ r. \<lparr>rss_BackupSessionRef = r\<rparr>) deep_session_ref"

lemma RestoreSessionSpec_copier [copier_intros]:
  "foreign_laws F G \<Longrightarrow> copier deep_restore_spec (RestoreSessionSpec_DeepCopyInto F)"
  unfolding deep_restore_spec_def
  by (rule copier_struct [where put = "\<lambda>s r. s\<lparr>grs_BackupSessionRef := r\<rparr>"])
    (auto intro!: copier_intros simp: RestoreSessionSpec_DeepCopyInto_def)

definition deep_restore_status :: "('x cell, go_restore_status, restore_session_status) reading" where
  "deep_restore_status = deep_struct (\<lambda>s. (grt_StartTime s, grt_Targets s))
     (\<lambda>s (t, ts). \<lparr>rst_SessionState = grt_SessionState s, rst_StartTime = t, rst_Targets = ts\<rparr>)
     (deep_pair deep_time (deep_slice TargetStatus_kind deep_target_status))"

lemma RestoreSessionStatus_copier [copier_intros]:
  "foreign_laws F G \<Longrightarrow> copier deep_restore_status (RestoreSessionStatus_DeepCopyInto F)"
  unfolding deep_restore_status_def
  by (rule copier_struct [where put = "\<lambda>s (t, ts). s\<lparr>grt_StartTime := t, grt_Targets := ts\<rparr>"])
    (auto intro!: copier_intros simp: RestoreSessionStatus_DeepCopyInto_def copy_chain)

definition deep_local :: "('x, 'l) contents \<Rightarrow> ('x cell, 'x go_local, volume_source) reading" where
  "deep_local G = deep_struct glo_VolumeSource (\<lambda>_ v. v) (volume_source G)"

lemma Local_copier [copier_intros]: "foreign_laws F G \<Longrightarrow> copier (deep_local G) (Local_DeepCopyInto F)"
  unfolding deep_local_def
  by (rule copier_struct [where put = "\<lambda>l v. l\<lparr>glo_VolumeSource := v\<rparr>"])
    (auto intro!: copier_intros simp: Local_DeepCopyInto_def)

definition deep_backend :: "('x, 'l) contents \<Rightarrow> ('x cell, go_backend, repo_backend) reading" where
  "deep_backend G = deep_struct (\<lambda>b. (gbe_S3 b, gbe_Local b)) (\<lambda>_ (s, l). \<lparr>be_S3 = s, be_Local = l\<rparr>)
     (deep_pair (deep_ptr S3_kind deep_plain) (deep_ptr Local_kind (deep_local G)))"

lemma Backend_copier [copier_intros]: "foreign_laws F G \<Longrightarrow> copier (deep_backend G) (Backend_DeepCopyInto F)"
  unfolding deep_backend_def
  by (rule copier_struct [where put = "\<lambda>b (s, l). b\<lparr>gbe_S3 := s, gbe_Local := l\<rparr>"])
    (auto intro!: copier_intros simp: Backend_DeepCopyInto_def copy_chain)

definition deep_repo_spec :: "('x, 'l) contents \<Rightarrow> ('x cell, go_repo_spec, repo_backend \<times> string) reading" where
  "deep_repo_spec G = deep_struct grp_Backend (\<lambda>s b. (b, grp_RepositorySecrets s)) (deep_backend G)"

lemma RepoSpec_copier [copier_intros]: "foreign_laws F G \<Longrightarrow> copier (deep_repo_spec G) (RepoSpec_DeepCopyInto F)"
  unfolding deep_repo_spec_def
  by (rule copier_struct [where put = "\<lambda>s b. s\<lparr>grp_Backend := b\<rparr>"])
    (auto intro!: copier_intros simp: RepoSpec_DeepCopyInto_def)

text \<open>The contents of an object are its type and its record.\<close>

definition deep_object :: "('x, 'l) contents \<Rightarrow> (obj_meta \<Rightarrow> 'u \<Rightarrow> 'v \<Rightarrow> 'o) \<Rightarrow> ('x cell, 's, 'u) reading \<Rightarrow>
    ('x cell, 't, 'v) reading \<Rightarrow> ('x cell, ('x, 's, 't) go_object, type_meta \<times> 'o) reading" where
  "deep_object G mk S T = deep_struct (\<lambda>x. (gob_ObjectMeta x, gob_Spec x, gob_Status x))
     (\<lambda>x (m, s, t). (gob_TypeMeta x, mk m s t)) (deep_pair (object_meta G) (deep_pair S T))"

lemma object_copier:
  assumes "foreign_laws F G" "copier S spec" "copier T status"
  shows "copier (deep_object G mk S T) (object_DeepCopyInto F spec status)"
  unfolding deep_object_def
  by (rule copier_struct [where put = "\<lambda>x (m, s, t). x\<lparr>gob_ObjectMeta := m, gob_Spec := s, gob_Status := t\<rparr>"])
    (auto intro!: copier_intros assms simp: object_DeepCopyInto_def copy_chain)

definition deep_list :: "('x, 'l) contents \<Rightarrow> ('x cell, 'a) kind \<Rightarrow> ('x cell, 'a, 'v) reading \<Rightarrow>
    ('x cell, 'x go_list, type_meta \<times> 'l \<times> 'v list) reading" where
  "deep_list G K R = deep_struct (\<lambda>l. (gli_ListMeta l, gli_Items l)) (\<lambda>l (m, xs). (gli_TypeMeta l, m, xs))
     (deep_pair (list_meta G) (deep_slice K R))"

lemma list_copier:
  assumes "foreign_laws F G" "kind_ok K" "copier R item"
  shows "copier (deep_list G K R) (list_DeepCopyInto F K item)"
  unfolding deep_list_def
  by (rule copier_struct [where put = "\<lambda>l (m, xs). l\<lparr>gli_ListMeta := m, gli_Items := xs\<rparr>"])
    (auto intro!: copier_intros assms simp: list_DeepCopyInto_def copy_chain)

definition deep_configuration :: "('x, 'l) contents \<Rightarrow> ('x cell, 'x go_configuration, type_meta \<times> backup_configuration) reading" where
  "deep_configuration G = deep_object G (\<lambda>m s t. \<lparr>bc_Meta = m, bc_Spec = s, bc_Status = t\<rparr>)
     deep_configuration_spec deep_configuration_status"

definition deep_session :: "('x, 'l) contents \<Rightarrow> ('x cell, 'x go_session, type_meta \<times> backup_session) reading" where
  "deep_session G = deep_object G (\<lambda>m s t. \<lparr>bs_Meta = m, bs_Spec = s, bs_Status = t\<rparr>) deep_plain deep_session_status"

definition deep_restore :: "('x, 'l) contents \<Rightarrow> ('x cell, 'x go_restore, type_meta \<times> restore_session) reading" where
  "deep_restore G = deep_object G (\<lambda>m s t. \<lparr>rs_Meta = m, rs_Spec = s, rs_Status = t\<rparr>) deep_restore_spec deep_restore_status"

definition deep_repo :: "('x, 'l) contents \<Rightarrow> ('x cell, 'x go_repo, type_meta \<times> repo) reading" where
  "deep_repo G = deep_object G (\<lambda>m (b, secrets) _. \<lparr>rp_Meta = m, rp_Backend = b, rp_RepositorySecrets = secrets\<rparr>)
     (deep_repo_spec G) deep_plain"

definition deep_function :: "('x, 'l) contents \<Rightarrow> ('x cell, 'x go_function, type_meta \<times> formol_function) reading" where
  "deep_function G = deep_object G (\<lambda>m s _. \<lparr>fn_Meta = m, fn_Spec = s\<rparr>) (pod_container G) deep_plain"

lemma object_copiers [copier_intros]:
  assumes "foreign_laws F G"
  shows "copier (deep_configuration G) (BackupConfiguration_DeepCopyInto F)"
    "copier (deep_session G) (BackupSession_DeepCopyInto F)"
    "copier (deep_restore G) (RestoreSession_DeepCopyInto F)"
    "copier (deep_repo G) (Repo_DeepCopyInto F)"
    "copier (deep_function G) (Function_DeepCopyInto F)"
  using assms
  by (auto intro!: object_copier copier_intros simp: deep_configuration_def BackupConfiguration_DeepCopyInto_def
      deep_session_def BackupSession_DeepCopyInto_def deep_restore_def RestoreSession_DeepCopyInto_def
      deep_repo_def Repo_DeepCopyInto_def deep_function_def Function_DeepCopyInto_def)

lemma list_copiers [copier_intros]:
  assumes "foreign_laws F G"
  shows "copier (deep_list G BackupConfiguration_kind (deep_configuration G)) (BackupConfigurationList_DeepCopyInto F)"
    "copier (deep_list G BackupSession_kind (deep_session G)) (BackupSessionList_DeepCopyInto F)"
    "copier (deep_list G RestoreSession_kind (deep_restore G)) (RestoreSessionList_DeepCopyInto F)"
    "copier (deep_list G Repo_kind (deep_repo G)) (RepoList_DeepCopyInto F)"
    "copier (deep_list G Function_kind (deep_function G)) (FunctionList_DeepCopyInto F)"
  using assms
  by (auto intro!: list_copier copier_intros simp: BackupConfigurationList_DeepCopyInto_def BackupSessionList_DeepCopyInto_def
      RestoreSessionList_DeepCopyInto_def RepoList_DeepCopyInto_def FunctionList_DeepCopyInto_def)

subsection \<open>Properties\<close>

text \<open>
  C20: deep copies share nothing. If the methods of the other packages do, then \<open>DeepCopy\<close> of each of
  the ten kinds of objects and lists returns, changes no cell of the memory, and answers nil for nil
  and otherwise a pointer to an object with the same contents, all of whose cells are new.
\<close>

theorem deep_copies_share_nothing:
  assumes "foreign_laws F G"
  shows "copier (deep_ptr BackupConfiguration_kind (deep_configuration G)) (BackupConfiguration_DeepCopy F) \<and>
    copier (deep_ptr BackupSession_kind (deep_session G)) (BackupSession_DeepCopy F) \<and>
    copier (deep_ptr RestoreSession_kind (deep_restore G)) (RestoreSession_DeepCopy F) \<and>
    copier (deep_ptr Repo_kind (deep_repo G)) (Repo_DeepCopy F) \<and>
    copier (deep_ptr Function_kind (deep_function G)) (Function_DeepCopy F) \<and>
    copier (deep_ptr BackupConfigurationList_kind (deep_list G BackupConfiguration_kind (deep_configuration G)))
      (BackupConfigurationList_DeepCopy F) \<and>
    copier (deep_ptr BackupSessionList_kind (deep_list G BackupSession_kind (deep_session G))) (BackupSessionList_DeepCopy F) \<and>
    copier (deep_ptr RestoreSessionList_kind (deep_list G RestoreSession_kind (deep_restore G))) (RestoreSessionList_DeepCopy F) \<and>
    copier (deep_ptr RepoList_kind (deep_list G Repo_kind (deep_repo G))) (RepoList_DeepCopy F) \<and>
    copier (deep_ptr FunctionList_kind (deep_list G Function_kind (deep_function G))) (FunctionList_DeepCopy F)"
  using assms
  by (auto intro!: copier_intros simp: BackupConfiguration_DeepCopy_def BackupSession_DeepCopy_def
      RestoreSession_DeepCopy_def Repo_DeepCopy_def Function_DeepCopy_def BackupConfigurationList_DeepCopy_def
      BackupSessionList_DeepCopy_def RestoreSessionList_DeepCopy_def RepoList_DeepCopy_def FunctionList_DeepCopy_def)

text \<open>Structs of other packages without pointers, in one type.\<close>

datatype plain_struct = PMeta obj_meta | PList string | PSource volume_source | PContainer container

definition sample_foreign :: "plain_struct foreign" where
  "sample_foreign = \<lparr>ObjectMeta_DeepCopyInto = ret, ListMeta_DeepCopyInto = ret, VolumeSource_DeepCopyInto = ret,
     Container_DeepCopyInto = ret, Time_DeepCopy = copy_ptr Time_kind ret\<rparr>"

definition sample_contents :: "(plain_struct, string) contents" where
  "sample_contents = \<lparr>
     object_meta = (\<lambda>_ x. case x of PMeta v \<Rightarrow> Some (v, []) | _ \<Rightarrow> None),
     list_meta = (\<lambda>_ x. case x of PList v \<Rightarrow> Some (v, []) | _ \<Rightarrow> None),
     volume_source = (\<lambda>_ x. case x of PSource v \<Rightarrow> Some (v, []) | _ \<Rightarrow> None),
     pod_container = (\<lambda>_ x. case x of PContainer v \<Rightarrow> Some (v, []) | _ \<Rightarrow> None)\<rparr>"

lemma copier_of_plain:
  assumes "\<And>m x v as. R m x = Some (v, as) \<Longrightarrow> as = []" "\<And>m m' x. R m x = R m' x"
  shows "copier R ret"
proof (rule copierI)
  show "reading R"
  proof (rule readingI)
    fix m m' x v as
    assume "R m x = Some (v, as)"
    with assms(1) [OF this] assms(2) [of m x m']
    show "set as \<subseteq> dom (mem_Cells m) \<and> ((\<forall>a \<in> set as. mem_Cells m' a = mem_Cells m a) \<longrightarrow> R m' x = Some (v, as))" by simp
  qed
qed (use assms(1) in \<open>fastforce simp: ret_run grows_refl\<close>)

lemma sample_foreign_laws: "foreign_laws sample_foreign sample_contents"
proof -
  have "copier deep_time (copy_ptr Time_kind ret)" unfolding deep_time_def by (intro copier_intros)
  then show ?thesis
    by (auto simp: foreign_laws_def sample_foreign_def sample_contents_def intro!: copier_of_plain
        split: plain_struct.splits)
qed

theorem deep_copies_share_nothing_witness:
  "copier (deep_ptr BackupSessionList_kind (deep_list sample_contents BackupSession_kind (deep_session sample_contents)))
    (BackupSessionList_DeepCopy sample_foreign)"
  using deep_copies_share_nothing [OF sample_foreign_laws] by blast

text \<open>
  C21: edits of a copied session stay in it. \<open>DeepCopyObject\<close> of a pointer to a session, for instance to an
  element of a cached list, answers a pointer to a session of the same contents, times and targets
  included. Whatever is written later to any of the cells that are new, the original keeps its
  contents; and whatever is written to the cells that were there before, the copy keeps them.
\<close>

theorem edits_of_a_copied_session_stay_in_it:
  assumes "foreign_laws F G" and "wf_memory m"
    and "deep_ptr BackupSession_kind (deep_session G) m (Some p) = Some (Some (t, s), as)"
  shows "\<exists>q m' bs. BackupSession_DeepCopyObject F (Some p) m = (Ret (Some (ROBackupSession q)), m') \<and>
    deep_ptr BackupSession_kind (deep_session G) m' (Some q) = Some (Some (t, s), bs) \<and>
    (\<forall>m''. (\<forall>a. a \<in> dom (mem_Cells m) \<longrightarrow> mem_Cells m'' a = mem_Cells m' a) \<longrightarrow>
      deep_ptr BackupSession_kind (deep_session G) m'' (Some p) = Some (Some (t, s), as)) \<and>
    (\<forall>m''. (\<forall>a. a \<notin> dom (mem_Cells m) \<longrightarrow> mem_Cells m'' a = mem_Cells m' a) \<longrightarrow>
      deep_ptr BackupSession_kind (deep_session G) m'' (Some q) = Some (Some (t, s), bs))"
proof -
  have "copier (deep_ptr BackupSession_kind (deep_session G)) (BackupSession_DeepCopy F)"
    using assms(1) by (auto intro!: copier_intros simp: BackupSession_DeepCopy_def)
  from copier.independent [OF this assms(2,3)]
  obtain y bs m' where y: "BackupSession_DeepCopy F (Some p) m = (Ret y, m')"
    "deep_ptr BackupSession_kind (deep_session G) m' y = Some (Some (t, s), bs)"
    "\<And>m''. \<forall>a. a \<notin> dom (mem_Cells m) \<longrightarrow> mem_Cells m'' a = mem_Cells m' a \<Longrightarrow>
      deep_ptr BackupSession_kind (deep_session G) m'' y = Some (Some (t, s), bs)"
    "\<And>m''. \<forall>a. a \<in> dom (mem_Cells m) \<longrightarrow> mem_Cells m'' a = mem_Cells m' a \<Longrightarrow>
      deep_ptr BackupSession_kind (deep_session G) m'' (Some p) = Some (Some (t, s), as)"
    by blast
  from y(2) obtain q where q: "y = Some q" by (cases y) (auto simp: deep_ptr_def)
  have "BackupSession_DeepCopyObject F (Some p) m = (Ret (Some (ROBackupSession q)), m')"
    by (simp add: BackupSession_DeepCopyObject_def copy_object_def bind_go_run y(1) q ret_run)
  with y(2-4) show ?thesis unfolding q by blast
qed

text \<open>A running session with one target, both started at the time in cell 0; cells from 3 on are free.\<close>

definition cached_session :: "plain_struct go_session" where
  "cached_session = \<lparr>gob_TypeMeta = (''BackupSession'', ''v1alpha1''), gob_ObjectMeta = PMeta (named_meta ''demo'' ''bs''),
     gob_Spec = \<lparr>bss_Ref = (''demo'', ''backup-demo'')\<rparr>,
     gob_Status = \<lparr>gss_SessionState = Running, gss_StartTime = Some (0, 0),
       gss_Targets = Some \<lparr>sl_Array = 1, sl_From = 0, sl_Len = 1\<rparr>, gss_Keep = ''''\<rparr>\<rparr>"

definition session_cache :: "plain_struct cell memory" where
  "session_cache = \<lparr>mem_Cells = [0 \<mapsto> CTimes [zero_time],
     1 \<mapsto> CStatuses [\<lparr>gts_BackupType = OnlineKind, gts_TargetName = ''apache'', gts_TargetKind = Deployment,
       gts_SessionState = Running, gts_SnapshotId = '''', gts_StartTime = Some (0, 0), gts_Duration = None, gts_Try = 1\<rparr>],
     2 \<mapsto> CSessions [cached_session]], mem_Next = 3\<rparr>"

definition cached_value :: backup_session where
  "cached_value = \<lparr>bs_Meta = named_meta ''demo'' ''bs'', bs_Spec = \<lparr>bss_Ref = (''demo'', ''backup-demo'')\<rparr>,
     bs_Status = \<lparr>bst_SessionState = Running, bst_StartTime = Some zero_time,
       bst_Targets = [\<lparr>ts_BackupType = OnlineKind, ts_TargetName = ''apache'', ts_TargetKind = Deployment,
         ts_SessionState = Running, ts_SnapshotId = '''', ts_StartTime = Some zero_time, ts_Duration = None, ts_Try = 1\<rparr>],
       bst_Keep = ''''\<rparr>\<rparr>"

lemma cached_contents:
  "deep_ptr BackupSession_kind (deep_session sample_contents) session_cache (Some (2, 0)) =
     Some (Some ((''BackupSession'', ''v1alpha1''), cached_value), [2, 0, 1, 0])"
  by (simp add: deep_ptr_def deref_def array_at_def session_cache_def kind_defs deep_session_def deep_object_def
      deep_struct_def deep_pair_def cached_session_def sample_contents_def deep_plain_def deep_session_status_def
      deep_time_def deep_slice_def slice_items_def deep_target_status_def cached_value_def)

text \<open>The targets of the original are overwritten after the copy, which still has them.\<close>

theorem edits_of_a_copied_session_stay_in_it_witness:
  "\<exists>q m' bs. BackupSession_DeepCopyObject sample_foreign (Some (2, 0)) session_cache = (Ret (Some (ROBackupSession q)), m') \<and>
    deep_ptr BackupSession_kind (deep_session sample_contents) (m'\<lparr>mem_Cells := (mem_Cells m')(1 \<mapsto> CStatuses [])\<rparr>) (Some q) =
      Some (Some ((''BackupSession'', ''v1alpha1''), cached_value), bs)"
proof -
  have wf: "wf_memory session_cache" by (auto simp: wf_memory_def session_cache_def)
  have cell: "(1::nat) \<in> dom (mem_Cells session_cache)" by (simp add: session_cache_def)
  obtain q m' bs where q: "BackupSession_DeepCopyObject sample_foreign (Some (2, 0)) session_cache = (Ret (Some (ROBackupSession q)), m')"
    "\<forall>m''. (\<forall>a. a \<notin> dom (mem_Cells session_cache) \<longrightarrow> mem_Cells m'' a = mem_Cells m' a) \<longrightarrow>
      deep_ptr BackupSession_kind (deep_session sample_contents) m'' (Some q) =
        Some (Some ((''BackupSession'', ''v1alpha1''), cached_value), bs)"
    using edits_of_a_copied_session_stay_in_it [OF sample_foreign_laws wf cached_contents] by blast
  have "deep_ptr BackupSession_kind (deep_session sample_contents) (m'\<lparr>mem_Cells := (mem_Cells m')(1 \<mapsto> CStatuses [])\<rparr>) (Some q) =
      Some (Some ((''BackupSession'', ''v1alpha1''), cached_value), bs)"
    using cell by (intro q(2) [rule_format]) auto
  with q(1) show ?thesis by blast
qed

end
