(* ===== verification/Scheme.thy ===== *)
theory Scheme
  imports Client
begin

section \<open>The scheme: which kinds the client knows (groupversion_info.go, the init functions)\<close>

text \<open>
  The client of the controllers can only read and write objects whose Go type is registered in the
  manager's scheme, under a group, a version and a kind. The file of each type of the API
  registers it with \<open>SchemeBuilder\<close> in an \<open>init\<close> function, and that of \<open>main.go\<close> adds client-go's
  types and the builder's to the scheme. The scheme and the builder are of apimachinery and
  controller-runtime: the record \<open>scheme_lib\<close>, with \<open>scheme_laws\<close> for what is documented.
\<close>

subsection \<open>Kinds\<close>

text \<open>The types of the API that implement \<open>runtime.Object\<close>.\<close>

datatype object_type = BackupConfigurationType | BackupConfigurationListType | BackupSessionType
  | BackupSessionListType | FunctionType | FunctionListType | RepoType | RepoListType
  | RestoreSessionType | RestoreSessionListType

instantiation object_type :: enum
begin

definition enum_object_type :: "object_type list" where
  "enum_object_type = [BackupConfigurationType, BackupConfigurationListType, BackupSessionType,
     BackupSessionListType, FunctionType, FunctionListType, RepoType, RepoListType,
     RestoreSessionType, RestoreSessionListType]"

definition enum_all_object_type :: "(object_type \<Rightarrow> bool) \<Rightarrow> bool" where
  "enum_all_object_type P = list_all P enum_class.enum"

definition enum_ex_object_type :: "(object_type \<Rightarrow> bool) \<Rightarrow> bool" where
  "enum_ex_object_type P = list_ex P enum_class.enum"

instance
proof
  show all: "UNIV = set (enum_class.enum :: object_type list)"
  proof (rule set_eqI)
    fix t :: object_type
    show "t \<in> UNIV \<longleftrightarrow> t \<in> set enum_class.enum" by (cases t) (simp_all add: enum_object_type_def)
  qed
  show "distinct (enum_class.enum :: object_type list)" by (simp add: enum_object_type_def)
  show "enum_class.enum_all P = Ball UNIV P" for P :: "object_type \<Rightarrow> bool"
    unfolding all by (simp add: enum_all_object_type_def list_all_iff)
  show "enum_class.enum_ex P = Bex UNIV P" for P :: "object_type \<Rightarrow> bool"
    unfolding all by (simp add: enum_ex_object_type_def list_ex_iff)
qed

end

text \<open>The kind under which a Go type is registered is its name.\<close>

fun type_name :: "object_type \<Rightarrow> string" where
  "type_name BackupConfigurationType = ''BackupConfiguration''"
| "type_name BackupConfigurationListType = ''BackupConfigurationList''"
| "type_name BackupSessionType = ''BackupSession''"
| "type_name BackupSessionListType = ''BackupSessionList''"
| "type_name FunctionType = ''Function''"
| "type_name FunctionListType = ''FunctionList''"
| "type_name RepoType = ''Repo''"
| "type_name RepoListType = ''RepoList''"
| "type_name RestoreSessionType = ''RestoreSession''"
| "type_name RestoreSessionListType = ''RestoreSessionList''"

record group_version =
  gv_Group :: string
  gv_Version :: string

type_synonym kind_name = "group_version \<times> string"

subsection \<open>Registration\<close>

record ('b, 's) scheme_lib =
  NewBuilder :: "group_version \<Rightarrow> 'b"      \<comment> \<open>\<open>\&scheme.Builder{GroupVersion: ...}\<close>\<close>
  Register :: "object_type list \<Rightarrow> 'b \<Rightarrow> 'b"
  BuilderAddToScheme :: "'b \<Rightarrow> ('s, unit) answer"
  ClientGoAddToScheme :: "('s, unit) answer"

definition GroupVersion :: group_version where
  "GroupVersion = \<lparr>gv_Group = ''formol.desmojim.fr'', gv_Version = ''v1alpha1''\<rparr>"

definition SchemeBuilder :: "('b, 's) scheme_lib \<Rightarrow> 'b" where
  "SchemeBuilder B = NewBuilder B GroupVersion"

text \<open>The \<open>init\<close> functions of the five files, which the compiler calls in the order of their names.\<close>

definition init_BackupConfiguration :: "('b, 's) scheme_lib \<Rightarrow> 'b \<Rightarrow> 'b" where
  "init_BackupConfiguration B = Register B [BackupConfigurationType, BackupConfigurationListType]"

definition init_BackupSession :: "('b, 's) scheme_lib \<Rightarrow> 'b \<Rightarrow> 'b" where
  "init_BackupSession B = Register B [BackupSessionType, BackupSessionListType]"

definition init_Function :: "('b, 's) scheme_lib \<Rightarrow> 'b \<Rightarrow> 'b" where
  "init_Function B = Register B [FunctionType, FunctionListType]"

definition init_Repo :: "('b, 's) scheme_lib \<Rightarrow> 'b \<Rightarrow> 'b" where
  "init_Repo B = Register B [RepoType, RepoListType]"

definition init_RestoreSession :: "('b, 's) scheme_lib \<Rightarrow> 'b \<Rightarrow> 'b" where
  "init_RestoreSession B = Register B [RestoreSessionType, RestoreSessionListType]"

definition registered :: "('b, 's) scheme_lib \<Rightarrow> 'b" where
  "registered B = init_RestoreSession B (init_Repo B (init_Function B (init_BackupSession B
     (init_BackupConfiguration B (SchemeBuilder B)))))"

definition AddToScheme :: "('b, 's) scheme_lib \<Rightarrow> ('s, unit) answer" where
  "AddToScheme B = BuilderAddToScheme B (registered B)"

text \<open>\<open>utilruntime.Must\<close> panics on an error.\<close>

definition Must :: "('w, unit) go \<Rightarrow> ('w, unit) go" where
  "Must m = bind_go (try_go m) (\<lambda>r. case r of Inl _ \<Rightarrow> panic | Inr _ \<Rightarrow> ret ())"

definition init_main :: "('b, 's) scheme_lib \<Rightarrow> ('s, unit) go" where
  "init_main B = bind_go (Must (call (ClientGoAddToScheme B))) (\<lambda>_. Must (call (AddToScheme B)))"

subsection \<open>What is relied on\<close>

text \<open>The kinds of client-go that the controllers use, by package.\<close>

definition apps_v1 :: group_version where "apps_v1 = \<lparr>gv_Group = ''apps'', gv_Version = ''v1''\<rparr>"
definition batch_v1 :: group_version where "batch_v1 = \<lparr>gv_Group = ''batch'', gv_Version = ''v1''\<rparr>"
definition core_v1 :: group_version where "core_v1 = \<lparr>gv_Group = '''', gv_Version = ''v1''\<rparr>"
definition rbac_v1 :: group_version where
  "rbac_v1 = \<lparr>gv_Group = ''rbac.authorization.k8s.io'', gv_Version = ''v1''\<rparr>"

definition client_go_kinds :: "kind_name list" where
  "client_go_kinds = [(apps_v1, ''Deployment''), (apps_v1, ''StatefulSet''), (batch_v1, ''CronJob''),
     (batch_v1, ''Job''), (core_v1, ''ServiceAccount''), (rbac_v1, ''Role''), (rbac_v1, ''RoleBinding''),
     (rbac_v1, ''ClusterRole''), (rbac_v1, ''ClusterRoleBinding'')]"

text \<open>
  Documented behaviour, over what a builder and a scheme hold: \<open>Register\<close> adds to the builder,
  \<open>AddToScheme\<close> adds the builder's types to a scheme that has none of their kinds, and
  client-go adds its kinds, in groups that are its own.
\<close>

definition scheme_laws :: "('b, 's) scheme_lib \<Rightarrow> ('b \<Rightarrow> group_version \<times> object_type list) \<Rightarrow> ('s \<Rightarrow> kind_name set) \<Rightarrow> bool" where
  "scheme_laws B held known \<longleftrightarrow>
     (\<forall>gv. held (NewBuilder B gv) = (gv, [])) \<and>
     (\<forall>ts b. held (Register B ts b) = (fst (held b), snd (held b) @ ts)) \<and>
     (\<forall>b s. let new = Pair (fst (held b)) ` type_name ` set (snd (held b)) in
        new \<inter> known s = {} \<longrightarrow> (\<exists>s'. BuilderAddToScheme B b s = (Inr (), s') \<and> known s' = known s \<union> new)) \<and>
     (\<forall>s. known s = {} \<longrightarrow> (\<exists>s'. ClientGoAddToScheme B s = (Inr (), s') \<and> set client_go_kinds \<subseteq> known s' \<and>
        (\<forall>gv k. (gv, k) \<in> known s' \<longrightarrow> gv_Group gv \<noteq> ''formol.desmojim.fr'')))"

subsection \<open>Property\<close>

text \<open>The kind the client looks up for an object it is given.\<close>

fun kind_of :: "kobject \<Rightarrow> kind_name" where
  "kind_of (OBackupConfiguration _) = (GroupVersion, ''BackupConfiguration'')"
| "kind_of (OBackupSession _) = (GroupVersion, ''BackupSession'')"
| "kind_of (ORestoreSession _) = (GroupVersion, ''RestoreSession'')"
| "kind_of (OWorkload DeploymentWorkload _) = (apps_v1, ''Deployment'')"
| "kind_of (OWorkload StatefulSetWorkload _) = (apps_v1, ''StatefulSet'')"
| "kind_of (OCronJob _) = (batch_v1, ''CronJob'')"
| "kind_of (OJob _) = (batch_v1, ''Job'')"
| "kind_of (OServiceAccount _) = (core_v1, ''ServiceAccount'')"
| "kind_of (ORole _) = (rbac_v1, ''Role'')"
| "kind_of (ORoleBinding _) = (rbac_v1, ''RoleBinding'')"
| "kind_of (OClusterRole _) = (rbac_v1, ''ClusterRole'')"
| "kind_of (OClusterRoleBinding _) = (rbac_v1, ''ClusterRoleBinding'')"

definition api_types :: "object_type list" where
  "api_types = [BackupConfigurationType, BackupConfigurationListType, BackupSessionType, BackupSessionListType,
     FunctionType, FunctionListType, RepoType, RepoListType, RestoreSessionType, RestoreSessionListType]"

lemma held_registered:
  assumes "scheme_laws B held known"
  shows "held (registered B) = (GroupVersion, api_types)"
proof -
  have "held (NewBuilder B gv) = (gv, [])" "held (Register B ts b) = (fst (held b), snd (held b) @ ts)" for gv ts b
    using assms unfolding scheme_laws_def by blast+
  then show ?thesis
    by (simp add: registered_def init_RestoreSession_def init_Repo_def init_Function_def init_BackupSession_def
        init_BackupConfiguration_def SchemeBuilder_def api_types_def)
qed

lemma api_types_all: "set api_types = UNIV"
proof -
  have "\<forall>t. t \<in> set api_types" by code_simp
  then show ?thesis by blast
qed

lemma Must_ok: "call f w = (Ret (), w') \<Longrightarrow> Must (call f) w = (Ret (), w')"
  by (simp add: Must_def bind_go_run try_go_run ret_run)

text \<open>
  the client knows every kind it is asked for. The start of the process does not panic, and the
  scheme it leaves has the kind of every object the controllers create, update or delete, and of all
  ten types of the API, the lists among them: no call of a controller fails because a kind is not
  registered.
\<close>

theorem scheme_knows_every_kind:
  assumes laws: "scheme_laws B held known" and empty: "known s = {}"
  shows "\<exists>s'. init_main B s = (Ret (), s') \<and> (\<forall>x. kind_of x \<in> known s') \<and>
    (\<forall>t. (GroupVersion, type_name t) \<in> known s')"
proof -
  obtain s1 where s1: "ClientGoAddToScheme B s = (Inr (), s1)" "set client_go_kinds \<subseteq> known s1"
    "\<And>gv k. (gv, k) \<in> known s1 \<Longrightarrow> gv_Group gv \<noteq> ''formol.desmojim.fr''"
    using laws empty unfolding scheme_laws_def by blast
  let ?new = "Pair GroupVersion ` type_name ` set api_types"
  have "?new \<inter> known s1 = {}" using s1(3) [of GroupVersion] by (auto simp: GroupVersion_def)
  then obtain s2 where r: "AddToScheme B s1 = (Inr (), s2)" "known s2 = known s1 \<union> ?new"
    using laws held_registered [OF laws] unfolding scheme_laws_def Let_def AddToScheme_def by (metis fst_conv snd_conv)
  have types: "(GroupVersion, type_name t) \<in> known s2" for t
    using r(2) api_types_all by auto
  have "kind_of x \<in> known s2" for x
  proof -
    have "kind_of x \<in> set client_go_kinds \<or> (\<exists>t. kind_of x = (GroupVersion, type_name t))"
    proof (cases x rule: kind_of.cases)
    qed (auto simp: client_go_kinds_def intro: exI [of _ BackupConfigurationType] exI [of _ BackupSessionType]
        exI [of _ RestoreSessionType])
    then show ?thesis using s1(2) r(2) types by (metis UnI1 subsetD)
  qed
  moreover have "init_main B s = (Ret (), s2)"
    using s1(1) r(1) by (simp add: init_main_def bind_go_run Must_ok call_run)
  ultimately show ?thesis using types by blast
qed

text \<open>A scheme that is a list of kinds, and a builder that is a list of types.\<close>

definition list_scheme :: "(group_version \<times> object_type list, kind_name list) scheme_lib" where
  "list_scheme = \<lparr>NewBuilder = (\<lambda>gv. (gv, [])), Register = (\<lambda>ts b. (fst b, snd b @ ts)),
     BuilderAddToScheme = (\<lambda>b s. let new = map (Pair (fst b) \<circ> type_name) (snd b) in
       if list_all (\<lambda>k. k \<notin> set s) new then (Inr (), s @ new) else (Inl (OtherError ''double registration''), s)),
     ClientGoAddToScheme = (\<lambda>s. (Inr (), s @ client_go_kinds))\<rparr>"

lemma list_scheme_laws: "scheme_laws list_scheme (\<lambda>b. b) set"
  unfolding scheme_laws_def
  by (auto simp: list_scheme_def Let_def list_all_iff client_go_kinds_def apps_v1_def batch_v1_def core_v1_def rbac_v1_def)

theorem scheme_knows_every_kind_witness:
  "\<exists>s'. init_main list_scheme [] = (Ret (), s') \<and> (GroupVersion, ''BackupSessionList'') \<in> set s' \<and>
     (rbac_v1, ''ClusterRole'') \<in> set s'"
proof -
  obtain s' where "init_main list_scheme [] = (Ret (), s')" "\<forall>x. kind_of x \<in> set s'"
    "\<forall>t. (GroupVersion, type_name t) \<in> set s'"
    using scheme_knows_every_kind [OF list_scheme_laws, of "[]"] by auto
  moreover have "(rbac_v1, ''ClusterRole'') = kind_of (OClusterRole x)"
    "(GroupVersion, ''BackupSessionList'') = (GroupVersion, type_name BackupSessionListType)" for x
    by simp_all
  ultimately show ?thesis by metis
qed

end
