(* ===== verification/Rbac.thy ===== *)
theory Rbac
  imports Cluster Samples
begin

section \<open>Access control of the sidecars (controllers/backupconfiguration_controller_helpers.go)\<close>

text \<open>
  \<open>deleteRBAC\<close>, \<open>createBSCreatorRBAC\<close> and \<open>createSidecarRBAC\<close>: service account, roles and
  bindings that let the sidecars and the cron job work. The functional properties are stated
  against a client that obeys \<open>client_laws\<close>, on the abstract cluster.
\<close>

definition FORMOL_BS_CREATOR_SA :: string where
  "FORMOL_BS_CREATOR_SA = ''bs-creator''"

definition FORMOL_BS_CREATOR_ROLE :: string where
  "FORMOL_BS_CREATOR_ROLE = ''formol:bs-creator-role''"

definition FORMOL_BS_CREATOR_ROLEBINDING :: string where
  "FORMOL_BS_CREATOR_ROLEBINDING = ''formol:bs-creator-rolebinding''"

definition FORMOL_SIDECAR_ROLE :: string where
  "FORMOL_SIDECAR_ROLE = ''formol:sidecar-role''"

definition FORMOL_SIDECAR_ROLEBINDING :: string where
  "FORMOL_SIDECAR_ROLEBINDING = ''formol:sidecar-rolebinding''"

definition FORMOL_SIDECAR_CLUSTERROLE :: string where
  "FORMOL_SIDECAR_CLUSTERROLE = ''formol:sidecar-clusterrole''"

definition FORMOL_SIDECAR_CLUSTERROLEBINDING :: string where
  "FORMOL_SIDECAR_CLUSTERROLEBINDING = ''formol:sidecar-clusterrolebinding''"

lemmas rbac_names = FORMOL_BS_CREATOR_SA_def FORMOL_BS_CREATOR_ROLE_def FORMOL_BS_CREATOR_ROLEBINDING_def
  FORMOL_SIDECAR_ROLE_def FORMOL_SIDECAR_ROLEBINDING_def FORMOL_SIDECAR_CLUSTERROLE_def
  FORMOL_SIDECAR_CLUSTERROLEBINDING_def

subsection \<open>Deletion\<close>

text \<open>\<open>if err := Get(...); err == nil { Delete }\<close>, with the deletion's error only logged.\<close>

definition delete_if_found :: "('w, 'a) go \<Rightarrow> ('a \<Rightarrow> ('w, unit) go) \<Rightarrow> ('w, unit) go" where
  "delete_if_found get del = bind_go (try_go get) (\<lambda>r. case r of
     Inl _ \<Rightarrow> ret () | Inr x \<Rightarrow> ignore_err (del x))"

definition deleteRBAC :: "'w api \<Rightarrow> string \<Rightarrow> ('w, unit) go" where
  "deleteRBAC A ns =
     bind_go (for_each (\<lambda>n. delete_if_found (call (api_RoleBinding A (ns, n)))
                (\<lambda>x. call (api_Delete A (ORoleBinding x))))
              [FORMOL_BS_CREATOR_ROLEBINDING, FORMOL_SIDECAR_ROLEBINDING]) (\<lambda>_.
     bind_go (for_each (\<lambda>n. delete_if_found (call (api_Role A (ns, n)))
                (\<lambda>x. call (api_Delete A (ORole x))))
              [FORMOL_BS_CREATOR_ROLE, FORMOL_SIDECAR_ROLE]) (\<lambda>_.
     bind_go (delete_if_found (call (api_ServiceAccount A (ns, FORMOL_BS_CREATOR_SA)))
                (\<lambda>x. call (api_Delete A (OServiceAccount x)))) (\<lambda>_.
     bind_go (delete_if_found (call (api_ClusterRoleBinding A (ns, FORMOL_SIDECAR_CLUSTERROLEBINDING)))
                (\<lambda>x. call (api_Delete A (OClusterRoleBinding x)))) (\<lambda>_.
     bind_go (delete_if_found (call (api_ClusterRole A (ns, FORMOL_SIDECAR_CLUSTERROLE)))
                (\<lambda>x. call (api_Delete A (OClusterRole x)))) (\<lambda>_. ret ())))))"

subsection \<open>Creation\<close>

text \<open>
  \<open>if err := Get(...); errors.IsNotFound(err) { Create }\<close>: any other error of the read is
  ignored, an error of the creation is returned.
\<close>

definition create_if_missing :: "'w api \<Rightarrow> ('w, 'a) go \<Rightarrow> kobject \<Rightarrow> ('w, unit) go" where
  "create_if_missing A get x = bind_go (try_go get) (\<lambda>r. case r of
     Inl e \<Rightarrow> if IsNotFound e then call (api_Create A x) else ret () | Inr _ \<Rightarrow> ret ())"

definition all_verbs :: "string list" where
  "all_verbs = [''get'', ''list'', ''watch'', ''create'', ''update'', ''patch'', ''delete'']"

definition bs_creator_role :: "string \<Rightarrow> role" where
  "bs_creator_role ns = \<lparr>ro_Meta = named_meta ns FORMOL_BS_CREATOR_ROLE,
     ro_Rules = [\<lparr>pr_Verbs = all_verbs, pr_APIGroups = [''formol.desmojim.fr''],
       pr_Resources = [''backupsessions'']\<rparr>]\<rparr>"

definition bs_creator_binding :: "string \<Rightarrow> role_binding" where
  "bs_creator_binding ns = \<lparr>rb_Meta = named_meta ns FORMOL_BS_CREATOR_ROLEBINDING,
     rb_Subjects = [\<lparr>sj_Kind = ''ServiceAccount'', sj_Name = FORMOL_BS_CREATOR_SA, sj_Namespace = ''''\<rparr>],
     rb_RoleRef = \<lparr>rr_APIGroup = ''rbac.authorization.k8s.io'', rr_Kind = ''Role'',
       rr_Name = FORMOL_BS_CREATOR_ROLE\<rparr>\<rparr>"

definition createBSCreatorRBAC :: "'w api \<Rightarrow> string \<Rightarrow> ('w, unit) go" where
  "createBSCreatorRBAC A ns =
     bind_go (create_if_missing A (call (api_ServiceAccount A (ns, FORMOL_BS_CREATOR_SA)))
       (OServiceAccount \<lparr>sa_Meta = named_meta ns FORMOL_BS_CREATOR_SA\<rparr>)) (\<lambda>_.
     bind_go (create_if_missing A (call (api_Role A (ns, FORMOL_BS_CREATOR_ROLE)))
       (ORole (bs_creator_role ns))) (\<lambda>_.
     create_if_missing A (call (api_RoleBinding A (ns, FORMOL_BS_CREATOR_ROLEBINDING)))
       (ORoleBinding (bs_creator_binding ns))))"

definition sidecar_role :: "string \<Rightarrow> role" where
  "sidecar_role ns = \<lparr>ro_Meta = named_meta ns FORMOL_SIDECAR_ROLE,
     ro_Rules = [
       \<lparr>pr_Verbs = [''get'', ''list'', ''watch'', ''update''], pr_APIGroups = [''apps''],
         pr_Resources = [''deployments'']\<rparr>,
       \<lparr>pr_Verbs = [''get'', ''list'', ''watch''], pr_APIGroups = [''formol.desmojim.fr''],
         pr_Resources = [''restoresessions'', ''backupsessions'', ''backupconfigurations'', ''functions'', ''repoes'']\<rparr>,
       \<lparr>pr_Verbs = all_verbs, pr_APIGroups = [''''], pr_Resources = [''persistentvolumeclaims'']\<rparr>,
       \<lparr>pr_Verbs = [''get'', ''list'', ''watch''], pr_APIGroups = [''''],
         pr_Resources = [''secrets'', ''configmaps'']\<rparr>,
       \<lparr>pr_Verbs = all_verbs, pr_APIGroups = [''batch''], pr_Resources = [''jobs'']\<rparr>,
       \<lparr>pr_Verbs = all_verbs, pr_APIGroups = [''formol.desmojim.fr''],
         pr_Resources = [''backupsessions/status'']\<rparr>,
       \<lparr>pr_Verbs = all_verbs, pr_APIGroups = [''formol.desmojim.fr''],
         pr_Resources = [''restoresessions/status'']\<rparr>]\<rparr>"

definition sidecar_cluster_role :: role where
  "sidecar_cluster_role = \<lparr>ro_Meta = named_meta '''' FORMOL_SIDECAR_CLUSTERROLE,
     ro_Rules = [
       \<lparr>pr_Verbs = [''get'', ''list'', ''watch''], pr_APIGroups = ['''', ''snapshot.storage.k8s.io''],
         pr_Resources = [''volumesnapshotclasses'', ''persistentvolumes'']\<rparr>,
       \<lparr>pr_Verbs = all_verbs, pr_APIGroups = [''snapshot.storage.k8s.io''],
         pr_Resources = [''volumesnapshots'']\<rparr>]\<rparr>"

definition sidecar_subject :: "string \<Rightarrow> subject" where
  "sidecar_subject sa = \<lparr>sj_Kind = ''ServiceAccount'', sj_Name = sa, sj_Namespace = ''''\<rparr>"

definition sidecar_binding :: "string \<Rightarrow> string \<Rightarrow> role_binding" where
  "sidecar_binding ns sa = \<lparr>rb_Meta = named_meta ns FORMOL_SIDECAR_ROLEBINDING,
     rb_Subjects = [sidecar_subject sa],
     rb_RoleRef = \<lparr>rr_APIGroup = ''rbac.authorization.k8s.io'', rr_Kind = ''Role'',
       rr_Name = FORMOL_SIDECAR_ROLE\<rparr>\<rparr>"

definition sidecar_cluster_binding :: "string \<Rightarrow> string \<Rightarrow> role_binding" where
  "sidecar_cluster_binding ns sa = \<lparr>rb_Meta = named_meta '''' FORMOL_SIDECAR_CLUSTERROLEBINDING,
     rb_Subjects = [\<lparr>sj_Kind = ''ServiceAccount'', sj_Name = sa, sj_Namespace = ns\<rparr>],
     rb_RoleRef = \<lparr>rr_APIGroup = ''rbac.authorization.k8s.io'', rr_Kind = ''ClusterRole'',
       rr_Name = FORMOL_SIDECAR_CLUSTERROLE\<rparr>\<rparr>"

definition service_account_of :: "pod_spec \<Rightarrow> string" where
  "service_account_of podSpec =
     (if ps_ServiceAccountName podSpec = '''' then ''default'' else ps_ServiceAccountName podSpec)"

text \<open>
  The role binding is the one object that is changed when it exists: the account is appended to
  its subjects.
\<close>

definition bind_sidecar :: "'w api \<Rightarrow> string \<Rightarrow> string \<Rightarrow> ('w, unit) go" where
  "bind_sidecar A ns sa =
     bind_go (try_go (call (api_RoleBinding A (ns, FORMOL_SIDECAR_ROLEBINDING)))) (\<lambda>r. case r of
       Inl e \<Rightarrow> if IsNotFound e then call (api_Create A (ORoleBinding (sidecar_binding ns sa))) else fail e
     | Inr b \<Rightarrow> call (api_Update A (ORoleBinding (b\<lparr>rb_Subjects := rb_Subjects b @ [sidecar_subject sa]\<rparr>))))"

definition createSidecarRBAC :: "'w api \<Rightarrow> string \<Rightarrow> pod_spec \<Rightarrow> ('w, unit) go" where
  "createSidecarRBAC A ns podSpec =
    (let sa = service_account_of podSpec in
     bind_go (create_if_missing A (call (api_Role A (ns, FORMOL_SIDECAR_ROLE))) (ORole (sidecar_role ns))) (\<lambda>_.
     bind_go (bind_sidecar A ns sa) (\<lambda>_.
     bind_go (create_if_missing A (call (api_ClusterRole A ('''', FORMOL_SIDECAR_CLUSTERROLE)))
       (OClusterRole sidecar_cluster_role)) (\<lambda>_.
     create_if_missing A (call (api_ClusterRoleBinding A (ns, FORMOL_SIDECAR_CLUSTERROLEBINDING)))
       (OClusterRoleBinding (sidecar_cluster_binding ns sa))))))"

subsection \<open>The two patterns under the client's laws\<close>

lemma create_if_missing_run:
  assumes "client_laws A view" and "get w = (answer_of x, w)" and "exists_object obj (view w) \<longleftrightarrow> x \<noteq> None"
  shows "\<exists>w'. create_if_missing A (call get) obj w = (Ret (), w') \<and>
    view w' = (if x = None then put_object obj (view w) else view w)"
proof (cases x)
  case None
  with assms(2) have "try_go (call get) w = (Ret (Inl NotFound), w)" by (simp add: try_go_run call_run)
  with None assms(3) create_ok [OF assms(1), of obj w] show ?thesis
    by (simp add: create_if_missing_def bind_go_run)
next
  case (Some a)
  with assms(2) have "try_go (call get) w = (Ret (Inr a), w)" by (simp add: try_go_run call_run)
  with Some show ?thesis by (simp add: create_if_missing_def go_run)
qed

lemma delete_if_found_run:
  assumes "client_laws A view" and "get w = (answer_of x, w)" and "\<And>a. x = Some a \<Longrightarrow> exists_object (mk a) (view w)"
  shows "\<exists>w'. delete_if_found (call get) (\<lambda>a. call (api_Delete A (mk a))) w = (Ret (), w') \<and>
    view w' = (case x of None \<Rightarrow> view w | Some a \<Rightarrow> remove_object (mk a) (view w))"
proof (cases x)
  case None
  with assms(2) have "try_go (call get) w = (Ret (Inl NotFound), w)" by (simp add: try_go_run call_run)
  with None show ?thesis by (simp add: delete_if_found_def go_run)
next
  case (Some a)
  with assms(2) have "try_go (call get) w = (Ret (Inr a), w)" by (simp add: try_go_run call_run)
  moreover obtain w' where "call (api_Delete A (mk a)) w = (Ret (), w')" "view w' = remove_object (mk a) (view w)"
    using delete_ok [OF assms(1) assms(3) [OF Some]] by blast
  ultimately show ?thesis using Some by (simp add: delete_if_found_def bind_go_run ignore_err_run)
qed

subsection \<open>What the operations do to the cluster\<close>

definition add_missing :: "'k \<Rightarrow> 'v \<Rightarrow> ('k \<rightharpoonup> 'v) \<Rightarrow> ('k \<rightharpoonup> 'v)" where
  "add_missing k v m = (if m k = None then m(k \<mapsto> v) else m)"

definition with_bs_creator :: "string \<Rightarrow> cluster \<Rightarrow> cluster" where
  "with_bs_creator ns c = c\<lparr>
     cl_ServiceAccounts := add_missing (ns, FORMOL_BS_CREATOR_SA)
       \<lparr>sa_Meta = named_meta ns FORMOL_BS_CREATOR_SA\<rparr> (cl_ServiceAccounts c),
     cl_Roles := add_missing (ns, FORMOL_BS_CREATOR_ROLE) (bs_creator_role ns) (cl_Roles c),
     cl_RoleBindings := add_missing (ns, FORMOL_BS_CREATOR_ROLEBINDING) (bs_creator_binding ns) (cl_RoleBindings c)\<rparr>"

text \<open>Nothing of it is missing: adding it again changes nothing, and adding other things keeps it.\<close>

definition has_bs_creator :: "string \<Rightarrow> cluster \<Rightarrow> bool" where
  "has_bs_creator ns c \<longleftrightarrow> cl_ServiceAccounts c (ns, FORMOL_BS_CREATOR_SA) \<noteq> None \<and>
     cl_Roles c (ns, FORMOL_BS_CREATOR_ROLE) \<noteq> None \<and> cl_RoleBindings c (ns, FORMOL_BS_CREATOR_ROLEBINDING) \<noteq> None"

lemma has_with_bs_creator [simp]: "has_bs_creator ns (with_bs_creator ns c)"
  by (simp add: has_bs_creator_def with_bs_creator_def add_missing_def)

lemma with_bs_creator_same: "has_bs_creator ns c \<Longrightarrow> with_bs_creator ns c = c"
  by (auto simp: has_bs_creator_def with_bs_creator_def add_missing_def)

definition bound_sidecar :: "string \<Rightarrow> string \<Rightarrow> role_binding option \<Rightarrow> role_binding" where
  "bound_sidecar ns sa x = (case x of None \<Rightarrow> sidecar_binding ns sa
     | Some b \<Rightarrow> b\<lparr>rb_Subjects := rb_Subjects b @ [sidecar_subject sa]\<rparr>)"

definition with_sidecar_rbac :: "string \<Rightarrow> string \<Rightarrow> cluster \<Rightarrow> cluster" where
  "with_sidecar_rbac ns sa c = c\<lparr>
     cl_Roles := add_missing (ns, FORMOL_SIDECAR_ROLE) (sidecar_role ns) (cl_Roles c),
     cl_RoleBindings := (cl_RoleBindings c)((ns, FORMOL_SIDECAR_ROLEBINDING) \<mapsto>
       bound_sidecar ns sa (cl_RoleBindings c (ns, FORMOL_SIDECAR_ROLEBINDING))),
     cl_ClusterRoles := add_missing FORMOL_SIDECAR_CLUSTERROLE sidecar_cluster_role (cl_ClusterRoles c),
     cl_ClusterRoleBindings := add_missing FORMOL_SIDECAR_CLUSTERROLEBINDING (sidecar_cluster_binding ns sa)
       (cl_ClusterRoleBindings c)\<rparr>"

definition without_rbac :: "string \<Rightarrow> cluster \<Rightarrow> cluster" where
  "without_rbac ns c = c\<lparr>
     cl_ServiceAccounts := (cl_ServiceAccounts c)((ns, FORMOL_BS_CREATOR_SA) := None),
     cl_Roles := (cl_Roles c)((ns, FORMOL_BS_CREATOR_ROLE) := None, (ns, FORMOL_SIDECAR_ROLE) := None),
     cl_RoleBindings := (cl_RoleBindings c)((ns, FORMOL_BS_CREATOR_ROLEBINDING) := None,
       (ns, FORMOL_SIDECAR_ROLEBINDING) := None),
     cl_ClusterRoles := (cl_ClusterRoles c)(FORMOL_SIDECAR_CLUSTERROLE := None),
     cl_ClusterRoleBindings := (cl_ClusterRoleBindings c)(FORMOL_SIDECAR_CLUSTERROLEBINDING := None)\<rparr>"

lemma has_bs_creator_sidecar: "has_bs_creator ns c \<Longrightarrow> has_bs_creator ns (with_sidecar_rbac ns' sa c)"
  by (auto simp: has_bs_creator_def with_sidecar_rbac_def add_missing_def)

lemma meta_key_named [simp]: "meta_key (named_meta ns n) = (ns, n)" "om_Name (named_meta ns n) = n"
  by (simp_all add: meta_key_def named_meta_def)

text \<open>One lemma per kind of object.\<close>

lemma ensure_service_account:
  assumes laws: "client_laws A view" and key: "meta_key (sa_Meta x) = k"
  shows "\<exists>w'. create_if_missing A (call (api_ServiceAccount A k)) (OServiceAccount x) w = (Ret (), w') \<and>
    view w' = (view w)\<lparr>cl_ServiceAccounts := add_missing k x (cl_ServiceAccounts (view w))\<rparr>"
  using create_if_missing_run [OF laws, where get = "api_ServiceAccount A k" and w = w and obj = "OServiceAccount x"
      and x = "cl_ServiceAccounts (view w) k"] key
  by (auto simp: read_lawsD [OF laws] dom_def add_missing_def)

lemma ensure_role:
  assumes laws: "client_laws A view" and key: "meta_key (ro_Meta x) = k"
  shows "\<exists>w'. create_if_missing A (call (api_Role A k)) (ORole x) w = (Ret (), w') \<and>
    view w' = (view w)\<lparr>cl_Roles := add_missing k x (cl_Roles (view w))\<rparr>"
  using create_if_missing_run [OF laws, where get = "api_Role A k" and w = w and obj = "ORole x"
      and x = "cl_Roles (view w) k"] key
  by (auto simp: read_lawsD [OF laws] dom_def add_missing_def)

lemma ensure_role_binding:
  assumes laws: "client_laws A view" and key: "meta_key (rb_Meta x) = k"
  shows "\<exists>w'. create_if_missing A (call (api_RoleBinding A k)) (ORoleBinding x) w = (Ret (), w') \<and>
    view w' = (view w)\<lparr>cl_RoleBindings := add_missing k x (cl_RoleBindings (view w))\<rparr>"
  using create_if_missing_run [OF laws, where get = "api_RoleBinding A k" and w = w and obj = "ORoleBinding x"
      and x = "cl_RoleBindings (view w) k"] key
  by (auto simp: read_lawsD [OF laws] dom_def add_missing_def)

lemma ensure_cluster_role:
  assumes laws: "client_laws A view" and key: "om_Name (ro_Meta x) = snd k"
  shows "\<exists>w'. create_if_missing A (call (api_ClusterRole A k)) (OClusterRole x) w = (Ret (), w') \<and>
    view w' = (view w)\<lparr>cl_ClusterRoles := add_missing (snd k) x (cl_ClusterRoles (view w))\<rparr>"
  using create_if_missing_run [OF laws, where get = "api_ClusterRole A k" and w = w and obj = "OClusterRole x"
      and x = "cl_ClusterRoles (view w) (snd k)"] key
  by (auto simp: read_lawsD [OF laws] dom_def add_missing_def)

lemma ensure_cluster_role_binding:
  assumes laws: "client_laws A view" and key: "om_Name (rb_Meta x) = snd k"
  shows "\<exists>w'. create_if_missing A (call (api_ClusterRoleBinding A k)) (OClusterRoleBinding x) w = (Ret (), w') \<and>
    view w' = (view w)\<lparr>cl_ClusterRoleBindings := add_missing (snd k) x (cl_ClusterRoleBindings (view w))\<rparr>"
  using create_if_missing_run [OF laws, where get = "api_ClusterRoleBinding A k" and w = w and obj = "OClusterRoleBinding x"
      and x = "cl_ClusterRoleBindings (view w) (snd k)"] key
  by (auto simp: read_lawsD [OF laws] dom_def add_missing_def)

lemma createBSCreatorRBAC_run:
  assumes laws: "client_laws A view"
  shows "\<exists>w'. createBSCreatorRBAC A ns w = (Ret (), w') \<and> view w' = with_bs_creator ns (view w)"
proof -
  obtain w1 where w1: "create_if_missing A (call (api_ServiceAccount A (ns, FORMOL_BS_CREATOR_SA)))
      (OServiceAccount \<lparr>sa_Meta = named_meta ns FORMOL_BS_CREATOR_SA\<rparr>) w = (Ret (), w1)"
    "view w1 = (view w)\<lparr>cl_ServiceAccounts := add_missing (ns, FORMOL_BS_CREATOR_SA)
       \<lparr>sa_Meta = named_meta ns FORMOL_BS_CREATOR_SA\<rparr> (cl_ServiceAccounts (view w))\<rparr>"
    using ensure_service_account [OF laws, of "\<lparr>sa_Meta = named_meta ns FORMOL_BS_CREATOR_SA\<rparr>"]
    by fastforce
  obtain w2 where w2: "create_if_missing A (call (api_Role A (ns, FORMOL_BS_CREATOR_ROLE)))
      (ORole (bs_creator_role ns)) w1 = (Ret (), w2)"
    "view w2 = (view w1)\<lparr>cl_Roles := add_missing (ns, FORMOL_BS_CREATOR_ROLE) (bs_creator_role ns) (cl_Roles (view w1))\<rparr>"
    using ensure_role [OF laws, of "bs_creator_role ns"] by (fastforce simp: bs_creator_role_def)
  obtain w3 where w3: "create_if_missing A (call (api_RoleBinding A (ns, FORMOL_BS_CREATOR_ROLEBINDING)))
      (ORoleBinding (bs_creator_binding ns)) w2 = (Ret (), w3)"
    "view w3 = (view w2)\<lparr>cl_RoleBindings := add_missing (ns, FORMOL_BS_CREATOR_ROLEBINDING)
       (bs_creator_binding ns) (cl_RoleBindings (view w2))\<rparr>"
    using ensure_role_binding [OF laws, of "bs_creator_binding ns"] by (fastforce simp: bs_creator_binding_def)
  show ?thesis
    by (simp add: createBSCreatorRBAC_def bind_go_run w1(1) w2(1) w1(2) w2(2) w3
        with_bs_creator_def)
qed

lemma bind_sidecar_run:
  assumes laws: "client_laws A view" and keyed: "well_keyed (view w)"
  shows "\<exists>w'. bind_sidecar A ns sa w = (Ret (), w') \<and>
    view w' = (view w)\<lparr>cl_RoleBindings := (cl_RoleBindings (view w))((ns, FORMOL_SIDECAR_ROLEBINDING) \<mapsto>
       bound_sidecar ns sa (cl_RoleBindings (view w) (ns, FORMOL_SIDECAR_ROLEBINDING)))\<rparr>"
proof (cases "cl_RoleBindings (view w) (ns, FORMOL_SIDECAR_ROLEBINDING)")
  case None
  then have "try_go (call (api_RoleBinding A (ns, FORMOL_SIDECAR_ROLEBINDING))) w = (Ret (Inl NotFound), w)"
    by (simp add: try_go_run call_run read_lawsD(7) [OF laws])
  with None create_ok [OF laws, of "ORoleBinding (sidecar_binding ns sa)" w] show ?thesis
    by (simp add: bind_sidecar_def bind_go_run dom_def sidecar_binding_def bound_sidecar_def)
next
  case (Some b)
  then have "try_go (call (api_RoleBinding A (ns, FORMOL_SIDECAR_ROLEBINDING))) w = (Ret (Inr b), w)"
    by (simp add: try_go_run call_run read_lawsD(7) [OF laws])
  moreover have "meta_key (rb_Meta b) = (ns, FORMOL_SIDECAR_ROLEBINDING)" using well_keyedD(6) [OF keyed Some] .
  ultimately show ?thesis
    using Some update_ok [OF laws, of "ORoleBinding (b\<lparr>rb_Subjects := rb_Subjects b @ [sidecar_subject sa]\<rparr>)" w]
    by (simp add: bind_sidecar_def bind_go_run dom_def bound_sidecar_def)
qed

lemma createSidecarRBAC_run:
  assumes laws: "client_laws A view" and keyed: "well_keyed (view w)"
  shows "\<exists>w'. createSidecarRBAC A ns podSpec w = (Ret (), w') \<and>
    view w' = with_sidecar_rbac ns (service_account_of podSpec) (view w)"
proof -
  let ?sa = "service_account_of podSpec"
  obtain w1 where w1: "create_if_missing A (call (api_Role A (ns, FORMOL_SIDECAR_ROLE)))
      (ORole (sidecar_role ns)) w = (Ret (), w1)"
    "view w1 = (view w)\<lparr>cl_Roles := add_missing (ns, FORMOL_SIDECAR_ROLE) (sidecar_role ns) (cl_Roles (view w))\<rparr>"
    using ensure_role [OF laws, of "sidecar_role ns"] by (fastforce simp: sidecar_role_def)
  have "well_keyed (view w1)"
    using keyed unfolding w1(2) well_keyed_def by (auto simp: add_missing_def sidecar_role_def)
  then obtain w2 where w2: "bind_sidecar A ns ?sa w1 = (Ret (), w2)"
    "view w2 = (view w1)\<lparr>cl_RoleBindings := (cl_RoleBindings (view w1))((ns, FORMOL_SIDECAR_ROLEBINDING) \<mapsto>
       bound_sidecar ns ?sa (cl_RoleBindings (view w1) (ns, FORMOL_SIDECAR_ROLEBINDING)))\<rparr>"
    using bind_sidecar_run [OF laws] by blast
  obtain w3 where w3: "create_if_missing A (call (api_ClusterRole A ('''', FORMOL_SIDECAR_CLUSTERROLE)))
      (OClusterRole sidecar_cluster_role) w2 = (Ret (), w3)"
    "view w3 = (view w2)\<lparr>cl_ClusterRoles := add_missing FORMOL_SIDECAR_CLUSTERROLE sidecar_cluster_role
       (cl_ClusterRoles (view w2))\<rparr>"
    using ensure_cluster_role [OF laws, of sidecar_cluster_role] by (fastforce simp: sidecar_cluster_role_def)
  obtain w4 where w4: "create_if_missing A (call (api_ClusterRoleBinding A (ns, FORMOL_SIDECAR_CLUSTERROLEBINDING)))
      (OClusterRoleBinding (sidecar_cluster_binding ns ?sa)) w3 = (Ret (), w4)"
    "view w4 = (view w3)\<lparr>cl_ClusterRoleBindings := add_missing FORMOL_SIDECAR_CLUSTERROLEBINDING
       (sidecar_cluster_binding ns ?sa) (cl_ClusterRoleBindings (view w3))\<rparr>"
    using ensure_cluster_role_binding [OF laws, of "sidecar_cluster_binding ns ?sa"]
    by (fastforce simp: sidecar_cluster_binding_def)
  show ?thesis
    by (simp add: createSidecarRBAC_def Let_def bind_go_run w1(1) w2(1)
        w3(1) w1(2) w2(2) w3(2) w4 with_sidecar_rbac_def)
qed

text \<open>Deleting, again one lemma per kind of object.\<close>

lemma drop_role_binding:
  assumes laws: "client_laws A view" and keyed: "well_keyed (view w)"
  shows "\<exists>w'. delete_if_found (call (api_RoleBinding A k)) (\<lambda>x. call (api_Delete A (ORoleBinding x))) w = (Ret (), w') \<and>
    view w' = (view w)\<lparr>cl_RoleBindings := (cl_RoleBindings (view w))(k := None)\<rparr>"
  using delete_if_found_run [OF laws, where get = "api_RoleBinding A k" and w = w and mk = ORoleBinding
      and x = "cl_RoleBindings (view w) k"] well_keyedD(6) [OF keyed, of k]
  by (cases "cl_RoleBindings (view w) k") (auto simp: read_lawsD [OF laws] dom_def fun_upd_idem)

lemma drop_role:
  assumes laws: "client_laws A view" and keyed: "well_keyed (view w)"
  shows "\<exists>w'. delete_if_found (call (api_Role A k)) (\<lambda>x. call (api_Delete A (ORole x))) w = (Ret (), w') \<and>
    view w' = (view w)\<lparr>cl_Roles := (cl_Roles (view w))(k := None)\<rparr>"
  using delete_if_found_run [OF laws, where get = "api_Role A k" and w = w and mk = ORole
      and x = "cl_Roles (view w) k"] well_keyedD(5) [OF keyed, of k]
  by (cases "cl_Roles (view w) k") (auto simp: read_lawsD [OF laws] dom_def fun_upd_idem)

lemma drop_service_account:
  assumes laws: "client_laws A view" and keyed: "well_keyed (view w)"
  shows "\<exists>w'. delete_if_found (call (api_ServiceAccount A k)) (\<lambda>x. call (api_Delete A (OServiceAccount x))) w = (Ret (), w') \<and>
    view w' = (view w)\<lparr>cl_ServiceAccounts := (cl_ServiceAccounts (view w))(k := None)\<rparr>"
  using delete_if_found_run [OF laws, where get = "api_ServiceAccount A k" and w = w and mk = OServiceAccount
      and x = "cl_ServiceAccounts (view w) k"] well_keyedD(4) [OF keyed, of k]
  by (cases "cl_ServiceAccounts (view w) k") (auto simp: read_lawsD [OF laws] dom_def fun_upd_idem)

lemma drop_cluster_role_binding:
  assumes laws: "client_laws A view" and keyed: "well_keyed (view w)"
  shows "\<exists>w'. delete_if_found (call (api_ClusterRoleBinding A (ns, n))) (\<lambda>x. call (api_Delete A (OClusterRoleBinding x))) w = (Ret (), w') \<and>
    view w' = (view w)\<lparr>cl_ClusterRoleBindings := (cl_ClusterRoleBindings (view w))(n := None)\<rparr>"
  using delete_if_found_run [OF laws, where get = "api_ClusterRoleBinding A (ns, n)" and w = w and mk = OClusterRoleBinding
      and x = "cl_ClusterRoleBindings (view w) n"] well_keyedD(8) [OF keyed, of n]
  by (cases "cl_ClusterRoleBindings (view w) n") (auto simp: read_lawsD [OF laws] dom_def fun_upd_idem)

lemma drop_cluster_role:
  assumes laws: "client_laws A view" and keyed: "well_keyed (view w)"
  shows "\<exists>w'. delete_if_found (call (api_ClusterRole A (ns, n))) (\<lambda>x. call (api_Delete A (OClusterRole x))) w = (Ret (), w') \<and>
    view w' = (view w)\<lparr>cl_ClusterRoles := (cl_ClusterRoles (view w))(n := None)\<rparr>"
  using delete_if_found_run [OF laws, where get = "api_ClusterRole A (ns, n)" and w = w and mk = OClusterRole
      and x = "cl_ClusterRoles (view w) n"] well_keyedD(7) [OF keyed, of n]
  by (cases "cl_ClusterRoles (view w) n") (auto simp: read_lawsD [OF laws] dom_def fun_upd_idem)

lemma well_keyed_less:
  "well_keyed c \<Longrightarrow> well_keyed (c\<lparr>cl_RoleBindings := (cl_RoleBindings c)(k := None)\<rparr>)"
  "well_keyed c \<Longrightarrow> well_keyed (c\<lparr>cl_Roles := (cl_Roles c)(k := None)\<rparr>)"
  "well_keyed c \<Longrightarrow> well_keyed (c\<lparr>cl_ServiceAccounts := (cl_ServiceAccounts c)(k := None)\<rparr>)"
  "well_keyed c \<Longrightarrow> well_keyed (c\<lparr>cl_ClusterRoles := (cl_ClusterRoles c)(n := None)\<rparr>)"
  "well_keyed c \<Longrightarrow> well_keyed (c\<lparr>cl_ClusterRoleBindings := (cl_ClusterRoleBindings c)(n := None)\<rparr>)"
  unfolding well_keyed_def by auto

lemma deleteRBAC_run:
  assumes laws: "client_laws A view" and keyed: "well_keyed (view w)"
  shows "\<exists>w'. deleteRBAC A ns w = (Ret (), w') \<and> view w' = without_rbac ns (view w)"
proof -
  obtain w1 where w1: "delete_if_found (call (api_RoleBinding A (ns, FORMOL_BS_CREATOR_ROLEBINDING)))
      (\<lambda>x. call (api_Delete A (ORoleBinding x))) w = (Ret (), w1)"
    "view w1 = (view w)\<lparr>cl_RoleBindings := (cl_RoleBindings (view w))((ns, FORMOL_BS_CREATOR_ROLEBINDING) := None)\<rparr>"
    using drop_role_binding [OF laws keyed] by blast
  have k1: "well_keyed (view w1)" unfolding w1(2) by (rule well_keyed_less [OF keyed])
  obtain w2 where w2: "delete_if_found (call (api_RoleBinding A (ns, FORMOL_SIDECAR_ROLEBINDING)))
      (\<lambda>x. call (api_Delete A (ORoleBinding x))) w1 = (Ret (), w2)"
    "view w2 = (view w1)\<lparr>cl_RoleBindings := (cl_RoleBindings (view w1))((ns, FORMOL_SIDECAR_ROLEBINDING) := None)\<rparr>"
    using drop_role_binding [OF laws k1] by blast
  have k2: "well_keyed (view w2)" unfolding w2(2) by (rule well_keyed_less [OF k1])
  obtain w3 where w3: "delete_if_found (call (api_Role A (ns, FORMOL_BS_CREATOR_ROLE)))
      (\<lambda>x. call (api_Delete A (ORole x))) w2 = (Ret (), w3)"
    "view w3 = (view w2)\<lparr>cl_Roles := (cl_Roles (view w2))((ns, FORMOL_BS_CREATOR_ROLE) := None)\<rparr>"
    using drop_role [OF laws k2] by blast
  have k3: "well_keyed (view w3)" unfolding w3(2) by (rule well_keyed_less [OF k2])
  obtain w4 where w4: "delete_if_found (call (api_Role A (ns, FORMOL_SIDECAR_ROLE)))
      (\<lambda>x. call (api_Delete A (ORole x))) w3 = (Ret (), w4)"
    "view w4 = (view w3)\<lparr>cl_Roles := (cl_Roles (view w3))((ns, FORMOL_SIDECAR_ROLE) := None)\<rparr>"
    using drop_role [OF laws k3] by blast
  have k4: "well_keyed (view w4)" unfolding w4(2) by (rule well_keyed_less [OF k3])
  obtain w5 where w5: "delete_if_found (call (api_ServiceAccount A (ns, FORMOL_BS_CREATOR_SA)))
      (\<lambda>x. call (api_Delete A (OServiceAccount x))) w4 = (Ret (), w5)"
    "view w5 = (view w4)\<lparr>cl_ServiceAccounts := (cl_ServiceAccounts (view w4))((ns, FORMOL_BS_CREATOR_SA) := None)\<rparr>"
    using drop_service_account [OF laws k4] by blast
  have k5: "well_keyed (view w5)" unfolding w5(2) by (rule well_keyed_less [OF k4])
  obtain w6 where w6: "delete_if_found (call (api_ClusterRoleBinding A (ns, FORMOL_SIDECAR_CLUSTERROLEBINDING)))
      (\<lambda>x. call (api_Delete A (OClusterRoleBinding x))) w5 = (Ret (), w6)"
    "view w6 = (view w5)\<lparr>cl_ClusterRoleBindings := (cl_ClusterRoleBindings (view w5))(FORMOL_SIDECAR_CLUSTERROLEBINDING := None)\<rparr>"
    using drop_cluster_role_binding [OF laws k5] by blast
  have k6: "well_keyed (view w6)" unfolding w6(2) by (rule well_keyed_less [OF k5])
  obtain w7 where w7: "delete_if_found (call (api_ClusterRole A (ns, FORMOL_SIDECAR_CLUSTERROLE)))
      (\<lambda>x. call (api_Delete A (OClusterRole x))) w6 = (Ret (), w7)"
    "view w7 = (view w6)\<lparr>cl_ClusterRoles := (cl_ClusterRoles (view w6))(FORMOL_SIDECAR_CLUSTERROLE := None)\<rparr>"
    using drop_cluster_role [OF laws k6] by blast
  show ?thesis
    by (simp add: deleteRBAC_def bind_go_run w1(1) w2(1) w3(1) w4(1) w5(1) w6(1) w7(1) ret_run
        w1(2) w2(2) w3(2) w4(2) w5(2) w6(2) w7(2) without_rbac_def)
qed

text \<open>Deleting the access objects forgets what was granted.\<close>

lemma without_rbac_grants [simp]:
  "without_rbac ns (with_sidecar_rbac ns sa c) = without_rbac ns c"
  "without_rbac ns (with_bs_creator ns c) = without_rbac ns c"
  by (auto simp: without_rbac_def with_sidecar_rbac_def with_bs_creator_def add_missing_def rbac_names
      fun_upd_twist)

lemma without_rbac_keeps [simp]:
  "cl_Confs (without_rbac ns c) = cl_Confs c" "cl_Repos (without_rbac ns c) = cl_Repos c"
  "cl_Workloads (without_rbac ns c) = cl_Workloads c" "cl_CronJobs (without_rbac ns c) = cl_CronJobs c"
  by (simp_all add: without_rbac_def)

lemma without_rbac_update [simp]:
  "without_rbac ns (c\<lparr>cl_Confs := cs\<rparr>) = (without_rbac ns c)\<lparr>cl_Confs := cs\<rparr>"
  "without_rbac ns (c\<lparr>cl_Workloads := ws\<rparr>) = (without_rbac ns c)\<lparr>cl_Workloads := ws\<rparr>"
  "without_rbac ns (c\<lparr>cl_CronJobs := js\<rparr>) = (without_rbac ns c)\<lparr>cl_CronJobs := js\<rparr>"
  by (simp_all add: without_rbac_def)

lemma well_keyed_bs_creator: "well_keyed c \<Longrightarrow> well_keyed (with_bs_creator ns c)"
  unfolding well_keyed_def
  by (auto simp: with_bs_creator_def add_missing_def bs_creator_role_def bs_creator_binding_def)

lemma well_keyed_sidecar_rbac: "well_keyed c \<Longrightarrow> well_keyed (with_sidecar_rbac ns sa c)"
  unfolding well_keyed_def
  by (auto simp: with_sidecar_rbac_def add_missing_def sidecar_role_def sidecar_cluster_role_def
      sidecar_cluster_binding_def bound_sidecar_def sidecar_binding_def split: option.split)

subsection \<open>Properties\<close>

text \<open>
  Granting access to the creator of backup sessions is idempotent. Against a client that
  obeys its laws the operation returns without error, adds exactly those of the service account,
  the role and the binding that are missing, changes no existing object, and run again changes
  nothing.
\<close>

theorem bs_creator_access_is_idempotent:
  assumes "client_laws A view"
  shows "\<exists>w1 w2. createBSCreatorRBAC A ns w = (Ret (), w1) \<and> createBSCreatorRBAC A ns w1 = (Ret (), w2) \<and>
    view w1 = (view w)\<lparr>
      cl_ServiceAccounts := add_missing (ns, ''bs-creator'') \<lparr>sa_Meta = named_meta ns ''bs-creator''\<rparr>
        (cl_ServiceAccounts (view w)),
      cl_Roles := add_missing (ns, ''formol:bs-creator-role'') (bs_creator_role ns) (cl_Roles (view w)),
      cl_RoleBindings := add_missing (ns, ''formol:bs-creator-rolebinding'') (bs_creator_binding ns)
        (cl_RoleBindings (view w))\<rparr> \<and>
    view w2 = view w1"
proof -
  obtain w1 where w1: "createBSCreatorRBAC A ns w = (Ret (), w1)" "view w1 = with_bs_creator ns (view w)"
    using createBSCreatorRBAC_run [OF assms] by blast
  obtain w2 where w2: "createBSCreatorRBAC A ns w1 = (Ret (), w2)" "view w2 = with_bs_creator ns (view w1)"
    using createBSCreatorRBAC_run [OF assms] by blast
  have "with_bs_creator ns (with_bs_creator ns c) = with_bs_creator ns c" for c
    by (simp add: with_bs_creator_same)
  with w1 w2 show ?thesis by (simp add: with_bs_creator_def rbac_names)
qed

theorem bs_creator_access_is_idempotent_witness:
  "\<exists>w1 w2. createBSCreatorRBAC mem_api ''demo'' empty_cluster = (Ret (), w1) \<and>
    createBSCreatorRBAC mem_api ''demo'' w1 = (Ret (), w2) \<and> w2 = w1 \<and>
    cl_Roles w1 (''demo'', ''formol:bs-creator-role'') = Some (bs_creator_role ''demo'')"
  using bs_creator_access_is_idempotent [OF mem_api_laws, of "''demo''" empty_cluster]
  by (auto simp: add_missing_def empty_cluster_def)

text \<open>
  binding a sidecar's account is not idempotent. Against a client that obeys its laws, every
  call appends the pod's account to the subjects of the sidecar role binding, also when it is
  there already, while the cluster role binding keeps the account it was created with: a second
  account never gets the cluster-wide rights.
\<close>

theorem sidecar_accounts_accumulate:
  assumes "client_laws A view" and "well_keyed (view w)"
    and "cl_RoleBindings (view w) (ns, ''formol:sidecar-rolebinding'') = Some b"
    and "cl_ClusterRoleBindings (view w) ''formol:sidecar-clusterrolebinding'' = Some cb"
  shows "\<exists>w'. createSidecarRBAC A ns podSpec w = (Ret (), w') \<and>
    cl_RoleBindings (view w') (ns, ''formol:sidecar-rolebinding'') = Some (b\<lparr>rb_Subjects := rb_Subjects b @
      [\<lparr>sj_Kind = ''ServiceAccount'', sj_Name = (if ps_ServiceAccountName podSpec = '''' then ''default''
         else ps_ServiceAccountName podSpec), sj_Namespace = ''''\<rparr>]\<rparr>) \<and>
    cl_ClusterRoleBindings (view w') ''formol:sidecar-clusterrolebinding'' = Some cb"
  using createSidecarRBAC_run [OF assms(1,2), of ns podSpec] assms(3,4)
  by (auto simp: with_sidecar_rbac_def bound_sidecar_def add_missing_def sidecar_subject_def
      service_account_of_def rbac_names)

definition sample_bound :: cluster where
  "sample_bound = with_sidecar_rbac ''demo'' ''default'' empty_cluster"

definition empty_pod :: pod_spec where
  "empty_pod = \<lparr>ps_Containers = [], ps_InitContainers = [], ps_Volumes = [],
     ps_RestartPolicy = ''Always'', ps_ServiceAccountName = '''', ps_ShareProcessNamespace = None\<rparr>"

theorem sidecar_accounts_accumulate_witness:
  "\<exists>w'. createSidecarRBAC mem_api ''demo'' empty_pod sample_bound = (Ret (), w') \<and>
    map sj_Name (rb_Subjects (the (cl_RoleBindings w' (''demo'', ''formol:sidecar-rolebinding'')))) =
      [''default'', ''default'']"
  using sidecar_accounts_accumulate [OF mem_api_laws, of sample_bound "''demo''"
      "sidecar_binding ''demo'' ''default''" "sidecar_cluster_binding ''demo'' ''default''" empty_pod]
    well_keyed_sidecar_rbac [OF well_keyed_empty, of "''demo''" "''default''"]
  by (auto simp: sample_bound_def with_sidecar_rbac_def bound_sidecar_def add_missing_def rbac_names
      empty_cluster_def sidecar_binding_def sidecar_subject_def empty_pod_def)

text \<open>
  \<open>deleteRBAC\<close> undoes the grants. On a cluster without any of the seven objects, granting
  access to the session creator and to the sidecars of any number of pods and then deleting
  returns without error to the cluster as it was.
\<close>

theorem deleteRBAC_undoes_the_grants:
  assumes "client_laws A view" and "well_keyed (view w)" and "without_rbac ns (view w) = view w"
  shows "\<exists>w'. bind_go (createBSCreatorRBAC A ns) (\<lambda>_.
      bind_go (for_each (createSidecarRBAC A ns) pods) (\<lambda>_. deleteRBAC A ns)) w = (Ret (), w') \<and>
    view w' = view w"
proof -
  have "\<exists>w'. for_each (createSidecarRBAC A ns) pods w1 = (Ret (), w') \<and> well_keyed (view w') \<and>
      without_rbac ns (view w') = without_rbac ns (view w1)" if "well_keyed (view w1)" for w1
    using that
  proof (induction pods arbitrary: w1)
    case Nil
    then show ?case by (simp add: ret_run)
  next
    case (Cons p ps)
    obtain w2 where w2: "createSidecarRBAC A ns p w1 = (Ret (), w2)"
      "view w2 = with_sidecar_rbac ns (service_account_of p) (view w1)"
      using createSidecarRBAC_run [OF assms(1) Cons.prems] by blast
    with Cons.IH [of w2] Cons.prems show ?case
      by (simp add: bind_go_run well_keyed_sidecar_rbac)
  qed
  moreover obtain w1 where w1: "createBSCreatorRBAC A ns w = (Ret (), w1)" "view w1 = with_bs_creator ns (view w)"
    using createBSCreatorRBAC_run [OF assms(1)] by blast
  moreover have "well_keyed (view w1)" unfolding w1(2) by (rule well_keyed_bs_creator [OF assms(2)])
  ultimately obtain w2 where w2: "for_each (createSidecarRBAC A ns) pods w1 = (Ret (), w2)"
    "well_keyed (view w2)" "without_rbac ns (view w2) = without_rbac ns (view w1)"
    by blast
  obtain w3 where w3: "deleteRBAC A ns w2 = (Ret (), w3)" "view w3 = without_rbac ns (view w2)"
    using deleteRBAC_run [OF assms(1) w2(2)] by blast
  with w1 w2 assms(3) show ?thesis by (simp add: bind_go_run)
qed

theorem deleteRBAC_undoes_the_grants_witness:
  "\<exists>w'. bind_go (createBSCreatorRBAC mem_api ''demo'') (\<lambda>_.
      bind_go (for_each (createSidecarRBAC mem_api ''demo'') [empty_pod, empty_pod]) (\<lambda>_. deleteRBAC mem_api ''demo''))
      empty_cluster = (Ret (), w') \<and> w' = empty_cluster"
  by (rule deleteRBAC_undoes_the_grants [OF mem_api_laws well_keyed_empty])
    (simp add: without_rbac_def empty_cluster_def)

end
