(* ===== verification/CronJob.thy ===== *)
theory CronJob
  imports Rbac
begin

section \<open>The cron job (controllers/backupconfiguration_controller_helpers.go)\<close>

text \<open>
  \<open>AddCronJob\<close> and \<open>DeleteCronJob\<close>: one cron job per configuration, which creates the backup
  sessions. Two details of the code matter. The test \<open>backupConf.Spec.Suspend != cronjob.Spec.Suspend\<close>
  compares pointers into two separately decoded objects, so it holds whenever the left one is
  not nil. The assignments to \<open>backupConf.Status.Suspended\<close> are made on a copy that is thrown
  away; what stays of them is that they dereference \<open>Spec.Suspend\<close>, which panics on nil.
\<close>

definition cronjob_key :: "backup_configuration \<Rightarrow> object_key" where
  "cronjob_key conf = (om_Namespace (bc_Meta conf), ''backup-'' @ om_Name (bc_Meta conf))"

definition DeleteCronJob :: "'w api \<Rightarrow> backup_configuration \<Rightarrow> ('w, unit) go" where
  "DeleteCronJob A conf = bind_go (call (api_CronJob A (cronjob_key conf)))
     (\<lambda>cj. call (api_Delete A (OCronJob cj)))"

text \<open>The object for a configuration that has none yet.\<close>

definition new_cron_job :: "backup_configuration \<Rightarrow> cron_job" where
  "new_cron_job conf = \<lparr>cj_Meta = named_meta (om_Namespace (bc_Meta conf)) (''backup-'' @ om_Name (bc_Meta conf)),
     cj_Owner = None, cj_Suspend = bcs_Suspend (bc_Spec conf), cj_Schedule = bcs_Schedule (bc_Spec conf),
     cj_PodSpec = \<lparr>
       ps_Containers = [\<lparr>ct_Name = ''job-createbackupsession-'' @ om_Name (bc_Meta conf),
         ct_Image = bcs_Image (bc_Spec conf),
         ct_Args = [''backupsession'', ''create'', ''--namespace'', om_Namespace (bc_Meta conf),
           ''--name'', om_Name (bc_Meta conf)],
         ct_Env = [], ct_VolumeMounts = [], ct_Privileged = None\<rparr>],
       ps_InitContainers = [], ps_Volumes = [], ps_RestartPolicy = ''OnFailure'',
       ps_ServiceAccountName = FORMOL_BS_CREATOR_SA, ps_ShareProcessNamespace = None\<rparr>\<rparr>"

text \<open>The two tests on an existing job: the job as it is to be, and whether anything changed.\<close>

definition sync_cron_job :: "backup_configuration \<Rightarrow> cron_job \<Rightarrow> cron_job \<times> bool" where
  "sync_cron_job conf cj =
    (let (cj1, changed1) = (if bcs_Schedule (bc_Spec conf) \<noteq> cj_Schedule cj
           then (cj\<lparr>cj_Schedule := bcs_Schedule (bc_Spec conf)\<rparr>, True) else (cj, False))
     in if bcs_Suspend (bc_Spec conf) \<noteq> None
        then (cj1\<lparr>cj_Suspend := bcs_Suspend (bc_Spec conf)\<rparr>, True) else (cj1, changed1))"

definition AddCronJob :: "lib \<Rightarrow> 'w api \<Rightarrow> backup_configuration \<Rightarrow> ('w, unit) go" where
  "AddCronJob L A conf =
     bind_go (try_go (call (api_CronJob A (cronjob_key conf)))) (\<lambda>r. case r of
       Inr cj \<Rightarrow>
         (let (cj', changed) = sync_cron_job conf cj in
          if changed then
            bind_go (call (api_Update A (OCronJob cj'))) (\<lambda>_.
            bind_go (of_option (bcs_Suspend (bc_Spec conf))) (\<lambda>_. ret ()))
          else ret ())
     | Inl e \<Rightarrow>
         if \<not> IsNotFound e then fail e
         else (case SetControllerReference L conf (new_cron_job conf) of
             Inl e' \<Rightarrow> fail e'
           | Inr cj \<Rightarrow>
               bind_go (call (api_Create A (OCronJob cj))) (\<lambda>_.
               bind_go (of_option (bcs_Suspend (bc_Spec conf))) (\<lambda>_. ret ()))))"

text \<open>Documented behaviour of \<open>SetControllerReference\<close> on a new object: it sets the owner.\<close>

definition owner_law :: "lib \<Rightarrow> bool" where
  "owner_law L \<longleftrightarrow> (\<forall>conf cj. \<exists>o'. SetControllerReference L conf cj = Inr (cj\<lparr>cj_Owner := o'\<rparr>))"

lemma sample_lib_owner: "owner_law sample_lib"
  by (auto simp: owner_law_def sample_lib_def)

lemma AddCronJob_create:
  assumes laws: "client_laws A view" and "owner_law L" and "cl_CronJobs (view w) (cronjob_key conf) = None"
  shows "\<exists>w' o'. AddCronJob L A conf w =
      (case bcs_Suspend (bc_Spec conf) of None \<Rightarrow> (Panic, w') | Some _ \<Rightarrow> (Ret (), w')) \<and>
    view w' = (view w)\<lparr>cl_CronJobs := (cl_CronJobs (view w))(cronjob_key conf \<mapsto> (new_cron_job conf)\<lparr>cj_Owner := o'\<rparr>)\<rparr>"
proof -
  obtain o' where o': "SetControllerReference L conf (new_cron_job conf) = Inr ((new_cron_job conf)\<lparr>cj_Owner := o'\<rparr>)"
    using assms(2) by (auto simp: owner_law_def)
  let ?cj = "(new_cron_job conf)\<lparr>cj_Owner := o'\<rparr>"
  have key: "meta_key (cj_Meta ?cj) = cronjob_key conf" by (simp add: new_cron_job_def cronjob_key_def)
  obtain w' where w': "call (api_Create A (OCronJob ?cj)) w = (Ret (), w')" "view w' = put_object (OCronJob ?cj) (view w)"
    using create_ok [OF laws, of "OCronJob ?cj" w] assms(3) key by (auto simp: dom_def)
  have "try_go (call (api_CronJob A (cronjob_key conf))) w = (Ret (Inl NotFound), w)"
    by (simp add: try_go_run call_run read_lawsD(4) [OF laws] assms(3))
  with o' w' key show ?thesis
    by (cases "bcs_Suspend (bc_Spec conf)")
      (auto simp: AddCronJob_def bind_go_run of_option_run ret_run intro!: exI [of _ w'] exI [of _ o'])
qed

lemma AddCronJob_update:
  assumes laws: "client_laws A view" and keyed: "well_keyed (view w)"
    and cj: "cl_CronJobs (view w) (cronjob_key conf) = Some cj" and s: "bcs_Suspend (bc_Spec conf) = Some s"
  shows "\<exists>w'. AddCronJob L A conf w = (Ret (), w') \<and>
    view w' = (view w)\<lparr>cl_CronJobs := (cl_CronJobs (view w))(cronjob_key conf \<mapsto>
      cj\<lparr>cj_Schedule := bcs_Schedule (bc_Spec conf), cj_Suspend := Some s\<rparr>)\<rparr>"
proof -
  let ?cj = "cj\<lparr>cj_Schedule := bcs_Schedule (bc_Spec conf), cj_Suspend := Some s\<rparr>"
  have sync: "sync_cron_job conf cj = (?cj, True)" using s by (cases cj) (simp add: sync_cron_job_def)
  have key: "meta_key (cj_Meta ?cj) = cronjob_key conf" using well_keyedD(3) [OF keyed cj] by simp
  obtain w' where w': "call (api_Update A (OCronJob ?cj)) w = (Ret (), w')" "view w' = put_object (OCronJob ?cj) (view w)"
    using update_ok [OF laws, of "OCronJob ?cj" w] cj key by (auto simp: dom_def)
  have "try_go (call (api_CronJob A (cronjob_key conf))) w = (Ret (Inr cj), w)"
    by (simp add: try_go_run call_run read_lawsD(4) [OF laws] cj)
  with sync w' key s show ?thesis
    by (simp add: AddCronJob_def bind_go_run of_option_run ret_run)
qed

lemma AddCronJob_run:
  assumes "client_laws A view" and "well_keyed (view w)" and "owner_law L"
    and "bcs_Suspend (bc_Spec conf) = Some s"
  shows "\<exists>w' cj. AddCronJob L A conf w = (Ret (), w') \<and>
    view w' = (view w)\<lparr>cl_CronJobs := (cl_CronJobs (view w))(cronjob_key conf \<mapsto> cj)\<rparr> \<and>
    cj_Schedule cj = bcs_Schedule (bc_Spec conf) \<and> cj_Suspend cj = Some s \<and>
    meta_key (cj_Meta cj) = cronjob_key conf \<and>
    (\<forall>cj0. cl_CronJobs (view w) (cronjob_key conf) = Some cj0 \<longrightarrow>
      cj = cj0\<lparr>cj_Schedule := bcs_Schedule (bc_Spec conf), cj_Suspend := Some s\<rparr>)"
proof (cases "cl_CronJobs (view w) (cronjob_key conf)")
  case None
  then obtain w' o' where "AddCronJob L A conf w = (Ret (), w')"
    "view w' = (view w)\<lparr>cl_CronJobs := (cl_CronJobs (view w))(cronjob_key conf \<mapsto> (new_cron_job conf)\<lparr>cj_Owner := o'\<rparr>)\<rparr>"
    using AddCronJob_create [OF assms(1,3) None] assms(4) by auto
  then show ?thesis
    using assms(4) None by (intro exI [of _ w'] exI [of _ "(new_cron_job conf)\<lparr>cj_Owner := o'\<rparr>"])
      (simp add: new_cron_job_def cronjob_key_def)
next
  case (Some cj)
  let ?cj = "cj\<lparr>cj_Schedule := bcs_Schedule (bc_Spec conf), cj_Suspend := Some s\<rparr>"
  obtain w' where "AddCronJob L A conf w = (Ret (), w')"
    "view w' = (view w)\<lparr>cl_CronJobs := (cl_CronJobs (view w))(cronjob_key conf \<mapsto> ?cj)\<rparr>"
    using AddCronJob_update [OF assms(1,2) Some assms(4)] by blast
  with Some well_keyedD(3) [OF assms(2) Some] show ?thesis
    by (intro exI [of _ w'] exI [of _ ?cj]) simp
qed

lemma DeleteCronJob_run:
  assumes laws: "client_laws A view" and "well_keyed (view w)" and cj: "cl_CronJobs (view w) (cronjob_key conf) = Some cj"
  shows "\<exists>w'. DeleteCronJob A conf w = (Ret (), w') \<and>
    view w' = (view w)\<lparr>cl_CronJobs := (cl_CronJobs (view w))(cronjob_key conf := None)\<rparr>"
proof -
  have key: "meta_key (cj_Meta cj) = cronjob_key conf" using well_keyedD(3) [OF assms(2) cj] .
  have "exists_object (OCronJob cj) (view w)" using cj key by (simp add: dom_def)
  then obtain w' where "call (api_Delete A (OCronJob cj)) w = (Ret (), w')" "view w' = remove_object (OCronJob cj) (view w)"
    using delete_ok [OF laws] by blast
  moreover have "call (api_CronJob A (cronjob_key conf)) w = (Ret cj, w)"
    by (simp add: call_run read_lawsD(4) [OF laws] cj)
  ultimately show ?thesis by (simp add: DeleteCronJob_def bind_go_run key)
qed

lemma well_keyed_cron_job:
  "well_keyed c \<Longrightarrow> meta_key (cj_Meta cj) = k \<Longrightarrow> well_keyed (c\<lparr>cl_CronJobs := (cl_CronJobs c)(k \<mapsto> cj)\<rparr>)"
  "well_keyed c \<Longrightarrow> well_keyed (c\<lparr>cl_CronJobs := (cl_CronJobs c)(k := None)\<rparr>)"
  unfolding well_keyed_def by auto

subsection \<open>Properties\<close>

text \<open>
  a configuration without a suspend flag. If \<open>Spec.Suspend\<close> is nil and there is no cron job
  yet, the job is created and then the reconciler panics: on the way to the copy of the status it
  dereferences the flag.
\<close>

theorem nil_suspend_panics_after_creation:
  assumes "client_laws A view" and "owner_law L" and "cl_CronJobs (view w) (cronjob_key conf) = None"
    and "bcs_Suspend (bc_Spec conf) = None"
  shows "\<exists>w'. AddCronJob L A conf w = (Panic, w') \<and> cl_CronJobs (view w') (cronjob_key conf) \<noteq> None"
  using AddCronJob_create [OF assms(1-3)] assms(4) by fastforce

definition no_flag_conf :: backup_configuration where
  "no_flag_conf = (sample_conf [] (sample_policy 1 0))\<lparr>bc_Spec :=
     (bc_Spec (sample_conf [] (sample_policy 1 0)))\<lparr>bcs_Suspend := None\<rparr>\<rparr>"

theorem nil_suspend_panics_after_creation_witness:
  "\<exists>w'. AddCronJob sample_lib mem_api no_flag_conf empty_cluster = (Panic, w') \<and>
    cl_CronJobs w' (cronjob_key no_flag_conf) \<noteq> None"
  by (rule nil_suspend_panics_after_creation [OF mem_api_laws sample_lib_owner])
    (simp_all add: empty_cluster_def no_flag_conf_def)

text \<open>
  An up-to-date cron job is written on every reconciliation all the same, since the flags are
  compared as pointers: the log of \<open>AddCronJob\<close> then is the read and an update with the very
  object that was read.
\<close>

theorem unchanged_job_is_rewritten:
  assumes "api_CronJob A (cronjob_key conf) w = (Inr cj, w1)"
    and "cj_Schedule cj = bcs_Schedule (bc_Spec conf)" and "cj_Suspend cj = bcs_Suspend (bc_Spec conf)"
    and "bcs_Suspend (bc_Spec conf) \<noteq> None"
  shows "log_of (AddCronJob L (logged A) conf) w = [GetCall RCronJob (cronjob_key conf), UpdateCall (OCronJob cj)]"
proof -
  have "sync_cron_job conf cj = (cj, True)"
    using assms(2-4) by (cases cj) (simp add: sync_cron_job_def Let_def)
  with assms(1,4) show ?thesis
    by (auto simp: log_of_def AddCronJob_def go_exec split: prod.splits sum.splits)
qed

theorem unchanged_job_is_rewritten_witness:
  "log_of (AddCronJob sample_lib (logged mem_api) (sample_conf [] (sample_policy 1 0)))
     (empty_cluster\<lparr>cl_CronJobs := [(''demo'', ''backup-backup-demo'') \<mapsto> new_cron_job (sample_conf [] (sample_policy 1 0))]\<rparr>) =
   [GetCall RCronJob (''demo'', ''backup-backup-demo''), UpdateCall (OCronJob (new_cron_job (sample_conf [] (sample_policy 1 0))))]"
  using unchanged_job_is_rewritten [of mem_api "sample_conf [] (sample_policy 1 0)"
      "empty_cluster\<lparr>cl_CronJobs := [(''demo'', ''backup-backup-demo'') \<mapsto> new_cron_job (sample_conf [] (sample_policy 1 0))]\<rparr>"
      "new_cron_job (sample_conf [] (sample_policy 1 0))"
      "empty_cluster\<lparr>cl_CronJobs := [(''demo'', ''backup-backup-demo'') \<mapsto> new_cron_job (sample_conf [] (sample_policy 1 0))]\<rparr>"
      sample_lib]
  by (simp add: read_lawsD [OF mem_api_laws] cronjob_key_def sample_conf_def new_cron_job_def named_meta_def)

text \<open>
  \<open>DeleteCronJob\<close> undoes \<open>AddCronJob\<close>: on a cluster without the job, adding and deleting it
  returns without error to the cluster as it was. Deleting a job that does not exist is an error
  and changes nothing.
\<close>

theorem DeleteCronJob_undoes_AddCronJob:
  assumes "client_laws A view" and "well_keyed (view w)" and "owner_law L"
    and "bcs_Suspend (bc_Spec conf) = Some s" and "cl_CronJobs (view w) (cronjob_key conf) = None"
  shows "(\<exists>w'. bind_go (AddCronJob L A conf) (\<lambda>_. DeleteCronJob A conf) w = (Ret (), w') \<and> view w' = view w) \<and>
    DeleteCronJob A conf w = (Fail NotFound, w)"
proof -
  obtain w1 cj where w1: "AddCronJob L A conf w = (Ret (), w1)"
    "view w1 = (view w)\<lparr>cl_CronJobs := (cl_CronJobs (view w))(cronjob_key conf \<mapsto> cj)\<rparr>"
    "meta_key (cj_Meta cj) = cronjob_key conf"
    using AddCronJob_run [OF assms(1-4)] by blast
  have "well_keyed (view w1)" unfolding w1(2) by (rule well_keyed_cron_job(1) [OF assms(2) w1(3)])
  then obtain w2 where "DeleteCronJob A conf w1 = (Ret (), w2)"
    "view w2 = (view w1)\<lparr>cl_CronJobs := (cl_CronJobs (view w1))(cronjob_key conf := None)\<rparr>"
    using DeleteCronJob_run [OF assms(1), of w1 conf cj] w1(2) by auto
  with w1 show ?thesis
    by (simp add: DeleteCronJob_def bind_go_run call_run read_lawsD(4) [OF assms(1)] assms(5) fun_upd_idem)
qed

theorem DeleteCronJob_undoes_AddCronJob_witness:
  "\<exists>w'. bind_go (AddCronJob sample_lib mem_api (sample_conf [] (sample_policy 1 0)))
     (\<lambda>_. DeleteCronJob mem_api (sample_conf [] (sample_policy 1 0))) empty_cluster = (Ret (), w') \<and> w' = empty_cluster"
  using DeleteCronJob_undoes_AddCronJob [OF mem_api_laws well_keyed_empty sample_lib_owner,
      of "sample_conf [] (sample_policy 1 0)" True]
  by (simp add: sample_conf_def empty_cluster_def)

end
