(* ===== verification/Common.thy ===== *)
theory Common
  imports GoStrings Samples
begin

section \<open>The sidecar's view of a container (api/v1alpha1/common.go)\<close>

text \<open>
  \<open>GetSharedPath\<close> shares a volume between a target container and the sidecar,
  \<open>GetVolumeMounts\<close> finds for each path to back up the volume it lies on and where the sidecar
  will see it, \<open>GetSidecar\<close> builds the sidecar container. The search of \<open>GetVolumeMounts\<close> is a
  fold over the mounts and, inside, over the elements of each mount path, with the loop variables
  \<open>longest\<close>, \<open>vm\<close> and \<open>sidecarPath\<close> as its state.
\<close>

subsection \<open>Operations\<close>

definition FORMOL_SHARED_VOLUME :: string where
  "FORMOL_SHARED_VOLUME = ''formol-shared''"

definition BACKUP_PREFIX_PATH :: string where
  "BACKUP_PREFIX_PATH = ''backup''"

definition SIDECARCONTAINER_NAME :: string where
  "SIDECARCONTAINER_NAME = ''formol''"

definition shared_mount :: "target_container \<Rightarrow> volume_mount" where
  "shared_mount tc = \<lparr>vm_Name = FORMOL_SHARED_VOLUME, vm_ReadOnly = False,
     vm_MountPath = tc_SharePath tc, vm_SubPath = ''''\<rparr>"

text \<open>
  The pod spec is changed in place: the result is its new value with the mounts for the sidecar.
  \<open>None\<close> is the panic of an index out of range.
\<close>

definition GetSharedPath :: "pod_spec \<Rightarrow> nat \<Rightarrow> target_container \<Rightarrow> (pod_spec \<times> volume_mount list) option" where
  "GetSharedPath podSpec index tc =
    (let addSharedVol = (\<forall>vol \<in> set (ps_Volumes podSpec). vol_Name vol \<noteq> FORMOL_SHARED_VOLUME);
         vols = (if addSharedVol
           then ps_Volumes podSpec @ [\<lparr>vol_Name = FORMOL_SHARED_VOLUME, vol_Source = EmptyDir\<rparr>]
           else ps_Volumes podSpec);
         c = ps_Containers podSpec ! index
     in if index < length (ps_Containers podSpec) then
          Some (podSpec\<lparr>ps_Volumes := vols, ps_Containers := (ps_Containers podSpec)[index :=
                  c\<lparr>ct_VolumeMounts := ct_VolumeMounts c @ [shared_mount tc]\<rparr>]\<rparr>,
                [shared_mount tc])
        else None)"

record mount_pick =
  mp_longest :: nat
  mp_vm :: volume_mount
  mp_sidecarPath :: string

text \<open>
  The body of the inner loop at element \<open>j\<close> of a mount path. An error of \<open>filepath.Rel\<close> is
  dropped and leaves the empty string.
\<close>

definition pick_item :: "nat \<Rightarrow> string \<Rightarrow> string list \<Rightarrow> volume_mount \<Rightarrow> mount_pick \<Rightarrow> nat \<times> string \<Rightarrow> mount_pick" where
  "pick_item i path splitPath volumeMount st = (\<lambda>(j, pathItem).
    if j < length splitPath \<and> pathItem = splitPath ! j \<and> j > mp_longest st then
      let mountPath = ''/'' @ BACKUP_PREFIX_PATH @ nat_string i;
          rel = (case filepath_Rel (vm_MountPath volumeMount) path of None \<Rightarrow> '''' | Some r \<Rightarrow> r)
      in \<lparr>mp_longest = j,
          mp_vm = (mp_vm st)\<lparr>vm_Name := vm_Name volumeMount, vm_MountPath := mountPath,
                              vm_SubPath := vm_SubPath volumeMount\<rparr>,
          mp_sidecarPath = filepath_Join mountPath rel\<rparr>
    else st)"

definition pick_mount :: "nat \<Rightarrow> string \<Rightarrow> string list \<Rightarrow> mount_pick \<Rightarrow> volume_mount \<Rightarrow> mount_pick" where
  "pick_mount i path splitPath st volumeMount =
     foldl (pick_item i path splitPath volumeMount) st
       (enumerate 0 (strings_Split (vm_MountPath volumeMount) (CHR ''/'')))"

definition no_pick :: mount_pick where
  "no_pick = \<lparr>mp_longest = 0, mp_vm = \<lparr>vm_Name = '''', vm_ReadOnly = True, vm_MountPath = '''',
     vm_SubPath = ''''\<rparr>, mp_sidecarPath = ''''\<rparr>"

definition path_mount :: "container \<Rightarrow> nat \<times> string \<Rightarrow> mount_pick" where
  "path_mount container = (\<lambda>(i, path).
     let path' = filepath_Clean path in
     foldl (pick_mount i path' (strings_Split path' (CHR ''/''))) no_pick (ct_VolumeMounts container))"

definition GetVolumeMounts :: "container \<Rightarrow> target_container \<Rightarrow> string list \<times> volume_mount list" where
  "GetVolumeMounts container tc =
    (let picks = map (path_mount container) (enumerate 0 (tc_Paths tc))
     in (map mp_sidecarPath picks, map mp_vm picks))"

definition GetSidecar :: "backup_configuration \<Rightarrow> target \<Rightarrow> container" where
  "GetSidecar conf tg = \<lparr>ct_Name = SIDECARCONTAINER_NAME, ct_Image = bcs_Image (bc_Spec conf),
     ct_Args = [''server''],
     ct_Env = [\<lparr>ev_Name = ''TARGET_NAME'', ev_Value = tg_TargetName tg, ev_FieldPath = None\<rparr>,
       \<lparr>ev_Name = ''POD_NAMESPACE'', ev_Value = '''', ev_FieldPath = Some ''metadata.namespace''\<rparr>],
     ct_VolumeMounts = [], ct_Privileged = Some True\<rparr>"

subsection \<open>The search over one mount\<close>

text \<open>A mount at an absolute clean path other than the root.\<close>

definition mount_elems :: "volume_mount \<Rightarrow> string list" where
  "mount_elems m = clean_elems (vm_MountPath m)"

definition clean_mount :: "volume_mount \<Rightarrow> bool" where
  "clean_mount m \<longleftrightarrow> is_rooted (vm_MountPath m) \<and> filepath_Clean (vm_MountPath m) = vm_MountPath m \<and>
     mount_elems m \<noteq> []"

text \<open>A mount shares an aligned element with a path, and lies above it.\<close>

definition aligned :: "string list \<Rightarrow> volume_mount \<Rightarrow> bool" where
  "aligned es m \<longleftrightarrow> (\<exists>j < length es. j < length (mount_elems m) \<and> mount_elems m ! j = es ! j)"

definition above :: "string list \<Rightarrow> volume_mount \<Rightarrow> bool" where
  "above es m \<longleftrightarrow> take (length (mount_elems m)) es = mount_elems m"

lemma clean_mountD:
  assumes "clean_mount m"
  shows "vm_MountPath m = rooted_path (mount_elems m)" "\<forall>e \<in> set (mount_elems m). plain_elem e"
    "strings_Split (vm_MountPath m) (CHR ''/'') = '''' # mount_elems m"
proof -
  show p: "\<forall>e \<in> set (mount_elems m). plain_elem e" and r: "vm_MountPath m = rooted_path (mount_elems m)"
    using assms filepath_Clean_rooted [of "vm_MountPath m"] clean_elems_plain [of "vm_MountPath m"]
    by (simp_all add: clean_mount_def mount_elems_def)
  show "strings_Split (vm_MountPath m) (CHR ''/'') = '''' # mount_elems m"
    using split_rooted_path [OF _ p] assms by (subst r) (simp add: clean_mount_def)
qed

text \<open>What the loops store when mount \<open>m\<close> is chosen at element \<open>j\<close>.\<close>

definition picked_mount :: "nat \<Rightarrow> string \<Rightarrow> volume_mount \<Rightarrow> nat \<Rightarrow> mount_pick" where
  "picked_mount i path m j =
    (let mountPath = ''/'' @ BACKUP_PREFIX_PATH @ nat_string i in
     \<lparr>mp_longest = j, mp_vm = \<lparr>vm_Name = vm_Name m, vm_ReadOnly = True, vm_MountPath = mountPath,
        vm_SubPath = vm_SubPath m\<rparr>,
      mp_sidecarPath = filepath_Join mountPath
        (case filepath_Rel (vm_MountPath m) path of None \<Rightarrow> '''' | Some r \<Rightarrow> r)\<rparr>)"

text \<open>The state is either the initial one or some chosen mount.\<close>

lemma pick_item_eq:
  assumes "vm_ReadOnly (mp_vm st)"
  shows "pick_item i path sp m st (j, e) =
    (if j < length sp \<and> e = sp ! j \<and> j > mp_longest st then picked_mount i path m j else st)"
  using assms by (simp add: pick_item_def picked_mount_def Let_def)

lemma picked_ReadOnly [simp]: "vm_ReadOnly (mp_vm (picked_mount i path m j))"
  by (simp add: picked_mount_def Let_def)

lemma picked_longest [simp]: "mp_longest (picked_mount i path m j) = j"
  by (simp add: picked_mount_def Let_def)

lemma pick_items_miss:
  assumes "\<And>j e. (j, e) \<in> set items \<Longrightarrow> \<not> (j < length sp \<and> e = sp ! j \<and> j > mp_longest st)"
  shows "foldl (pick_item i path sp m) st items = st"
  using assms
proof (induction items)
  case (Cons x items)
  obtain j e where x: "x = (j, e)" by (cases x)
  with Cons.prems [of j e] have "pick_item i path sp m st x = st" by (auto simp: pick_item_def)
  with Cons show ?case by simp
qed simp

text \<open>Going through aligned elements one after the other ends at the last one.\<close>

lemma pick_items_run:
  assumes "\<And>k. k < length es \<Longrightarrow> n + k < length sp \<and> sp ! (n + k) = es ! k"
    and "vm_ReadOnly (mp_vm st)"
  shows "foldl (pick_item i path sp m) st (enumerate n es) =
    (if es \<noteq> [] \<and> mp_longest st < n + length es - 1 then picked_mount i path m (n + length es - 1) else st)"
  using assms
proof (induction es arbitrary: n st)
  case (Cons e es)
  have hd: "n < length sp" "sp ! n = e" using Cons.prems(1) [of 0] by auto
  have tl: "Suc n + k < length sp \<and> sp ! (Suc n + k) = es ! k" if "k < length es" for k
    using Cons.prems(1) [of "Suc k"] that by simp
  let ?st = "if mp_longest st < n then picked_mount i path m n else st"
  have "vm_ReadOnly (mp_vm ?st)" using Cons.prems(2) by simp
  then have IH: "foldl (pick_item i path sp m) ?st (enumerate (Suc n) es) =
      (if es \<noteq> [] \<and> mp_longest ?st < Suc n + length es - 1
       then picked_mount i path m (Suc n + length es - 1) else ?st)"
    using tl by (intro Cons.IH)
  have step: "foldl (pick_item i path sp m) st (enumerate n (e # es)) =
      foldl (pick_item i path sp m) ?st (enumerate (Suc n) es)"
    using hd Cons.prems(2) by (simp add: pick_item_eq)
  have "mp_longest ?st < Suc n + length es - 1 \<longleftrightarrow> mp_longest st < Suc n + length es - 1" if "es \<noteq> []"
    using that by (cases es) auto
  then show ?case
  proof (cases "es = []")
    case True
    then show ?thesis using hd Cons.prems(2) by (simp add: pick_item_eq)
  next
    case False
    with \<open>es \<noteq> [] \<Longrightarrow> _\<close> show ?thesis unfolding step IH by simp
  qed
qed simp

lemma pick_mount_above:
  assumes "clean_mount m" "above es m" "vm_ReadOnly (mp_vm st)"
  shows "pick_mount i path ('''' # es) st m = (if mp_longest st < length (mount_elems m)
     then picked_mount i path m (length (mount_elems m)) else st)"
proof -
  have el: "mount_elems m \<noteq> []" using assms(1) by (simp add: clean_mount_def)
  have first: "pick_item i path ('''' # es) m st (0, '''') = st" by (simp add: pick_item_def)
  have len: "length (mount_elems m) \<le> length es"
    using assms(2) unfolding above_def by (metis length_take min.bounded_iff order_refl)
  have at: "es ! k = mount_elems m ! k" if "k < length (mount_elems m)" for k
    using assms(2) that unfolding above_def by (metis nth_take)
  have run: "foldl (pick_item i path ('''' # es) m) st (enumerate 1 (mount_elems m)) =
      (if mount_elems m \<noteq> [] \<and> mp_longest st < 1 + length (mount_elems m) - 1
       then picked_mount i path m (1 + length (mount_elems m) - 1) else st)"
    using len at assms(3) by (intro pick_items_run) auto
  have "pick_mount i path ('''' # es) st m = foldl (pick_item i path ('''' # es) m) st (enumerate 1 (mount_elems m))"
    by (simp add: pick_mount_def clean_mountD(3) [OF assms(1)] first)
  then show ?thesis unfolding run using el by simp
qed

lemma pick_mount_apart:
  assumes "clean_mount m" "\<not> aligned es m"
  shows "pick_mount i path ('''' # es) st m = st"
  unfolding pick_mount_def clean_mountD(3) [OF assms(1)]
proof (rule pick_items_miss)
  fix j e assume "(j, e) \<in> set (enumerate 0 ('''' # mount_elems m))"
  then have je: "j < length ('''' # mount_elems m)" "e = ('''' # mount_elems m) ! j"
    by (auto simp only: in_set_enumerate_eq fst_conv snd_conv add_0_right diff_zero)
  show "\<not> (j < length ('''' # es) \<and> e = ('''' # es) ! j \<and> j > mp_longest st)"
  proof
    assume a: "j < length ('''' # es) \<and> e = ('''' # es) ! j \<and> j > mp_longest st"
    then obtain k where "j = Suc k" using gr0_conv_Suc by auto
    with a je assms(2) show False by (auto simp: aligned_def)
  qed
qed

text \<open>Every mount that shares an aligned element with the path lies above it.\<close>

definition separated :: "string list \<Rightarrow> volume_mount list \<Rightarrow> bool" where
  "separated es ms \<longleftrightarrow> (\<forall>m \<in> set ms. clean_mount m \<and> (aligned es m \<longrightarrow> above es m))"

lemma pick_mounts:
  fixes i :: nat and path :: string
  assumes "separated es ms" "vm_ReadOnly (mp_vm st)"
  defines "r \<equiv> foldl (pick_mount i path ('''' # es)) st ms"
  shows "(r = st \<or> (\<exists>m \<in> set ms. above es m \<and> r = picked_mount i path m (length (mount_elems m)))) \<and>
    mp_longest st \<le> mp_longest r \<and> (\<forall>m \<in> set ms. above es m \<longrightarrow> length (mount_elems m) \<le> mp_longest r)"
  using assms(1,2) unfolding r_def
proof (induction ms arbitrary: st)
  case (Cons m ms)
  have m: "clean_mount m" "aligned es m \<longrightarrow> above es m" and ms: "separated es ms"
    using Cons.prems(1) by (auto simp: separated_def)
  define st' where "st' = pick_mount i path ('''' # es) st m"
  have st': "st' = (if above es m \<and> mp_longest st < length (mount_elems m)
      then picked_mount i path m (length (mount_elems m)) else st)"
    using pick_mount_above [OF m(1) _ Cons.prems(2)] pick_mount_apart [OF m(1)] m(2)
    by (auto simp: st'_def)
  have "vm_ReadOnly (mp_vm st')" using Cons.prems(2) by (simp add: st')
  note IH = Cons.IH [OF ms this]
  have le: "mp_longest st \<le> mp_longest st'" "above es m \<Longrightarrow> length (mount_elems m) \<le> mp_longest st'"
    by (auto simp: st')
  have "st' = st \<or> above es m \<and> st' = picked_mount i path m (length (mount_elems m))"
    by (simp add: st')
  with IH le show ?case by (auto simp: st'_def [symmetric])
qed simp

subsection \<open>The path in the sidecar\<close>

lemma set_nat_string: "c \<in> set (nat_string n) \<Longrightarrow> 48 \<le> (of_char c :: nat) \<and> (of_char c :: nat) < 58"
proof (induction n rule: nat_string.induct)
  case (1 n)
  have digit: "48 \<le> (of_char (char_of (48 + k) :: char) :: nat) \<and> (of_char (char_of (48 + k) :: char) :: nat) < 58"
    if "k < 10" for k :: nat
    using that by simp
  show ?case
  proof (cases "n < 10")
    case True
    with "1.prems" digit [of n] show ?thesis by (simp add: nat_string.simps [of n])
  next
    case False
    with 1 digit [of "n mod 10"] show ?thesis by (auto simp: nat_string.simps [of n])
  qed
qed

definition backup_dir :: "nat \<Rightarrow> string" where
  "backup_dir i = BACKUP_PREFIX_PATH @ nat_string i"

lemma plain_backup_dir: "plain_elem (backup_dir i)"
proof -
  have "CHR ''/'' \<notin> set (nat_string i)"
    using set_nat_string [of "CHR ''/''" i] by auto
  then show ?thesis by (simp add: plain_elem_def backup_dir_def BACKUP_PREFIX_PATH_def)
qed

lemma join_backup_dir:
  assumes "\<forall>e \<in> set ts. plain_elem e"
  shows "filepath_Join (rooted_path [backup_dir i]) (if ts = [] then ''.'' else strings_Join ts ''/'') =
    rooted_path (backup_dir i # ts)"
proof (cases "ts = []")
  case False
  then have "rooted_path [backup_dir i] @ ''/'' @ strings_Join ts ''/'' = rooted_path (backup_dir i # ts)"
    by (simp add: rooted_path_def strings_Join_Cons)
  with False assms plain_backup_dir [of i] show ?thesis
    by (simp add: filepath_Join_def) (simp add: rooted_path_def)
next
  case True
  let ?p = "rooted_path [backup_dir i] @ ''/.''"
  have "strings_Split ?p (CHR ''/'') = ['''', backup_dir i, ''.'']"
    using plain_backup_dir [of i] strings_Split_append [of "CHR ''/''" "backup_dir i" "''.''"]
    by (simp add: rooted_path_def plain_elem_def)
  then have "clean_elems ?p = [backup_dir i]"
    using plain_backup_dir [of i]
    by (simp add: clean_elems_def rooted_path_def is_rooted_def) (simp add: clean_step_def)
  then have "filepath_Clean ?p = rooted_path [backup_dir i]"
    by (subst filepath_Clean_rooted) (simp_all add: is_rooted_def rooted_path_def)
  with True show ?thesis by (simp add: filepath_Join_def) (simp add: rooted_path_def)
qed

lemma picked_above:
  assumes "clean_mount m" "above es m" "\<forall>e \<in> set es. plain_elem e"
  shows "picked_mount i (rooted_path es) m j = \<lparr>mp_longest = j,
    mp_vm = \<lparr>vm_Name = vm_Name m, vm_ReadOnly = True, vm_MountPath = rooted_path [backup_dir i],
      vm_SubPath = vm_SubPath m\<rparr>,
    mp_sidecarPath = rooted_path (backup_dir i # drop (length (mount_elems m)) es)\<rparr>"
proof -
  let ?bs = "mount_elems m" and ?ts = "drop (length (mount_elems m)) es"
  have es: "es = ?bs @ ?ts" using assms(2) append_take_drop_id [of "length ?bs" es] by (simp add: above_def)
  have ts: "\<forall>e \<in> set ?ts. plain_elem e" using assms(3) by (meson in_set_dropD)
  have rel: "filepath_Rel (vm_MountPath m) (rooted_path es) = Some (if ?ts = [] then ''.'' else strings_Join ?ts ''/'')"
  proof (cases "?ts = []")
    case True
    with es have "rooted_path es = vm_MountPath m" using clean_mountD(1) [OF assms(1)] by simp
    with True show ?thesis by (simp add: filepath_Rel_same)
  next
    case False
    with es clean_mountD(1) [OF assms(1)] filepath_Rel_below [of ?bs ?ts] assms(3) show ?thesis by simp
  qed
  have dir: "''/'' @ BACKUP_PREFIX_PATH @ nat_string i = rooted_path [backup_dir i]"
    by (simp add: rooted_path_def backup_dir_def)
  show ?thesis
    unfolding picked_mount_def Let_def dir rel option.case join_backup_dir [OF ts] by simp
qed

subsection \<open>Properties\<close>

lemma GetVolumeMounts_nth:
  assumes "i < length (tc_Paths tc)"
  shows "fst (GetVolumeMounts c tc) ! i = mp_sidecarPath (path_mount c (i, tc_Paths tc ! i))"
    "snd (GetVolumeMounts c tc) ! i = mp_vm (path_mount c (i, tc_Paths tc ! i))"
  using assms by (simp_all add: GetVolumeMounts_def Let_def nth_enumerate_eq)

lemma length_GetVolumeMounts:
  "length (fst (GetVolumeMounts c tc)) = length (tc_Paths tc)"
  "length (snd (GetVolumeMounts c tc)) = length (tc_Paths tc)"
  by (simp_all add: GetVolumeMounts_def Let_def)

text \<open>The search for a path that is absolute, below the root and on no misleading mount.\<close>

lemma path_mount_separated:
  assumes "is_rooted path" and sep: "separated (clean_elems path) (ct_VolumeMounts c)"
    and m0: "m0 \<in> set (ct_VolumeMounts c)" "above (clean_elems path) m0"
  obtains m where "m \<in> set (ct_VolumeMounts c)" "above (clean_elems path) m"
    "\<And>m'. m' \<in> set (ct_VolumeMounts c) \<Longrightarrow> above (clean_elems path) m' \<Longrightarrow>
      length (mount_elems m') \<le> length (mount_elems m)"
    "path_mount c (i, path) = picked_mount i (rooted_path (clean_elems path)) m (length (mount_elems m))"
proof -
  let ?es = "clean_elems path"
  have es: "\<forall>e \<in> set ?es. plain_elem e" using clean_elems_plain [OF assms(1)] .
  have ne: "mount_elems m0 \<noteq> []" using sep m0(1) by (simp add: separated_def clean_mount_def)
  with m0(2) have "?es \<noteq> []" by (auto simp: above_def)
  with es have sp: "strings_Split (rooted_path ?es) (CHR ''/'') = '''' # ?es" by (rule split_rooted_path [rotated])
  have r: "path_mount c (i, path) = foldl (pick_mount i (rooted_path ?es) ('''' # ?es)) no_pick (ct_VolumeMounts c)"
    using filepath_Clean_rooted [OF assms(1)] sp by (simp add: path_mount_def Let_def)
  have "vm_ReadOnly (mp_vm no_pick)" by (simp add: no_pick_def)
  note P = pick_mounts [OF sep this, of i "rooted_path ?es", folded r]
  have "mp_longest (path_mount c (i, path)) > 0" using P m0 ne by (cases "mount_elems m0") fastforce+
  then have "path_mount c (i, path) \<noteq> no_pick" by (auto simp: no_pick_def)
  with P show ?thesis by (auto intro!: that)
qed

text \<open>
  C28: where the sidecar finds a path to back up. If every volume of the container is mounted at
  an absolute clean path below the root, and a mount that shares an element with the path at the
  same depth lies above it, then the volume chosen is one mounted deepest above the path, it is
  mounted read-only at \<open>/backup<i>\<close>, and the sidecar's path is \<open>/backup<i>\<close> followed by what is left
  of the path below the mount.
\<close>

theorem sidecar_path_is_below_the_deepest_mount:
  assumes "i < length (tc_Paths tc)" and "is_rooted (tc_Paths tc ! i)"
    and "separated (clean_elems (tc_Paths tc ! i)) (ct_VolumeMounts c)"
    and "\<exists>m \<in> set (ct_VolumeMounts c). above (clean_elems (tc_Paths tc ! i)) m"
  shows "\<exists>m \<in> set (ct_VolumeMounts c). above (clean_elems (tc_Paths tc ! i)) m \<and>
    (\<forall>m' \<in> set (ct_VolumeMounts c). above (clean_elems (tc_Paths tc ! i)) m' \<longrightarrow>
       length (mount_elems m') \<le> length (mount_elems m)) \<and>
    snd (GetVolumeMounts c tc) ! i = \<lparr>vm_Name = vm_Name m, vm_ReadOnly = True,
       vm_MountPath = ''/backup'' @ nat_string i, vm_SubPath = vm_SubPath m\<rparr> \<and>
    fst (GetVolumeMounts c tc) ! i = ''/backup'' @ nat_string i @
       concat (map (\<lambda>e. CHR ''/'' # e) (drop (length (mount_elems m)) (clean_elems (tc_Paths tc ! i))))"
proof -
  let ?es = "clean_elems (tc_Paths tc ! i)"
  obtain m where m: "m \<in> set (ct_VolumeMounts c)" "above ?es m"
    "\<And>m'. m' \<in> set (ct_VolumeMounts c) \<Longrightarrow> above ?es m' \<Longrightarrow> length (mount_elems m') \<le> length (mount_elems m)"
    "path_mount c (i, tc_Paths tc ! i) = picked_mount i (rooted_path ?es) m (length (mount_elems m))"
    using assms(4) path_mount_separated [OF assms(2,3), where i = i] by metis
  have clean: "clean_mount m" using assms(3) m(1) by (simp add: separated_def)
  note p = picked_above [OF clean m(2) clean_elems_plain [OF assms(2)], of i "length (mount_elems m)", folded m(4)]
  have dir: "rooted_path [backup_dir i] = ''/backup'' @ nat_string i"
    by (simp add: rooted_path_def backup_dir_def BACKUP_PREFIX_PATH_def)
  have path: "rooted_path (backup_dir i # ts) = ''/backup'' @ nat_string i @ concat (map (\<lambda>e. CHR ''/'' # e) ts)" for ts
  proof -
    have "x @ concat (map (\<lambda>e. CHR ''/'' # e) ts) = strings_Join (x # ts) ''/''" for x
      by (induction ts arbitrary: x) (simp_all add: strings_Join_Cons strings_Join_Cons_head)
    from this [of "backup_dir i"] show ?thesis
      by (simp add: rooted_path_def) (simp add: backup_dir_def BACKUP_PREFIX_PATH_def)
  qed
  show ?thesis
    using m(1-3) assms(1)
    by (intro bexI [OF _ m(1)]) (simp add: GetVolumeMounts_nth p dir path)
qed

text \<open>A container that mounts its data under /data and its logs under /var/log.\<close>

definition mount_at :: "string \<Rightarrow> string \<Rightarrow> volume_mount" where
  "mount_at n p = \<lparr>vm_Name = n, vm_ReadOnly = False, vm_MountPath = p, vm_SubPath = ''''\<rparr>"

definition mounted_container :: "volume_mount list \<Rightarrow> container" where
  "mounted_container vms = \<lparr>ct_Name = ''apache'', ct_Image = ''httpd'', ct_Args = [], ct_Env = [],
     ct_VolumeMounts = vms, ct_Privileged = None\<rparr>"

lemma sample_path_elems:
  "clean_elems ''/data/www'' = [''data'', ''www'']" "clean_elems ''/data'' = [''data'']"
  "clean_elems ''/var/log'' = [''var'', ''log'']" "filepath_Clean ''/data'' = ''/data''"
  "filepath_Clean ''/var/log'' = ''/var/log''"
  by code_simp+

theorem sidecar_path_is_below_the_deepest_mount_witness:
  "fst (GetVolumeMounts (mounted_container [mount_at ''data'' ''/data'', mount_at ''logs'' ''/var/log''])
     ((sample_container ''apache'')\<lparr>tc_Paths := [''/data/www'']\<rparr>)) ! 0 = ''/backup0/www''"
proof -
  have n: "nat_string 0 = ''0''" by code_simp
  have "\<not> aligned [''data'', ''www''] (mount_at ''logs'' ''/var/log'')"
    by (auto simp: aligned_def mount_elems_def mount_at_def sample_path_elems less_Suc_eq intro!: gr0I)
  then have sep: "separated [''data'', ''www''] [mount_at ''data'' ''/data'', mount_at ''logs'' ''/var/log'']"
    by (simp add: separated_def above_def clean_mount_def mount_elems_def mount_at_def sample_path_elems is_rooted_def)
  show ?thesis
    using sep sidecar_path_is_below_the_deepest_mount [of 0 "(sample_container ''apache'')\<lparr>tc_Paths := [''/data/www'']\<rparr>"
        "mounted_container [mount_at ''data'' ''/data'', mount_at ''logs'' ''/var/log'']"]
    by (simp add: is_rooted_def mounted_container_def sample_path_elems n)
      (simp add: above_def mount_elems_def mount_at_def sample_path_elems)
qed

text \<open>
  the search does not check that a mount lies above the path. A container with one volume at
  \<open>/a/b\<close> and a path \<open>/a/c\<close>, which is not on that volume, gets the volume mounted for the sidecar
  all the same, and the sidecar's path leaves the mount: it is \<open>/c\<close>, a directory of the sidecar.
\<close>

theorem sibling_mount_escapes:
  assumes "plain_elem a" and "plain_elem b" and "plain_elem d" and "b \<noteq> d"
    and "ct_VolumeMounts c = [mount_at v (''/'' @ a @ ''/'' @ b)]" and "tc_Paths tc = [''/'' @ a @ ''/'' @ d]"
  shows "GetVolumeMounts c tc = ([''/'' @ d], [\<lparr>vm_Name = v, vm_ReadOnly = True,
    vm_MountPath = ''/backup0'', vm_SubPath = ''''\<rparr>])"
proof -
  let ?base = "rooted_path [a, b]" and ?path = "rooted_path [a, d]"
  have p: "''/'' @ a @ ''/'' @ x = rooted_path [a, x]" for x by (simp add: rooted_path_def)
  have plain: "\<forall>e \<in> set [a, b]. plain_elem e" "\<forall>e \<in> set [a, d]. plain_elem e" using assms by simp_all
  have split: "strings_Split ?base (CHR ''/'') = ['''', a, b]" "strings_Split ?path (CHR ''/'') = ['''', a, d]"
    using split_rooted_path [OF _ plain(1)] split_rooted_path [OF _ plain(2)] by simp_all
  have ne: "?base \<noteq> ?path" using rooted_path_inject [OF plain] assms(4) by auto
  have b: "b \<noteq> ''..''" using assms(2) by (simp add: plain_elem_def)
  have rel: "filepath_Rel ?base ?path = Some (''../'' @ d)"
    using plain ne assms(4) b by (simp add: filepath_Rel_def)
  have n: "nat_string 0 = ''0''" by code_simp
  have join: "filepath_Join ''/backup0'' (''../'' @ d) = ''/'' @ d"
  proof -
    have "strings_Split (''/backup0/../'' @ d) (CHR ''/'') = ['''', ''backup0'', ''..'', d]"
      using assms(3) by (simp add: plain_elem_def strings_Split_no_sep)
    then have "clean_elems (''/backup0/../'' @ d) = [d]"
      using assms(3) by (simp add: clean_elems_def is_rooted_def) (simp add: clean_step_def)
    then show ?thesis
      by (simp add: filepath_Join_def filepath_Clean_def is_rooted_def)
  qed
  define m where "m = mount_at v ?base"
  have m: "ct_VolumeMounts c = [m]" "vm_MountPath m = ?base" "vm_Name m = v" "vm_SubPath m = ''''"
    using assms(5) unfolding p by (simp_all add: m_def mount_at_def)
  have "path_mount c (0, ?path) = \<lparr>mp_longest = 1, mp_vm = \<lparr>vm_Name = v, vm_ReadOnly = True,
      vm_MountPath = ''/backup0'', vm_SubPath = ''''\<rparr>, mp_sidecarPath = ''/'' @ d\<rparr>"
    using assms(4) plain rel join
    by (simp add: path_mount_def Let_def pick_mount_def m split pick_item_def no_pick_def n
        BACKUP_PREFIX_PATH_def)
  moreover have "tc_Paths tc = [?path]" using assms(6) unfolding p .
  ultimately show ?thesis by (simp add: GetVolumeMounts_def)
qed

theorem sibling_mount_escapes_witness:
  "GetVolumeMounts (mounted_container [mount_at ''cache'' ''/data/cache''])
     ((sample_container ''apache'')\<lparr>tc_Paths := [''/data/www'']\<rparr>) =
   ([''/www''], [\<lparr>vm_Name = ''cache'', vm_ReadOnly = True, vm_MountPath = ''/backup0'', vm_SubPath = ''''\<rparr>])"
  using sibling_mount_escapes [of "''data''" "''cache''" "''www''"
      "mounted_container [mount_at ''cache'' ''/data/cache'']" "''cache''"
      "(sample_container ''apache'')\<lparr>tc_Paths := [''/data/www'']\<rparr>"]
  by (simp add: plain_elem_def mounted_container_def)

text \<open>
  Sharing a volume for several containers. Each call mounts the shared volume in its own
  container and for the sidecar and leaves the other containers alone; the volume is added to the
  pod by the first call only, so that after any call it occurs, and a pod that had it once has it
  once.
\<close>

theorem shared_volume_added_once:
  assumes "GetSharedPath ps i tc = Some (ps', vms)"
  shows "vms = [shared_mount tc] \<and>
    ps_Containers ps' = (ps_Containers ps)[i := (ps_Containers ps ! i)\<lparr>ct_VolumeMounts :=
      ct_VolumeMounts (ps_Containers ps ! i) @ [shared_mount tc]\<rparr>] \<and>
    length (filter (\<lambda>v. vol_Name v = FORMOL_SHARED_VOLUME) (ps_Volumes ps')) =
      max 1 (length (filter (\<lambda>v. vol_Name v = FORMOL_SHARED_VOLUME) (ps_Volumes ps))) \<and>
    filter (\<lambda>v. vol_Name v \<noteq> FORMOL_SHARED_VOLUME) (ps_Volumes ps') =
      filter (\<lambda>v. vol_Name v \<noteq> FORMOL_SHARED_VOLUME) (ps_Volumes ps)"
proof (cases "\<forall>vol \<in> set (ps_Volumes ps). vol_Name vol \<noteq> FORMOL_SHARED_VOLUME")
  case True
  then have "filter (\<lambda>v. vol_Name v = FORMOL_SHARED_VOLUME) (ps_Volumes ps) = []"
    by (simp add: filter_empty_conv)
  with assms True show ?thesis by (auto simp: GetSharedPath_def Let_def split: if_splits)
next
  case False
  then have "filter (\<lambda>v. vol_Name v = FORMOL_SHARED_VOLUME) (ps_Volumes ps) \<noteq> []"
    by (simp add: filter_empty_conv)
  then have "1 \<le> length (filter (\<lambda>v. vol_Name v = FORMOL_SHARED_VOLUME) (ps_Volumes ps))"
    by (cases "filter (\<lambda>v. vol_Name v = FORMOL_SHARED_VOLUME) (ps_Volumes ps)") simp_all
  with assms False show ?thesis by (auto simp: GetSharedPath_def Let_def split: if_splits)
qed

definition sample_pod :: "container list \<Rightarrow> pod_spec" where
  "sample_pod cs = \<lparr>ps_Containers = cs, ps_InitContainers = [], ps_Volumes = [],
     ps_RestartPolicy = ''Always'', ps_ServiceAccountName = '''', ps_ShareProcessNamespace = None\<rparr>"

theorem shared_volume_added_once_witness:
  "\<exists>ps'. GetSharedPath (sample_pod [mounted_container []]) 0 (sample_container ''apache'') =
      Some (ps', [shared_mount (sample_container ''apache'')]) \<and>
    length (filter (\<lambda>v. vol_Name v = FORMOL_SHARED_VOLUME) (ps_Volumes ps')) = 1"
proof -
  obtain ps' vms where g: "GetSharedPath (sample_pod [mounted_container []]) 0 (sample_container ''apache'') = Some (ps', vms)"
    by (simp add: GetSharedPath_def Let_def sample_pod_def)
  from shared_volume_added_once [OF g] g show ?thesis by (simp add: sample_pod_def)
qed

end
