(* ===== verification/Sidecar.thy ===== *)
theory Sidecar
  imports CronJob Common
begin

section \<open>Adding and removing the sidecar (controllers/backupconfiguration_controller_helpers.go)\<close>

text \<open>
  \<open>addSidecar\<close> puts the sidecar container into the pod template of a target and tags the target's
  containers, \<open>DeleteSidecar\<close> takes both out again. The changes to the pod template are pure
  functions here (\<open>add_sidecar\<close>, \<open>restore_pod\<close>); the operations wrap them in the reads and the
  update. In \<open>removeTags\<close> the code writes through a slice that shares its array with the pod
  template; \<open>remove_tag\<close> keeps the array and the length of the template's slice apart.
\<close>

definition TARGETCONTAINER_TAG :: string where
  "TARGETCONTAINER_TAG = ''FORMOL_TARGET''"

definition RESTIC_REPO_VOLUME :: string where
  "RESTIC_REPO_VOLUME = ''restic-volume''"

definition RESTIC_REPO_PATH :: string where
  "RESTIC_REPO_PATH = ''/restic-repo''"

subsection \<open>Removing\<close>

text \<open>
  One matching target container: the array behind \<open>container.Env\<close>, whose slice keeps its full
  length, and the length of the slice stored in the pod template.
\<close>

definition remove_tag :: "env_var list \<times> nat \<Rightarrow> env_var list \<times> nat" where
  "remove_tag st = (case st of (env, n) \<Rightarrow>
    if length env > 1 \<and> ev_Name (last env) = TARGETCONTAINER_TAG then (env, length env - 1)
    else case filter (\<lambda>j. ev_Name (env ! j) = TARGETCONTAINER_TAG) [0..<length env] of
        [] \<Rightarrow> (env, n)
      | j # _ \<Rightarrow> (env[j := last env], length env - 1))"

definition removeTags :: "target \<Rightarrow> container \<Rightarrow> container" where
  "removeTags tg container =
    (let (env, n) = foldl (\<lambda>st tc. if tc_Name tc = ct_Name container then remove_tag st else st)
           (ct_Env container, length (ct_Env container)) (tg_Containers tg)
     in container\<lparr>ct_Env := take n env\<rparr>)"

definition restore_pod :: "target \<Rightarrow> pod_spec \<Rightarrow> pod_spec" where
  "restore_pod tg podSpec =
    (let restoreContainers =
           map (\<lambda>c. c\<lparr>ct_VolumeMounts := filter (\<lambda>vm. vm_Name vm \<noteq> FORMOL_SHARED_VOLUME) (ct_VolumeMounts c)\<rparr>)
             (filter (\<lambda>c. ct_Name c \<noteq> SIDECARCONTAINER_NAME) (ps_Containers podSpec));
         restoreVolumes = filter (\<lambda>v. vol_Name v \<noteq> RESTIC_REPO_VOLUME \<and> vol_Name v \<noteq> FORMOL_SHARED_VOLUME)
             (ps_Volumes podSpec)
     in podSpec\<lparr>ps_Containers := map (removeTags tg) restoreContainers, ps_Volumes := restoreVolumes\<rparr>)"

text \<open>
  \<open>GetTargetObjects\<close> answers nil pointers for a target of kind \<open>Pod\<close>: if the read into the nil
  object succeeds at all, the access to the pod spec panics.
\<close>

definition restore_target :: "'w api \<Rightarrow> backup_configuration \<Rightarrow> target \<Rightarrow> ('w, unit) go" where
  "restore_target A conf tg =
     bind_go (call (api_Workload A (GetTargetObjects (tg_TargetKind tg)) (om_Namespace (bc_Meta conf), tg_TargetName tg)))
       (\<lambda>wl. case GetTargetObjects (tg_TargetKind tg) of
          None \<Rightarrow> panic
        | Some k \<Rightarrow> call (api_Update A (OWorkload k (wl\<lparr>wl_PodSpec := restore_pod tg (wl_PodSpec wl)\<rparr>))))"

definition DeleteSidecar :: "'w api \<Rightarrow> backup_configuration \<Rightarrow> ('w, unit) go" where
  "DeleteSidecar A conf =
     bind_go (call (api_Repo A (om_Namespace (bc_Meta conf), bcs_Repository (bc_Spec conf))))
       (\<lambda>_. for_each (restore_target A conf) (bcs_Targets (bc_Spec conf)))"

subsection \<open>Adding\<close>

definition target_tag :: "container \<Rightarrow> env_var" where
  "target_tag c = \<lparr>ev_Name = TARGETCONTAINER_TAG, ev_Value = ct_Name c, ev_FieldPath = None\<rparr>"

text \<open>
  The body of the inner loop: container \<open>i\<close> of the pod, as it was before the loops, against one
  target container; the state is the pod spec and the sidecar. The index is in range.
\<close>

definition tag_container :: "target \<Rightarrow> nat \<Rightarrow> container \<Rightarrow> pod_spec \<times> container \<Rightarrow> target_container \<Rightarrow>
    pod_spec \<times> container" where
  "tag_container tg i c st tc = (case st of (podSpec, sidecar) \<Rightarrow>
    if tc_Name tc = ct_Name c then
      let podSpec1 = podSpec\<lparr>ps_Containers := (ps_Containers podSpec)[i :=
            (ps_Containers podSpec ! i)\<lparr>ct_Env := ct_Env c @ [target_tag c]\<rparr>]\<rparr>
      in case tg_BackupType tg of
          OnlineKind \<Rightarrow>
            (let (sidecarPaths, vms) = GetVolumeMounts c tc in
             (podSpec1, sidecar\<lparr>ct_Env := ct_Env sidecar @ [\<lparr>ev_Name = ''BACKUP_PATHS'',
                 ev_Value = strings_Join sidecarPaths '':'', ev_FieldPath = None\<rparr>],
               ct_VolumeMounts := vms\<rparr>))
        | JobKind \<Rightarrow>
            (case GetSharedPath podSpec1 i tc of
               None \<Rightarrow> (podSpec1, sidecar)
             | Some (podSpec2, vms) \<Rightarrow> (podSpec2, sidecar\<lparr>ct_VolumeMounts := vms\<rparr>))
        | SnapshotKind \<Rightarrow> (podSpec1, sidecar)
    else (podSpec, sidecar))"

definition tag_containers :: "target \<Rightarrow> pod_spec \<times> container \<Rightarrow> pod_spec \<times> container" where
  "tag_containers tg st =
     foldl (\<lambda>st (i, c). foldl (tag_container tg i c) st (tg_Containers tg)) st
       (enumerate 0 (ps_Containers (fst st)))"

definition add_sidecar :: "backup_configuration \<Rightarrow> target \<Rightarrow> repo \<Rightarrow> pod_spec \<Rightarrow> pod_spec" where
  "add_sidecar conf tg r podSpec =
    (let (podSpec1, sidecar1) = tag_containers tg (podSpec, GetSidecar conf tg);
         (podSpec2, sidecar2) = (case be_Local (rp_Backend r) of
             None \<Rightarrow> (podSpec1, sidecar1)
           | Some src \<Rightarrow>
               (podSpec1\<lparr>ps_Volumes := ps_Volumes podSpec1 @ [\<lparr>vol_Name = RESTIC_REPO_VOLUME, vol_Source = src\<rparr>]\<rparr>,
                sidecar1\<lparr>ct_VolumeMounts := ct_VolumeMounts sidecar1 @ [\<lparr>vm_Name = RESTIC_REPO_VOLUME,
                  vm_ReadOnly = False, vm_MountPath = RESTIC_REPO_PATH, vm_SubPath = ''''\<rparr>]\<rparr>))
     in podSpec2\<lparr>ps_Containers := ps_Containers podSpec2 @ [sidecar2],
                 ps_ShareProcessNamespace := Some True\<rparr>)"

text \<open>\<open>hasSidecar\<close>: the index of the first container with the sidecar's name.\<close>

fun hasSidecar :: "container list \<Rightarrow> nat option" where
  "hasSidecar [] = None"
| "hasSidecar (c # cs) =
    (if ct_Name c = SIDECARCONTAINER_NAME then Some 0 else map_option Suc (hasSidecar cs))"

definition set_image :: "string \<Rightarrow> nat \<Rightarrow> pod_spec \<Rightarrow> pod_spec" where
  "set_image img i podSpec = podSpec\<lparr>ps_Containers := (ps_Containers podSpec)[i :=
     (ps_Containers podSpec ! i)\<lparr>ct_Image := img\<rparr>]\<rparr>"

definition addSidecar :: "'w api \<Rightarrow> string \<Rightarrow> backup_configuration \<Rightarrow> target \<Rightarrow> ('w, unit) go" where
  "addSidecar A ns conf tg =
     bind_go (call (api_Repo A (om_Namespace (bc_Meta conf), bcs_Repository (bc_Spec conf)))) (\<lambda>r.
     bind_go (call (api_Workload A (GetTargetObjects (tg_TargetKind tg)) (om_Namespace (bc_Meta conf), tg_TargetName tg)))
       (\<lambda>wl. case GetTargetObjects (tg_TargetKind tg) of
          None \<Rightarrow> panic
        | Some k \<Rightarrow>
            (case hasSidecar (ps_Containers (wl_PodSpec wl)) of
               Some res \<Rightarrow>
                 if ct_Image (ps_Containers (wl_PodSpec wl) ! res) \<noteq> bcs_Image (bc_Spec conf) then
                   call (api_Update A (OWorkload k (wl\<lparr>wl_PodSpec :=
                     set_image (bcs_Image (bc_Spec conf)) res (wl_PodSpec wl)\<rparr>)))
                 else ret ()
             | None \<Rightarrow>
                 bind_go (createSidecarRBAC A ns (wl_PodSpec wl)) (\<lambda>_.
                   call (api_Update A (OWorkload k (wl\<lparr>wl_PodSpec := add_sidecar conf tg r (wl_PodSpec wl)\<rparr>)))))))"

subsection \<open>What tagging changes\<close>

text \<open>
  \<open>touched b c c'\<close>: \<open>c'\<close> is \<open>c\<close> with the tag appended to its environment if \<open>b\<close>, and with
  shared mounts added.
\<close>

definition touched :: "bool \<Rightarrow> container \<Rightarrow> container \<Rightarrow> bool" where
  "touched b c c' \<longleftrightarrow> ct_Name c' = ct_Name c \<and> ct_Image c' = ct_Image c \<and> ct_Args c' = ct_Args c \<and>
     ct_Privileged c' = ct_Privileged c \<and>
     ct_Env c' = (if b then ct_Env c @ [target_tag c] else ct_Env c) \<and>
     filter (\<lambda>vm. vm_Name vm \<noteq> FORMOL_SHARED_VOLUME) (ct_VolumeMounts c') =
     filter (\<lambda>vm. vm_Name vm \<noteq> FORMOL_SHARED_VOLUME) (ct_VolumeMounts c)"

definition pod_touched :: "(nat \<Rightarrow> bool) \<Rightarrow> pod_spec \<Rightarrow> pod_spec \<Rightarrow> bool" where
  "pod_touched P ps ps' \<longleftrightarrow> ps_InitContainers ps' = ps_InitContainers ps \<and>
     ps_RestartPolicy ps' = ps_RestartPolicy ps \<and> ps_ServiceAccountName ps' = ps_ServiceAccountName ps \<and>
     ps_ShareProcessNamespace ps' = ps_ShareProcessNamespace ps \<and>
     length (ps_Containers ps') = length (ps_Containers ps) \<and>
     (\<forall>j < length (ps_Containers ps). touched (P j) (ps_Containers ps ! j) (ps_Containers ps' ! j)) \<and>
     filter (\<lambda>v. vol_Name v \<noteq> FORMOL_SHARED_VOLUME) (ps_Volumes ps') =
     filter (\<lambda>v. vol_Name v \<noteq> FORMOL_SHARED_VOLUME) (ps_Volumes ps)"

definition is_target :: "target \<Rightarrow> container \<Rightarrow> bool" where
  "is_target tg c \<longleftrightarrow> (\<exists>tc \<in> set (tg_Containers tg). tc_Name tc = ct_Name c)"

lemma pod_touched_refl: "pod_touched (\<lambda>_. False) ps ps"
  by (simp add: pod_touched_def touched_def)

lemma pod_touched_cong:
  "pod_touched P ps ps' \<Longrightarrow> (\<And>j. j < length (ps_Containers ps) \<Longrightarrow> P j = Q j) \<Longrightarrow> pod_touched Q ps ps'"
  by (simp add: pod_touched_def)

lemma pod_touched_tag:
  assumes "pod_touched P ps ps'" "i < length (ps_Containers ps)"
  shows "pod_touched (P(i := True)) ps (ps'\<lparr>ps_Containers := (ps_Containers ps')[i :=
    (ps_Containers ps' ! i)\<lparr>ct_Env := ct_Env (ps_Containers ps ! i) @ [target_tag (ps_Containers ps ! i)]\<rparr>]\<rparr>)"
  using assms by (auto simp: pod_touched_def touched_def nth_list_update)

lemma pod_touched_share:
  assumes "pod_touched P ps ps'" "GetSharedPath ps' i tc = Some (ps'', vms)"
  shows "pod_touched P ps ps''"
  using assms
  by (auto simp: GetSharedPath_def Let_def pod_touched_def touched_def nth_list_update shared_mount_def
      split: if_splits)

text \<open>What tagging leaves of the sidecar.\<close>

definition sidecar_core :: "container \<Rightarrow> string \<times> string \<times> string list \<times> bool option" where
  "sidecar_core c = (ct_Name c, ct_Image c, ct_Args c, ct_Privileged c)"

lemma tag_container_touched:
  assumes "pod_touched P ps (fst st)" "i < length (ps_Containers ps)"
  shows "pod_touched (\<lambda>j. P j \<or> j = i \<and> tc_Name tc = ct_Name (ps_Containers ps ! i)) ps
      (fst (tag_container tg i (ps_Containers ps ! i) st tc)) \<and>
    sidecar_core (snd (tag_container tg i (ps_Containers ps ! i) st tc)) = sidecar_core (snd st)"
proof (cases "tc_Name tc = ct_Name (ps_Containers ps ! i)")
  case False
  with assms(1) show ?thesis by (simp add: tag_container_def split: prod.split)
next
  case True
  obtain ps' sc where st: "st = (ps', sc)" by (cases st)
  have eq: "P(i := True) = (\<lambda>j. P j \<or> j = i \<and> tc_Name tc = ct_Name (ps_Containers ps ! i))"
    using True by auto
  note tagged = pod_touched_tag [OF assms(1,2), unfolded eq st fst_conv]
  show ?thesis
    using True tagged pod_touched_share [OF tagged]
    by (auto simp: tag_container_def st Let_def sidecar_core_def split: backup_type.split prod.split option.split)
qed

lemma tag_container_list_touched:
  assumes "pod_touched P ps (fst st)" "i < length (ps_Containers ps)"
  shows "pod_touched (\<lambda>j. P j \<or> j = i \<and> (\<exists>tc \<in> set tcs. tc_Name tc = ct_Name (ps_Containers ps ! i))) ps
      (fst (foldl (tag_container tg i (ps_Containers ps ! i)) st tcs)) \<and>
    sidecar_core (snd (foldl (tag_container tg i (ps_Containers ps ! i)) st tcs)) = sidecar_core (snd st)"
  using assms(1)
proof (induction tcs arbitrary: P st)
  case (Cons tc tcs)
  note step = tag_container_touched [OF Cons.prems assms(2), of tc tg]
  from Cons.IH [OF conjunct1 [OF step]] step show ?case
    by (auto elim: pod_touched_cong)
qed simp

lemma tag_containers_touched:
  "pod_touched (\<lambda>j. is_target tg (ps_Containers ps ! j)) ps (fst (tag_containers tg (ps, sc))) \<and>
   sidecar_core (snd (tag_containers tg (ps, sc))) = sidecar_core sc"
proof -
  have "pod_touched (\<lambda>j. P j \<or> n \<le> j \<and> j < n + length cs \<and> is_target tg (ps_Containers ps ! j)) ps
      (fst (foldl (\<lambda>st (i, c). foldl (tag_container tg i c) st (tg_Containers tg)) st (enumerate n cs))) \<and>
    sidecar_core (snd (foldl (\<lambda>st (i, c). foldl (tag_container tg i c) st (tg_Containers tg)) st (enumerate n cs))) = sidecar_core (snd st)"
    if "pod_touched P ps (fst st)" "\<And>k. k < length cs \<Longrightarrow> n + k < length (ps_Containers ps) \<and> cs ! k = ps_Containers ps ! (n + k)"
    for P n cs st
    using that
  proof (induction cs arbitrary: P n st)
    case (Cons c cs)
    have c: "n < length (ps_Containers ps)" "c = ps_Containers ps ! n" using Cons.prems(2) [of 0] by auto
    have cs: "Suc n + k < length (ps_Containers ps) \<and> cs ! k = ps_Containers ps ! (Suc n + k)" if "k < length cs" for k
      using Cons.prems(2) [of "Suc k"] that by simp
    note step = tag_container_list_touched [OF Cons.prems(1) c(1), of "tg_Containers tg" tg]
    have split: "(P j \<or> n \<le> j \<and> j < n + length (c # cs) \<and> is_target tg (ps_Containers ps ! j)) \<longleftrightarrow>
        ((P j \<or> j = n \<and> is_target tg (ps_Containers ps ! n)) \<or>
         Suc n \<le> j \<and> j < Suc n + length cs \<and> is_target tg (ps_Containers ps ! j))" for j
      by (cases "j = n") auto
    from Cons.IH [OF conjunct1 [OF step], of "Suc n"] cs step show ?case
      unfolding split by (simp add: c(2) is_target_def)
  next
    case Nil
    then show ?case by (auto elim: pod_touched_cong)
  qed
  from this [of "\<lambda>_. False" "(ps, sc)" "ps_Containers ps" 0] show ?thesis
    by (auto simp: tag_containers_def pod_touched_refl elim: pod_touched_cong)
qed

subsection \<open>Removing undoes adding\<close>

text \<open>What the code takes for granted about a pod template it has not touched.\<close>

definition untouched :: "pod_spec \<Rightarrow> bool" where
  "untouched ps \<longleftrightarrow>
     (\<forall>c \<in> set (ps_Containers ps). ct_Name c \<noteq> SIDECARCONTAINER_NAME \<and>
        (\<forall>vm \<in> set (ct_VolumeMounts c). vm_Name vm \<noteq> FORMOL_SHARED_VOLUME) \<and>
        (\<forall>e \<in> set (ct_Env c). ev_Name e \<noteq> TARGETCONTAINER_TAG)) \<and>
     (\<forall>v \<in> set (ps_Volumes ps). vol_Name v \<noteq> FORMOL_SHARED_VOLUME \<and> vol_Name v \<noteq> RESTIC_REPO_VOLUME)"

lemma remove_tag_tagged:
  assumes "ev_Name e = TARGETCONTAINER_TAG"
    and "\<forall>e \<in> set env. ev_Name e \<noteq> TARGETCONTAINER_TAG"
  shows "remove_tag (env @ [e], n) = (env @ [e], length env)"
  using assms by (cases env) (simp_all add: remove_tag_def)

lemma removeTags_touched:
  assumes clean: "\<forall>e \<in> set (ct_Env c). ev_Name e \<noteq> TARGETCONTAINER_TAG"
    and t: "touched (is_target tg c) c c'"
  shows "ct_Env (removeTags tg c') = ct_Env c"
proof -
  let ?f = "\<lambda>st tc. if tc_Name tc = ct_Name c' then remove_tag st else st"
  have name: "ct_Name c' = ct_Name c" using t by (simp add: touched_def)
  show ?thesis
  proof (cases "is_target tg c")
    case False
    then have "\<forall>tc \<in> set (tg_Containers tg). tc_Name tc \<noteq> ct_Name c'" by (auto simp: is_target_def name)
    moreover have "foldl ?f st tcs = st" if "\<forall>tc \<in> set tcs. tc_Name tc \<noteq> ct_Name c'" for st tcs
      using that by (induction tcs) simp_all
    ultimately have "foldl ?f st (tg_Containers tg) = st" for st by blast
    with False t show ?thesis by (simp add: removeTags_def touched_def)
  next
    case True
    let ?env = "ct_Env c @ [target_tag c]"
    have tag: "remove_tag (?env, n) = (?env, length (ct_Env c))" for n
      using clean by (intro remove_tag_tagged) (simp_all add: target_tag_def)
    have "foldl ?f (?env, n) tcs = (?env, if \<exists>tc \<in> set tcs. tc_Name tc = ct_Name c' then length (ct_Env c) else n)" for n tcs
      by (induction tcs arbitrary: n) (simp_all add: tag)
    from this [of _ "tg_Containers tg"] True t show ?thesis
      by (simp add: removeTags_def touched_def is_target_def)
  qed
qed

lemma removeTags_fields:
  "ct_Name (removeTags tg c) = ct_Name c" "ct_Image (removeTags tg c) = ct_Image c"
  "ct_Args (removeTags tg c) = ct_Args c" "ct_Privileged (removeTags tg c) = ct_Privileged c"
  "ct_VolumeMounts (removeTags tg c) = ct_VolumeMounts c"
  by (simp_all add: removeTags_def split: prod.split)

lemma restore_container:
  assumes "touched (is_target tg c) c c'"
    and "\<forall>vm \<in> set (ct_VolumeMounts c). vm_Name vm \<noteq> FORMOL_SHARED_VOLUME"
    and "\<forall>e \<in> set (ct_Env c). ev_Name e \<noteq> TARGETCONTAINER_TAG"
  shows "removeTags tg (c'\<lparr>ct_VolumeMounts := filter (\<lambda>vm. vm_Name vm \<noteq> FORMOL_SHARED_VOLUME) (ct_VolumeMounts c')\<rparr>) = c"
proof -
  let ?c = "c'\<lparr>ct_VolumeMounts := filter (\<lambda>vm. vm_Name vm \<noteq> FORMOL_SHARED_VOLUME) (ct_VolumeMounts c')\<rparr>"
  have "touched (is_target tg c) c ?c" using assms(1) by (simp add: touched_def)
  from removeTags_touched [OF assms(3) this] have "ct_Env (removeTags tg ?c) = ct_Env c" .
  moreover have "filter (\<lambda>vm. vm_Name vm \<noteq> FORMOL_SHARED_VOLUME) (ct_VolumeMounts c) = ct_VolumeMounts c"
    using assms(2) by (simp add: filter_id_conv)
  ultimately show ?thesis
    using assms(1) by (intro container.equality) (simp_all add: removeTags_fields touched_def)
qed

lemma add_sidecar_shape:
  obtains ps1 sc vs where
    "pod_touched (\<lambda>j. is_target tg (ps_Containers ps ! j)) ps ps1"
    "sidecar_core sc = sidecar_core (GetSidecar conf tg)"
    "add_sidecar conf tg r ps = ps1\<lparr>ps_Containers := ps_Containers ps1 @ [sc], ps_Volumes := ps_Volumes ps1 @ vs,
       ps_ShareProcessNamespace := Some True\<rparr>"
    "\<forall>v \<in> set vs. vol_Name v = RESTIC_REPO_VOLUME"
proof -
  obtain ps1 sc where t: "tag_containers tg (ps, GetSidecar conf tg) = (ps1, sc)"
    by (cases "tag_containers tg (ps, GetSidecar conf tg)")
  have touched: "pod_touched (\<lambda>j. is_target tg (ps_Containers ps ! j)) ps ps1"
    and name: "sidecar_core sc = sidecar_core (GetSidecar conf tg)"
    using tag_containers_touched [of tg ps "GetSidecar conf tg"] t by simp_all
  show ?thesis
  proof (cases "be_Local (rp_Backend r)")
    case None
    with t name show ?thesis
      by (intro that [OF touched, of sc "[]"]) (simp_all add: add_sidecar_def sidecar_core_def)
  next
    case (Some src)
    with t name show ?thesis
      by (intro that [OF touched, of "sc\<lparr>ct_VolumeMounts := ct_VolumeMounts sc @ [\<lparr>vm_Name = RESTIC_REPO_VOLUME,
          vm_ReadOnly = False, vm_MountPath = RESTIC_REPO_PATH, vm_SubPath = ''''\<rparr>]\<rparr>"
          "[\<lparr>vol_Name = RESTIC_REPO_VOLUME, vol_Source = src\<rparr>]"])
        (simp_all add: add_sidecar_def sidecar_core_def)
  qed
qed

lemma untouched_restores:
  assumes clean: "untouched ps" and t: "pod_touched (\<lambda>j. is_target tg (ps_Containers ps ! j)) ps ps1"
  shows "map (\<lambda>c. removeTags tg (c\<lparr>ct_VolumeMounts := filter (\<lambda>vm. vm_Name vm \<noteq> FORMOL_SHARED_VOLUME) (ct_VolumeMounts c)\<rparr>))
      (ps_Containers ps1) = ps_Containers ps"
    and "\<forall>c \<in> set (ps_Containers ps1). ct_Name c \<noteq> SIDECARCONTAINER_NAME"
    and "filter (\<lambda>v. vol_Name v \<noteq> RESTIC_REPO_VOLUME \<and> vol_Name v \<noteq> FORMOL_SHARED_VOLUME) (ps_Volumes ps1) = ps_Volumes ps"
proof -
  have len: "length (ps_Containers ps1) = length (ps_Containers ps)"
    and at: "\<And>j. j < length (ps_Containers ps) \<Longrightarrow>
      touched (is_target tg (ps_Containers ps ! j)) (ps_Containers ps ! j) (ps_Containers ps1 ! j)"
    using t by (simp_all add: pod_touched_def)
  show "map (\<lambda>c. removeTags tg (c\<lparr>ct_VolumeMounts := filter (\<lambda>vm. vm_Name vm \<noteq> FORMOL_SHARED_VOLUME) (ct_VolumeMounts c)\<rparr>))
      (ps_Containers ps1) = ps_Containers ps"
  proof (intro nth_equalityI)
    fix i assume "i < length (map (\<lambda>c. removeTags tg (c\<lparr>ct_VolumeMounts :=
        filter (\<lambda>vm. vm_Name vm \<noteq> FORMOL_SHARED_VOLUME) (ct_VolumeMounts c)\<rparr>)) (ps_Containers ps1))"
    then have i: "i < length (ps_Containers ps)" using len by simp
    then have "ps_Containers ps ! i \<in> set (ps_Containers ps)" by simp
    with clean have "\<forall>vm \<in> set (ct_VolumeMounts (ps_Containers ps ! i)). vm_Name vm \<noteq> FORMOL_SHARED_VOLUME"
      "\<forall>e \<in> set (ct_Env (ps_Containers ps ! i)). ev_Name e \<noteq> TARGETCONTAINER_TAG"
      by (simp_all add: untouched_def)
    from restore_container [OF at [OF i] this] i len
    show "map (\<lambda>c. removeTags tg (c\<lparr>ct_VolumeMounts :=
        filter (\<lambda>vm. vm_Name vm \<noteq> FORMOL_SHARED_VOLUME) (ct_VolumeMounts c)\<rparr>)) (ps_Containers ps1) ! i = ps_Containers ps ! i"
      by simp
  qed (use len in simp)
  show "\<forall>c \<in> set (ps_Containers ps1). ct_Name c \<noteq> SIDECARCONTAINER_NAME"
  proof
    fix c assume "c \<in> set (ps_Containers ps1)"
    then obtain j where "j < length (ps_Containers ps)" "c = ps_Containers ps1 ! j"
      using len by (auto simp: in_set_conv_nth)
    with at [of j] clean show "ct_Name c \<noteq> SIDECARCONTAINER_NAME"
      by (simp add: touched_def untouched_def)
  qed
  have "filter (\<lambda>v. vol_Name v \<noteq> RESTIC_REPO_VOLUME \<and> vol_Name v \<noteq> FORMOL_SHARED_VOLUME) (ps_Volumes ps1) =
      filter (\<lambda>v. vol_Name v \<noteq> RESTIC_REPO_VOLUME) (filter (\<lambda>v. vol_Name v \<noteq> FORMOL_SHARED_VOLUME) (ps_Volumes ps1))"
    by (simp add: conj_commute)
  also have "\<dots> = ps_Volumes ps"
    using t clean by (simp add: pod_touched_def untouched_def filter_id_conv)
  finally show "filter (\<lambda>v. vol_Name v \<noteq> RESTIC_REPO_VOLUME \<and> vol_Name v \<noteq> FORMOL_SHARED_VOLUME) (ps_Volumes ps1) = ps_Volumes ps" .
qed

lemma restore_add_sidecar:
  assumes "untouched ps"
  shows "restore_pod tg (add_sidecar conf tg r ps) = ps\<lparr>ps_ShareProcessNamespace := Some True\<rparr>"
proof -
  obtain ps1 sc vs where t: "pod_touched (\<lambda>j. is_target tg (ps_Containers ps ! j)) ps ps1"
    and sc: "sidecar_core sc = sidecar_core (GetSidecar conf tg)"
    and add: "add_sidecar conf tg r ps = ps1\<lparr>ps_Containers := ps_Containers ps1 @ [sc], ps_Volumes := ps_Volumes ps1 @ vs,
       ps_ShareProcessNamespace := Some True\<rparr>"
    and vs: "\<forall>v \<in> set vs. vol_Name v = RESTIC_REPO_VOLUME"
    by (rule add_sidecar_shape)
  have name: "ct_Name sc = SIDECARCONTAINER_NAME" using sc by (simp add: sidecar_core_def GetSidecar_def)
  note u = untouched_restores [OF assms t]
  have "filter (\<lambda>c. ct_Name c \<noteq> SIDECARCONTAINER_NAME) (ps_Containers ps1) = ps_Containers ps1"
    using u(2) by (simp add: filter_id_conv)
  moreover have "filter (\<lambda>v. vol_Name v \<noteq> RESTIC_REPO_VOLUME \<and> vol_Name v \<noteq> FORMOL_SHARED_VOLUME) vs = []"
    using vs by (simp add: filter_empty_conv)
  ultimately show ?thesis
    using t u(1,3) name
    by (intro pod_spec.equality) (simp_all add: restore_pod_def add comp_def pod_touched_def)
qed

subsection \<open>Properties\<close>

text \<open>
  C11: taking the sidecar out undoes putting it in. From a pod template without any of the
  controller's own names, adding the sidecar for a target and then removing it gives the template
  back, with its containers, environments, mounts and volumes in their order, for every kind of
  backup and whatever containers the target names, twice included; only the shared process
  namespace stays switched on.
\<close>

theorem removing_undoes_adding:
  assumes "untouched ps"
  shows "restore_pod tg (add_sidecar conf tg r ps) = ps\<lparr>ps_ShareProcessNamespace := Some True\<rparr>"
  using assms by (rule restore_add_sidecar)

definition sample_repo :: repo where
  "sample_repo = \<lparr>rp_Meta = named_meta ''demo'' ''repo-minio'',
     rp_Backend = \<lparr>be_S3 = None, be_Local = Some (OtherSource ''nfs'')\<rparr>, rp_RepositorySecrets = ''secret''\<rparr>"

definition apache_pod :: pod_spec where
  "apache_pod = sample_pod [mounted_container [mount_at ''data'' ''/data'']]"

lemma apache_pod_untouched: "untouched apache_pod"
  by (simp add: untouched_def apache_pod_def sample_pod_def mounted_container_def mount_at_def
      SIDECARCONTAINER_NAME_def FORMOL_SHARED_VOLUME_def)

theorem removing_undoes_adding_witness:
  "restore_pod (sample_target ''apache'' 2) (add_sidecar (sample_conf [] (sample_policy 1 0))
     (sample_target ''apache'' 2) sample_repo apache_pod) = apache_pod\<lparr>ps_ShareProcessNamespace := Some True\<rparr>"
  by (rule removing_undoes_adding [OF apache_pod_untouched])

text \<open>
  what adding the sidecar does to the pod template. One container is appended, the sidecar of
  the configuration: named \<open>formol\<close>, with the configured image, privileged; every container the
  target names gets its own name as a tag at the end of its environment; all other environments,
  and the names and images of all containers, are kept.
\<close>

theorem adding_tags_the_target_containers:
  "length (ps_Containers (add_sidecar conf tg r ps)) = Suc (length (ps_Containers ps)) \<and>
   sidecar_core (last (ps_Containers (add_sidecar conf tg r ps))) =
     (''formol'', bcs_Image (bc_Spec conf), [''server''], Some True) \<and>
   (\<forall>j < length (ps_Containers ps).
      let c = ps_Containers ps ! j; c' = ps_Containers (add_sidecar conf tg r ps) ! j in
      ct_Name c' = ct_Name c \<and> ct_Image c' = ct_Image c \<and>
      ct_Env c' = (if ct_Name c \<in> tc_Name ` set (tg_Containers tg)
        then ct_Env c @ [\<lparr>ev_Name = ''FORMOL_TARGET'', ev_Value = ct_Name c, ev_FieldPath = None\<rparr>] else ct_Env c))"
proof -
  obtain ps1 sc vs where t: "pod_touched (\<lambda>j. is_target tg (ps_Containers ps ! j)) ps ps1"
    and sc: "sidecar_core sc = sidecar_core (GetSidecar conf tg)"
    and add: "add_sidecar conf tg r ps = ps1\<lparr>ps_Containers := ps_Containers ps1 @ [sc], ps_Volumes := ps_Volumes ps1 @ vs,
       ps_ShareProcessNamespace := Some True\<rparr>"
    by (rule add_sidecar_shape)
  have target: "is_target tg c \<longleftrightarrow> ct_Name c \<in> tc_Name ` set (tg_Containers tg)" for c
    by (force simp: is_target_def)
  have len: "length (ps_Containers ps1) = length (ps_Containers ps)"
    and at: "\<And>j. j < length (ps_Containers ps) \<Longrightarrow>
      touched (is_target tg (ps_Containers ps ! j)) (ps_Containers ps ! j) (ps_Containers ps1 ! j)"
    using t by (simp_all add: pod_touched_def)
  show ?thesis
    using len at sc
    by (simp add: add nth_append touched_def target target_tag_def TARGETCONTAINER_TAG_def Let_def)
      (simp add: sidecar_core_def GetSidecar_def SIDECARCONTAINER_NAME_def)
qed

theorem adding_tags_the_target_containers_witness:
  "map ev_Name (ct_Env (ps_Containers (add_sidecar (sample_conf [] (sample_policy 1 0))
     (sample_target ''apache'' 2) sample_repo apache_pod) ! 0)) = [''FORMOL_TARGET'']"
proof -
  have "ct_Env (ps_Containers (add_sidecar (sample_conf [] (sample_policy 1 0))
     (sample_target ''apache'' 2) sample_repo apache_pod) ! 0) =
     [\<lparr>ev_Name = ''FORMOL_TARGET'', ev_Value = ''apache'', ev_FieldPath = None\<rparr>]"
    using adding_tags_the_target_containers [of "sample_conf [] (sample_policy 1 0)" "sample_target ''apache'' 2"
        sample_repo apache_pod]
    by (simp add: apache_pod_def sample_pod_def mounted_container_def sample_target_def sample_container_def Let_def)
  then show ?thesis by simp
qed

subsection \<open>Adding the sidecar on the cluster\<close>

lemma hasSidecar_Some:
  "hasSidecar cs = Some i \<Longrightarrow> i < length cs \<and> ct_Name (cs ! i) = SIDECARCONTAINER_NAME"
  by (induction cs arbitrary: i) (auto split: if_splits)

lemma hasSidecar_snoc:
  "hasSidecar cs = None \<Longrightarrow> ct_Name c = SIDECARCONTAINER_NAME \<Longrightarrow> hasSidecar (cs @ [c]) = Some (length cs)"
  by (induction cs) (auto split: if_splits)

lemma hasSidecar_names:
  "map ct_Name cs = map ct_Name cs' \<Longrightarrow> hasSidecar cs = hasSidecar cs'"
proof (induction cs arbitrary: cs')
  case (Cons c cs)
  then show ?case by (cases cs') auto
qed simp

definition target_key :: "backup_configuration \<Rightarrow> target \<Rightarrow> object_key" where
  "target_key conf tg = (om_Namespace (bc_Meta conf), tg_TargetName tg)"

definition repo_key :: "backup_configuration \<Rightarrow> object_key" where
  "repo_key conf = (om_Namespace (bc_Meta conf), bcs_Repository (bc_Spec conf))"

text \<open>The pod template after \<open>addSidecar\<close>, and what the operation does to the cluster.\<close>

definition sidecar_pod :: "backup_configuration \<Rightarrow> target \<Rightarrow> repo \<Rightarrow> pod_spec \<Rightarrow> pod_spec" where
  "sidecar_pod conf tg r ps = (case hasSidecar (ps_Containers ps) of
     Some i \<Rightarrow> set_image (bcs_Image (bc_Spec conf)) i ps | None \<Rightarrow> add_sidecar conf tg r ps)"

definition with_sidecar :: "string \<Rightarrow> backup_configuration \<Rightarrow> target \<Rightarrow> repo \<Rightarrow> workload_kind \<Rightarrow> workload \<Rightarrow>
    cluster \<Rightarrow> cluster" where
  "with_sidecar ns conf tg r k wl c =
    (let c' = (if hasSidecar (ps_Containers (wl_PodSpec wl)) = None
         then with_sidecar_rbac ns (service_account_of (wl_PodSpec wl)) c else c)
     in c'\<lparr>cl_Workloads := (cl_Workloads c')((k, target_key conf tg) \<mapsto>
          wl\<lparr>wl_PodSpec := sidecar_pod conf tg r (wl_PodSpec wl)\<rparr>)\<rparr>)"

lemma set_image_same: "ct_Image (ps_Containers ps ! i) = img \<Longrightarrow> set_image img i ps = ps"
proof -
  assume img: "ct_Image (ps_Containers ps ! i) = img"
  have "(ps_Containers ps ! i)\<lparr>ct_Image := img\<rparr> = ps_Containers ps ! i"
    using img by (cases "ps_Containers ps ! i") simp
  then show ?thesis by (simp add: set_image_def)
qed

lemma with_sidecar_same:
  assumes "hasSidecar (ps_Containers (wl_PodSpec wl)) = Some i"
    and "ct_Image (ps_Containers (wl_PodSpec wl) ! i) = bcs_Image (bc_Spec conf)"
    and "cl_Workloads c (k, target_key conf tg) = Some wl"
  shows "with_sidecar ns conf tg r k wl c = c"
proof -
  have "wl\<lparr>wl_PodSpec := sidecar_pod conf tg r (wl_PodSpec wl)\<rparr> = wl"
    using assms(1,2) by (simp add: sidecar_pod_def set_image_same)
  moreover have "(cl_Workloads c)((k, target_key conf tg) \<mapsto> wl) = cl_Workloads c"
    using assms(3) by (simp add: fun_upd_idem)
  ultimately show ?thesis by (simp add: with_sidecar_def assms(1) Let_def del: fun_upd_apply)
qed

lemma hasSidecar_sidecar_pod:
  "\<exists>i. hasSidecar (ps_Containers (sidecar_pod conf tg r ps)) = Some i \<and>
    ct_Image (ps_Containers (sidecar_pod conf tg r ps) ! i) = bcs_Image (bc_Spec conf)"
proof (cases "hasSidecar (ps_Containers ps)")
  case (Some i)
  have "map ct_Name (ps_Containers (set_image img i ps)) = map ct_Name (ps_Containers ps)" for img
    by (simp add: set_image_def map_update list_update_same_conv hasSidecar_Some [OF Some])
  then have "hasSidecar (ps_Containers (set_image img i ps)) = Some i" for img
    using Some hasSidecar_names by metis
  then show ?thesis using hasSidecar_Some [OF Some] by (simp add: sidecar_pod_def Some set_image_def)
next
  case None
  obtain ps1 sc vs where t: "pod_touched (\<lambda>j. is_target tg (ps_Containers ps ! j)) ps ps1"
    and sc: "sidecar_core sc = sidecar_core (GetSidecar conf tg)"
    and add: "add_sidecar conf tg r ps = ps1\<lparr>ps_Containers := ps_Containers ps1 @ [sc], ps_Volumes := ps_Volumes ps1 @ vs,
       ps_ShareProcessNamespace := Some True\<rparr>"
    by (rule add_sidecar_shape)
  have "map ct_Name (ps_Containers ps1) = map ct_Name (ps_Containers ps)"
    using t by (intro nth_equalityI) (auto simp: pod_touched_def touched_def)
  then have "hasSidecar (ps_Containers ps1) = None" using None hasSidecar_names by metis
  with sc hasSidecar_snoc [of "ps_Containers ps1" sc] show ?thesis
    by (simp add: sidecar_pod_def None add sidecar_core_def GetSidecar_def)
qed

lemma addSidecar_run:
  assumes laws: "client_laws A view" and keyed: "well_keyed (view w)"
    and kind: "GetTargetObjects (tg_TargetKind tg) = Some k"
    and r: "cl_Repos (view w) (repo_key conf) = Some r"
    and wl: "cl_Workloads (view w) (k, target_key conf tg) = Some wl"
  shows "\<exists>w'. addSidecar A ns conf tg w = (Ret (), w') \<and> view w' = with_sidecar ns conf tg r k wl (view w)"
proof -
  let ?wl = "wl\<lparr>wl_PodSpec := sidecar_pod conf tg r (wl_PodSpec wl)\<rparr>"
  have reads: "call (api_Repo A (repo_key conf)) w = (Ret r, w)"
    "call (api_Workload A (Some k) (target_key conf tg)) w = (Ret wl, w)"
    by (simp_all add: call_run read_lawsD [OF laws] r wl)
  have key: "meta_key (wl_Meta wl) = target_key conf tg" using well_keyedD(2) [OF keyed wl] .
  have upd: "\<exists>w'. call (api_Update A (OWorkload k ?wl)) w1 = (Ret (), w') \<and>
      view w' = (view w1)\<lparr>cl_Workloads := (cl_Workloads (view w1))((k, target_key conf tg) \<mapsto> ?wl)\<rparr>"
    if "cl_Workloads (view w1) = cl_Workloads (view w)" for w1
    using update_ok [OF laws, of "OWorkload k ?wl" w1] that key wl by (auto simp: dom_def)
  show ?thesis
  proof (cases "hasSidecar (ps_Containers (wl_PodSpec wl))")
    case None
    obtain w1 where w1: "createSidecarRBAC A ns (wl_PodSpec wl) w = (Ret (), w1)"
      "view w1 = with_sidecar_rbac ns (service_account_of (wl_PodSpec wl)) (view w)"
      using createSidecarRBAC_run [OF laws keyed] by blast
    moreover have "cl_Workloads (view w1) = cl_Workloads (view w)" by (simp add: w1(2) with_sidecar_rbac_def)
    then obtain w2 where "call (api_Update A (OWorkload k ?wl)) w1 = (Ret (), w2)"
      "view w2 = (view w1)\<lparr>cl_Workloads := (cl_Workloads (view w1))((k, target_key conf tg) \<mapsto> ?wl)\<rparr>"
      using upd by blast
    ultimately show ?thesis
      using reads kind
      by (simp add: addSidecar_def bind_go_run repo_key_def target_key_def None sidecar_pod_def with_sidecar_def Let_def)
  next
    case (Some i)
    show ?thesis
    proof (cases "ct_Image (ps_Containers (wl_PodSpec wl) ! i) = bcs_Image (bc_Spec conf)")
      case True
      have "with_sidecar ns conf tg r k wl (view w) = view w" by (rule with_sidecar_same [OF Some True wl])
      then show ?thesis
        using reads kind True by (simp add: addSidecar_def bind_go_run repo_key_def target_key_def Some ret_run)
    next
      case False
      from upd [OF refl] obtain w2 where "call (api_Update A (OWorkload k ?wl)) w = (Ret (), w2)"
        "view w2 = (view w)\<lparr>cl_Workloads := (cl_Workloads (view w))((k, target_key conf tg) \<mapsto> ?wl)\<rparr>"
        by blast
      then show ?thesis
        using reads kind False
        by (simp add: addSidecar_def bind_go_run repo_key_def target_key_def Some sidecar_pod_def with_sidecar_def Let_def)
    qed
  qed
qed

lemma well_keyed_with_sidecar:
  assumes "well_keyed c" "cl_Workloads c (k, target_key conf tg) = Some wl"
  shows "well_keyed (with_sidecar ns conf tg r k wl c)"
proof -
  have "well_keyed (with_sidecar_rbac ns sa c)" for sa by (rule well_keyed_sidecar_rbac [OF assms(1)])
  then show ?thesis
    using assms well_keyedD(2) [OF assms] by (auto simp: with_sidecar_def Let_def well_keyed_def)
qed

text \<open>
  adding the sidecar is idempotent and repairs the image. Against a client that obeys its
  laws, with the repository and the workload in place, the operation returns without error, the
  stored workload then has a sidecar with the configured image, and run again it changes nothing.
\<close>

theorem addSidecar_is_idempotent:
  assumes "client_laws A view" and "well_keyed (view w)"
    and "GetTargetObjects (tg_TargetKind tg) = Some k"
    and "cl_Repos (view w) (repo_key conf) = Some r"
    and "cl_Workloads (view w) (k, target_key conf tg) = Some wl"
  shows "\<exists>w1 w2 wl' i. addSidecar A ns conf tg w = (Ret (), w1) \<and> addSidecar A ns conf tg w1 = (Ret (), w2) \<and>
    cl_Workloads (view w1) (k, target_key conf tg) = Some wl' \<and>
    hasSidecar (ps_Containers (wl_PodSpec wl')) = Some i \<and>
    ct_Image (ps_Containers (wl_PodSpec wl') ! i) = bcs_Image (bc_Spec conf) \<and>
    view w2 = view w1"
proof -
  obtain w1 where w1: "addSidecar A ns conf tg w = (Ret (), w1)" "view w1 = with_sidecar ns conf tg r k wl (view w)"
    using addSidecar_run [OF assms] by blast
  let ?wl = "wl\<lparr>wl_PodSpec := sidecar_pod conf tg r (wl_PodSpec wl)\<rparr>"
  have wl1: "cl_Workloads (view w1) (k, target_key conf tg) = Some ?wl" by (simp add: w1(2) with_sidecar_def Let_def)
  have r1: "cl_Repos (view w1) (repo_key conf) = Some r"
    using assms(4) by (simp add: w1(2) with_sidecar_def with_sidecar_rbac_def Let_def)
  have k1: "well_keyed (view w1)" unfolding w1(2) by (rule well_keyed_with_sidecar [OF assms(2,5)])
  obtain i where i: "hasSidecar (ps_Containers (wl_PodSpec ?wl)) = Some i"
    "ct_Image (ps_Containers (wl_PodSpec ?wl) ! i) = bcs_Image (bc_Spec conf)"
    using hasSidecar_sidecar_pod [of conf tg r "wl_PodSpec wl"] by auto
  obtain w2 where w2: "addSidecar A ns conf tg w1 = (Ret (), w2)" "view w2 = with_sidecar ns conf tg r k ?wl (view w1)"
    using addSidecar_run [OF assms(1) k1 assms(3) r1 wl1] by blast
  have "view w2 = view w1" unfolding w2(2) by (rule with_sidecar_same [OF i wl1])
  with w1(1) w2(1) wl1 i show ?thesis by blast
qed

definition demo_conf :: backup_configuration where
  "demo_conf = sample_conf [sample_target ''apache'' 2] (sample_policy 1 0)"

definition demo_cluster :: cluster where
  "demo_cluster = empty_cluster\<lparr>cl_Repos := [(''demo'', ''repo-minio'') \<mapsto> sample_repo],
     cl_Workloads := [(DeploymentWorkload, (''demo'', ''apache'')) \<mapsto>
       \<lparr>wl_Meta = named_meta ''demo'' ''apache'', wl_PodSpec = apache_pod\<rparr>]\<rparr>"

lemma demo_keys: "repo_key demo_conf = (''demo'', ''repo-minio'')"
  "target_key demo_conf (sample_target ''apache'' 2) = (''demo'', ''apache'')"
  "cronjob_key demo_conf = (''demo'', ''backup-backup-demo'')"
  by (simp_all add: repo_key_def target_key_def cronjob_key_def demo_conf_def sample_conf_def
      sample_target_def named_meta_def)

lemma demo_keyed: "well_keyed demo_cluster"
  by (simp add: demo_cluster_def well_keyed_def empty_cluster_def)

theorem addSidecar_is_idempotent_witness:
  "\<exists>w1 w2 wl' i. addSidecar mem_api ''demo'' demo_conf (sample_target ''apache'' 2) demo_cluster = (Ret (), w1) \<and>
    addSidecar mem_api ''demo'' demo_conf (sample_target ''apache'' 2) w1 = (Ret (), w2) \<and>
    cl_Workloads w1 (DeploymentWorkload, target_key demo_conf (sample_target ''apache'' 2)) = Some wl' \<and>
    hasSidecar (ps_Containers (wl_PodSpec wl')) = Some i \<and>
    ct_Image (ps_Containers (wl_PodSpec wl') ! i) = bcs_Image (bc_Spec demo_conf) \<and> w2 = w1"
  by (rule addSidecar_is_idempotent [OF mem_api_laws demo_keyed])
    (simp_all add: demo_keys, simp_all add: demo_cluster_def sample_target_def)

end
