(* ===== verification/BackupConf.thy ===== *)
theory BackupConf
  imports CronJob Sidecar
begin

section \<open>The BackupConfiguration controller (controllers/backupconfiguration_controller.go)\<close>

text \<open>
  \<open>Reconcile\<close> of the backup configuration controller: deletion with its clean-up, the finalizer,
  and the set-up of the cron job, the access rights and the sidecars. It composes the operations
  of theories CronJob, Rbac and Sidecar.
\<close>

definition confFinalizerName :: string where
  "confFinalizerName = ''finalizer.backupconfiguration.formol.desmojim.fr''"

definition with_finalizers :: "string list \<Rightarrow> backup_configuration \<Rightarrow> backup_configuration" where
  "with_finalizers fs conf = conf\<lparr>bc_Meta := (bc_Meta conf)\<lparr>om_Finalizers := fs\<rparr>\<rparr>"

text \<open>The deletion branch. The errors of the three clean-ups are dropped.\<close>

definition releaseConfiguration :: "lib \<Rightarrow> 'w api \<Rightarrow> string \<Rightarrow> backup_configuration \<Rightarrow> ('w, result) go" where
  "releaseConfiguration L A ns conf =
    (if ContainsFinalizer L (om_Finalizers (bc_Meta conf)) confFinalizerName then
       bind_go (ignore_err (DeleteSidecar A conf)) (\<lambda>_.
       bind_go (ignore_err (DeleteCronJob A conf)) (\<lambda>_.
       bind_go (ignore_err (deleteRBAC A ns)) (\<lambda>_.
       bind_go (call (api_Update A (OBackupConfiguration (with_finalizers
           (RemoveFinalizer L (om_Finalizers (bc_Meta conf)) confFinalizerName) conf))))
         (\<lambda>_. ret no_requeue))))
     else ret no_requeue)"

text \<open>The set-up: \<open>ActiveSidecar\<close> is set in the loop, so only when there is a target.\<close>

definition active_status :: "backup_configuration \<Rightarrow> backup_configuration" where
  "active_status conf = conf\<lparr>bc_Status := (bc_Status conf)\<lparr>bct_ActiveCronJob := True,
     bct_ActiveSidecar := (bcs_Targets (bc_Spec conf) \<noteq> [] \<or> bct_ActiveSidecar (bc_Status conf))\<rparr>\<rparr>"

definition setUpConfiguration :: "lib \<Rightarrow> 'w api \<Rightarrow> string \<Rightarrow> backup_configuration \<Rightarrow> ('w, result) go" where
  "setUpConfiguration L A ns conf =
     bind_go (AddCronJob L A conf) (\<lambda>_.
     bind_go (createBSCreatorRBAC A ns) (\<lambda>_.
     bind_go (for_each (addSidecar A ns conf) (bcs_Targets (bc_Spec conf))) (\<lambda>_.
     bind_go (call (api_StatusUpdate A (OBackupConfiguration (active_status conf))))
       (\<lambda>_. ret no_requeue))))"

definition reconcileBackupConfiguration :: "lib \<Rightarrow> 'w api \<Rightarrow> object_key \<Rightarrow> ('w, result) go" where
  "reconcileBackupConfiguration L A req =
     bind_go (try_go (call (api_BackupConfiguration A req))) (\<lambda>got. case got of
       Inl e \<Rightarrow> if IsNotFound e then ret no_requeue else fail e
     | Inr conf \<Rightarrow>
         if \<not> ptr_IsZero (om_DeletionTimestamp (bc_Meta conf)) then releaseConfiguration L A (fst req) conf
         else if \<not> ContainsFinalizer L (om_Finalizers (bc_Meta conf)) confFinalizerName then
           bind_go (call (api_Update A (OBackupConfiguration (with_finalizers
               (AddFinalizer L (om_Finalizers (bc_Meta conf)) confFinalizerName) conf))))
             (\<lambda>_. ret no_requeue)
         else setUpConfiguration L A (fst req) conf)"

subsection \<open>The clean-up cannot panic and does not touch the configuration\<close>

definition no_pod_targets :: "backup_configuration \<Rightarrow> bool" where
  "no_pod_targets conf \<longleftrightarrow> (\<forall>tg \<in> set (bcs_Targets (bc_Spec conf)). tg_TargetKind tg \<noteq> Pod)"

fun touches_conf :: "api_call \<Rightarrow> bool" where
  "touches_conf (CreateCall (OBackupConfiguration _)) = True"
| "touches_conf (UpdateCall (OBackupConfiguration _)) = True"
| "touches_conf (DeleteCall (OBackupConfiguration _)) = True"
| "touches_conf (StatusUpdateCall (OBackupConfiguration _)) = True"
| "touches_conf _ = False"

fun touches_workload :: "api_call \<Rightarrow> bool" where
  "touches_workload (CreateCall (OWorkload _ _)) = True"
| "touches_workload (UpdateCall (OWorkload _ _)) = True"
| "touches_workload (DeleteCall (OWorkload _ _)) = True"
| "touches_workload (StatusUpdateCall (OWorkload _ _)) = True"
| "touches_workload _ = False"

lemma target_kind_known: "tg_TargetKind tg \<noteq> Pod \<Longrightarrow> \<exists>k. GetTargetObjects (tg_TargetKind tg) = Some k"
  by (cases "tg_TargetKind tg") auto

lemma DeleteSidecar_no_panic: "no_pod_targets conf \<Longrightarrow> no_panic (DeleteSidecar A conf)"
  unfolding DeleteSidecar_def
proof (intro no_panic_intros)
  fix tg assume "no_pod_targets conf" "tg \<in> set (bcs_Targets (bc_Spec conf))"
  then obtain k where "GetTargetObjects (tg_TargetKind tg) = Some k"
    using target_kind_known by (auto simp: no_pod_targets_def)
  then show "no_panic (restore_target A conf tg)"
    by (simp add: restore_target_def no_panic_intros)
qed

lemma DeleteCronJob_no_panic: "no_panic (DeleteCronJob A conf)"
  unfolding DeleteCronJob_def by (intro no_panic_intros)

lemma deleteRBAC_no_panic: "no_panic (deleteRBAC A ns)"
  unfolding deleteRBAC_def delete_if_found_def by (intro no_panic_intros)

lemma DeleteSidecar_emits: "emits (\<lambda>c. \<not> touches_conf c) (DeleteSidecar (logged A) conf) (\<lambda>_. True)"
  unfolding DeleteSidecar_def restore_target_def
  by (auto intro!: emits_intros split: option.split)

lemma DeleteCronJob_emits:
  "emits (\<lambda>c. \<not> touches_conf c \<and> \<not> touches_workload c) (DeleteCronJob (logged A) conf) (\<lambda>_. True)"
  unfolding DeleteCronJob_def by (auto intro!: emits_intros)

lemma deleteRBAC_emits:
  "emits (\<lambda>c. \<not> touches_conf c \<and> \<not> touches_workload c) (deleteRBAC (logged A) ns) (\<lambda>_. True)"
  unfolding deleteRBAC_def delete_if_found_def by (auto intro!: emits_intros)

lemma release_log:
  assumes fin: "ContainsFinalizer L (om_Finalizers (bc_Meta conf)) confFinalizerName"
    and ok: "no_pod_targets conf"
    and sidecars: "emits P (DeleteSidecar (logged A) conf) (\<lambda>_. True)"
    and P: "\<And>c. \<not> touches_conf c \<Longrightarrow> \<not> touches_workload c \<Longrightarrow> P c"
  shows "\<exists>l'. snd (snd (releaseConfiguration L (logged A) ns conf (w, l))) =
      l @ l' @ [UpdateCall (OBackupConfiguration (with_finalizers
        (RemoveFinalizer L (om_Finalizers (bc_Meta conf)) confFinalizerName) conf))] \<and> list_all P l'"
proof -
  obtain w1 l1 where 1: "ignore_err (DeleteSidecar (logged A) conf) (w, l) = (Ret (), (w1, l @ l1))" "list_all P l1"
    using ignore_err_returns [OF DeleteSidecar_no_panic [OF ok] sidecars] .
  have "emits P (DeleteCronJob (logged A) conf) (\<lambda>_. True)"
    by (rule emits_weaken [OF DeleteCronJob_emits]) (auto intro: P)
  then obtain w2 l2 where 2: "ignore_err (DeleteCronJob (logged A) conf) (w1, l @ l1) = (Ret (), (w2, (l @ l1) @ l2))"
    "list_all P l2"
    using ignore_err_returns [OF DeleteCronJob_no_panic] by metis
  have "emits P (deleteRBAC (logged A) ns) (\<lambda>_. True)"
    by (rule emits_weaken [OF deleteRBAC_emits]) (auto intro: P)
  then obtain w3 l3 where 3: "ignore_err (deleteRBAC (logged A) ns) (w2, (l @ l1) @ l2) = (Ret (), (w3, ((l @ l1) @ l2) @ l3))"
    "list_all P l3"
    using ignore_err_returns [OF deleteRBAC_no_panic] by metis
  have run: "releaseConfiguration L (logged A) ns conf (w, l) =
      bind_go (call (api_Update (logged A) (OBackupConfiguration (with_finalizers
           (RemoveFinalizer L (om_Finalizers (bc_Meta conf)) confFinalizerName) conf))))
         (\<lambda>_. ret no_requeue) (w3, ((l @ l1) @ l2) @ l3)"
    using fin 1(1) 2(1) 3(1) by (simp add: releaseConfiguration_def bind_go_run)
  show ?thesis
    unfolding run using 1(2) 2(2) 3(2)
    by (intro exI [of _ "l1 @ l2 @ l3"])
      (auto simp: bind_go_def call_def log_call_def ret_def split: prod.split sum.split)
qed

subsection \<open>Properties\<close>

text \<open>The three parts of the clean-up, each with the calls it makes.\<close>

lemma cleanup_appends:
  "appends (DeleteSidecar (logged A) conf)" "appends (DeleteCronJob (logged A) conf)" "appends (deleteRBAC (logged A) ns)"
  unfolding DeleteSidecar_def restore_target_def DeleteCronJob_def deleteRBAC_def delete_if_found_def logged_sel
  by (intro appends_intros)+

lemma DeleteCronJob_log:
  "log_of (DeleteCronJob (logged A) conf) w = GetCall RCronJob (cronjob_key conf) #
     (case fst (api_CronJob A (cronjob_key conf) w) of Inl _ \<Rightarrow> [] | Inr cj \<Rightarrow> [DeleteCall (OCronJob cj)])"
  by (simp add: log_of_def DeleteCronJob_def go_exec split: prod.split sum.split)

definition reads_in_order :: "api_call list \<Rightarrow> ('w \<times> api_call list, unit) go \<Rightarrow> bool" where
  "reads_in_order cs m \<longleftrightarrow> (\<forall>w l. \<exists>w' l'. m (w, l) = (Ret (), (w', l @ l')) \<and> filter (\<lambda>c. \<not> is_write c) l' = cs)"

lemma reads_in_order_bind:
  assumes "reads_in_order cs m" "reads_in_order ds (k ())" shows "reads_in_order (cs @ ds) (bind_go m k)"
  unfolding reads_in_order_def
proof (intro allI)
  fix w l
  obtain w1 l1 where 1: "m (w, l) = (Ret (), (w1, l @ l1))" "filter (\<lambda>c. \<not> is_write c) l1 = cs"
    using assms(1) unfolding reads_in_order_def by blast
  obtain w2 l2 where 2: "k () (w1, l @ l1) = (Ret (), (w2, (l @ l1) @ l2))" "filter (\<lambda>c. \<not> is_write c) l2 = ds"
    using assms(2) unfolding reads_in_order_def by blast
  show "\<exists>w' l'. bind_go m k (w, l) = (Ret (), (w', l @ l')) \<and> filter (\<lambda>c. \<not> is_write c) l' = cs @ ds"
    using 1 2 by (intro exI [of _ w2] exI [of _ "l1 @ l2"]) (simp add: bind_go_run)
qed

lemma reads_in_order_ret: "reads_in_order [] (ret ())"
  by (simp add: reads_in_order_def ret_run)

lemma reads_in_order_drop:
  assumes "\<not> is_write c"
  shows "reads_in_order [c] (delete_if_found (call (log_call c f)) (\<lambda>x. call (log_call (DeleteCall (g x)) (h x))))"
  unfolding reads_in_order_def
proof (intro allI)
  fix w l
  obtain x w1 where f: "f w = (x, w1)" by (cases "f w")
  show "\<exists>w' l'. delete_if_found (call (log_call c f)) (\<lambda>x. call (log_call (DeleteCall (g x)) (h x))) (w, l) =
      (Ret (), (w', l @ l')) \<and> filter (\<lambda>c. \<not> is_write c) l' = [c]"
  proof (cases x)
    case (Inl e)
    with f assms show ?thesis
      by (simp add: delete_if_found_def bind_go_run try_go_run call_log_call ret_run)
  next
    case (Inr a)
    obtain w2 where "ignore_err (call (log_call (DeleteCall (g a)) (h a))) (w1, l @ [c]) = (Ret (), (w2, (l @ [c]) @ [DeleteCall (g a)]))"
      using ignore_log_call [of "DeleteCall (g a)" "h a" w1 "l @ [c]"] by blast
    with f Inr assms show ?thesis
      by (intro exI [of _ w2] exI [of _ "[c, DeleteCall (g a)]"])
        (simp add: delete_if_found_def bind_go_run try_go_run call_log_call)
  qed
qed

lemma deleteRBAC_reads:
  "reads_in_order [GetCall RRoleBinding (ns, ''formol:bs-creator-rolebinding''), GetCall RRoleBinding (ns, ''formol:sidecar-rolebinding''),
     GetCall RRole (ns, ''formol:bs-creator-role''), GetCall RRole (ns, ''formol:sidecar-role''),
     GetCall RServiceAccount (ns, ''bs-creator''), GetCall RClusterRoleBinding (ns, ''formol:sidecar-clusterrolebinding''),
     GetCall RClusterRole (ns, ''formol:sidecar-clusterrole'')] (deleteRBAC (logged A) ns)"
proof -
  have one: "reads_in_order [c] m \<Longrightarrow> reads_in_order cs (k ()) \<Longrightarrow> reads_in_order (c # cs) (bind_go m k)"
    for c cs and m :: "('a \<times> api_call list, unit) go" and k using reads_in_order_bind [of "[c]" m cs k] by simp
  show ?thesis
    unfolding deleteRBAC_def logged_sel rbac_names [symmetric] for_each.simps bind_assoc bind_ret
    by (intro one reads_in_order_drop reads_in_order_ret) simp_all
qed

text \<open>
  C26: a deleted configuration is always released, after the whole clean-up. Whatever the API
  server answers, the reconciliation of a configuration that is being deleted and has the finalizer
  makes, after the read, the calls of \<open>DeleteSidecar\<close>, then those of \<open>DeleteCronJob\<close> from where that
  left the cluster, then those of \<open>deleteRBAC\<close>, also if the ones before ended with an error, and
  last the update that removes the finalizer; no earlier call changes the configuration. So it
  always asks for the repository, asks for the cron job and deletes it if it is there, and asks for
  each of the seven access objects. The targets must not be of kind \<open>Pod\<close>.
\<close>

theorem deletion_always_releases:
  assumes "api_BackupConfiguration A req w = (Inr conf, w1)"
    and "\<not> ptr_IsZero (om_DeletionTimestamp (bc_Meta conf))"
    and "ContainsFinalizer L (om_Finalizers (bc_Meta conf)) confFinalizerName"
    and "no_pod_targets conf"
  shows "\<exists>r2 w2 sidecars r3 w3 cronjob r4 w4 rbac.
    DeleteSidecar (logged A) conf (w1, []) = (r2, (w2, sidecars)) \<and>
    DeleteCronJob (logged A) conf (w2, []) = (r3, (w3, cronjob)) \<and>
    deleteRBAC (logged A) (fst req) (w3, []) = (r4, (w4, rbac)) \<and>
    log_of (reconcileBackupConfiguration L (logged A) req) w =
      GetCall RBackupConfiguration req # sidecars @ cronjob @ rbac @ [UpdateCall (OBackupConfiguration (with_finalizers
        (RemoveFinalizer L (om_Finalizers (bc_Meta conf)) confFinalizerName) conf))] \<and>
    list_all (\<lambda>c. \<not> touches_conf c) (sidecars @ cronjob @ rbac) \<and>
    take 1 sidecars = [GetCall RRepo (om_Namespace (bc_Meta conf), bcs_Repository (bc_Spec conf))] \<and>
    cronjob = GetCall RCronJob (cronjob_key conf) #
      (case fst (api_CronJob A (cronjob_key conf) w2) of Inl _ \<Rightarrow> [] | Inr cj \<Rightarrow> [DeleteCall (OCronJob cj)]) \<and>
    filter (\<lambda>c. \<not> is_write c) rbac =
      [GetCall RRoleBinding (fst req, ''formol:bs-creator-rolebinding''),
       GetCall RRoleBinding (fst req, ''formol:sidecar-rolebinding''),
       GetCall RRole (fst req, ''formol:bs-creator-role''), GetCall RRole (fst req, ''formol:sidecar-role''),
       GetCall RServiceAccount (fst req, ''bs-creator''),
       GetCall RClusterRoleBinding (fst req, ''formol:sidecar-clusterrolebinding''),
       GetCall RClusterRole (fst req, ''formol:sidecar-clusterrole'')]"
proof -
  let ?conf = "with_finalizers (RemoveFinalizer L (om_Finalizers (bc_Meta conf)) confFinalizerName) conf"
  let ?l = "[GetCall RBackupConfiguration req]"
  obtain r2 w2 l2 where 2: "DeleteSidecar (logged A) conf (w1, []) = (r2, (w2, l2))" by (metis prod.collapse)
  obtain r3 w3 l3 where 3: "DeleteCronJob (logged A) conf (w2, []) = (r3, (w3, l3))" by (metis prod.collapse)
  obtain r4 w4 l4 where 4: "deleteRBAC (logged A) (fst req) (w3, []) = (r4, (w4, l4))" by (metis prod.collapse)
  have run: "reconcileBackupConfiguration L (logged A) req (w, []) =
      bind_go (call (api_Update (logged A) (OBackupConfiguration ?conf))) (\<lambda>_. ret no_requeue) (w4, ((?l @ l2) @ l3) @ l4)"
    using assms(1-3) appends_ignored [OF cleanup_appends(1) DeleteSidecar_no_panic [OF assms(4)] 2]
      appends_ignored [OF cleanup_appends(2) DeleteCronJob_no_panic 3] appends_ignored [OF cleanup_appends(3) deleteRBAC_no_panic 4]
    by (simp add: reconcileBackupConfiguration_def releaseConfiguration_def bind_go_run try_go_run call_log_call
        del: append_assoc)
  then have log: "log_of (reconcileBackupConfiguration L (logged A) req) w =
      GetCall RBackupConfiguration req # l2 @ l3 @ l4 @ [UpdateCall (OBackupConfiguration ?conf)]"
    by (auto simp: log_of_def bind_go_def call_def log_call_def ret_def split: prod.split sum.split)
  have "list_all (\<lambda>c. \<not> touches_conf c) l2" using emits_log [OF DeleteSidecar_emits, of A conf w1] by (simp add: 2)
  moreover have "list_all (\<lambda>c. \<not> touches_conf c) l3"
    using emits_log [OF DeleteCronJob_emits, of A conf w2] by (simp add: 3 list_all_iff)
  moreover have "list_all (\<lambda>c. \<not> touches_conf c) l4"
    using emits_log [OF deleteRBAC_emits, of A "fst req" w3] by (simp add: 4 list_all_iff)
  moreover have "take 1 l2 = [GetCall RRepo (om_Namespace (bc_Meta conf), bcs_Repository (bc_Spec conf))]"
  proof -
    let ?c = "GetCall RRepo (om_Namespace (bc_Meta conf), bcs_Repository (bc_Spec conf))"
    have "emits (\<lambda>_. True) (for_each (restore_target (logged A) conf) (bcs_Targets (bc_Spec conf))) (\<lambda>_. True)"
      unfolding restore_target_def logged_sel by (intro emits_intros TrueI)
    from emitsD [OF this] have "\<exists>l'. snd (snd (DeleteSidecar (logged A) conf (w1, []))) = ?c # l'"
      by (cases "api_Repo A (om_Namespace (bc_Meta conf), bcs_Repository (bc_Spec conf)) w1" rule: prod.exhaust, rename_tac x v, case_tac x)
        (simp_all add: DeleteSidecar_def bind_go_run call_log_call, metis append_Cons append_Nil snd_conv)
    with 2 show ?thesis by auto
  qed
  moreover have "l3 = GetCall RCronJob (cronjob_key conf) #
      (case fst (api_CronJob A (cronjob_key conf) w2) of Inl _ \<Rightarrow> [] | Inr cj \<Rightarrow> [DeleteCall (OCronJob cj)])"
    using DeleteCronJob_log [of A conf w2] by (simp add: log_of_def 3)
  moreover have "filter (\<lambda>c. \<not> is_write c) l4 =
      [GetCall RRoleBinding (fst req, ''formol:bs-creator-rolebinding''),
       GetCall RRoleBinding (fst req, ''formol:sidecar-rolebinding''),
       GetCall RRole (fst req, ''formol:bs-creator-role''), GetCall RRole (fst req, ''formol:sidecar-role''),
       GetCall RServiceAccount (fst req, ''bs-creator''),
       GetCall RClusterRoleBinding (fst req, ''formol:sidecar-clusterrolebinding''),
       GetCall RClusterRole (fst req, ''formol:sidecar-clusterrole'')]"
    using deleteRBAC_reads [of "fst req" A, unfolded reads_in_order_def, rule_format, of w3 "[]"] by (auto simp: 4)
  ultimately show ?thesis
    using 2 3 4 log by (intro exI conjI) (assumption | simp)+
qed

definition deleted_conf :: backup_configuration where
  "deleted_conf = demo_conf\<lparr>bc_Meta := (named_meta ''demo'' ''backup-demo'')\<lparr>
     om_Finalizers := [confFinalizerName], om_DeletionTimestamp := Some (utc 5)\<rparr>\<rparr>"

definition deleting_cluster :: "(object_key \<rightharpoonup> repo) \<Rightarrow> cluster" where
  "deleting_cluster rs = demo_cluster\<lparr>cl_Confs := [(''demo'', ''backup-demo'') \<mapsto> deleted_conf], cl_Repos := rs\<rparr>"

lemma deleted_conf_facts:
  "api_BackupConfiguration mem_api (''demo'', ''backup-demo'') (deleting_cluster rs) = (Inr deleted_conf, deleting_cluster rs)"
  "\<not> ptr_IsZero (om_DeletionTimestamp (bc_Meta deleted_conf))"
  "ContainsFinalizer sample_lib (om_Finalizers (bc_Meta deleted_conf)) confFinalizerName"
  "no_pod_targets deleted_conf"
  "RemoveFinalizer sample_lib (om_Finalizers (bc_Meta deleted_conf)) confFinalizerName = []"
  by (simp_all add: read_lawsD [OF mem_api_laws] deleting_cluster_def deleted_conf_def ptr_IsZero_def utc_def
      zero_time_def tm_IsZero_def sample_lib_def no_pod_targets_def demo_conf_def sample_conf_def sample_target_def)

theorem deletion_always_releases_witness:
  "\<exists>sidecars cronjob rbac. log_of (reconcileBackupConfiguration sample_lib (logged mem_api) (''demo'', ''backup-demo'')) (deleting_cluster Map.empty) =
     GetCall RBackupConfiguration (''demo'', ''backup-demo'') # sidecars @ cronjob @ rbac @
       [UpdateCall (OBackupConfiguration (with_finalizers [] deleted_conf))] \<and>
     list_all (\<lambda>c. \<not> touches_conf c) (sidecars @ cronjob @ rbac) \<and> hd cronjob = GetCall RCronJob (cronjob_key deleted_conf)"
proof -
  obtain sidecars cronjob rbac where
    "log_of (reconcileBackupConfiguration sample_lib (logged mem_api) (''demo'', ''backup-demo'')) (deleting_cluster Map.empty) =
       GetCall RBackupConfiguration (''demo'', ''backup-demo'') # sidecars @ cronjob @ rbac @
         [UpdateCall (OBackupConfiguration (with_finalizers [] deleted_conf))]"
    "list_all (\<lambda>c. \<not> touches_conf c) (sidecars @ cronjob @ rbac)" "hd cronjob = GetCall RCronJob (cronjob_key deleted_conf)"
    using deletion_always_releases [OF deleted_conf_facts(1-4), of "Map.empty"] unfolding deleted_conf_facts(5)
    by (metis list.sel(1))
  then show ?thesis by blast
qed

text \<open>
  C40: a configuration deleted after its repository leaves its sidecars behind. If the repository
  cannot be read, the reconciliation of the deletion changes no workload at all, and releases the
  configuration all the same.
\<close>

theorem deletion_without_repository_keeps_sidecars:
  assumes "api_BackupConfiguration A req w = (Inr conf, w1)"
    and "\<not> ptr_IsZero (om_DeletionTimestamp (bc_Meta conf))"
    and "ContainsFinalizer L (om_Finalizers (bc_Meta conf)) confFinalizerName"
    and "no_pod_targets conf" and "\<And>v. \<exists>e v'. api_Repo A (repo_key conf) v = (Inl e, v')"
  shows "list_all (\<lambda>c. \<not> touches_workload c) (log_of (reconcileBackupConfiguration L (logged A) req) w) \<and>
    last (log_of (reconcileBackupConfiguration L (logged A) req) w) = UpdateCall (OBackupConfiguration (with_finalizers
        (RemoveFinalizer L (om_Finalizers (bc_Meta conf)) confFinalizerName) conf))"
proof -
  have "emits (\<lambda>c. \<not> touches_workload c) (DeleteSidecar (logged A) conf) (\<lambda>_. True)"
  proof (rule emitsI)
    fix v l
    obtain e v' where "api_Repo A (repo_key conf) v = (Inl e, v')" using assms(5) by blast
    then show "\<exists>r v' l'. DeleteSidecar (logged A) conf (v, l) = (r, (v', l @ l')) \<and>
        list_all (\<lambda>c. \<not> touches_workload c) l' \<and> (\<forall>a. r = Ret a \<longrightarrow> True)"
      by (simp add: DeleteSidecar_def repo_key_def bind_go_run call_log_call)
  qed
  then obtain l' where "snd (snd (releaseConfiguration L (logged A) (fst req) conf (w1, [GetCall RBackupConfiguration req]))) =
      [GetCall RBackupConfiguration req] @ l' @ [UpdateCall (OBackupConfiguration (with_finalizers
        (RemoveFinalizer L (om_Finalizers (bc_Meta conf)) confFinalizerName) conf))]"
    "list_all (\<lambda>c. \<not> touches_workload c) l'"
    using release_log [OF assms(3,4)] by metis
  moreover have "reconcileBackupConfiguration L (logged A) req (w, []) =
      releaseConfiguration L (logged A) (fst req) conf (w1, [GetCall RBackupConfiguration req])"
    using assms(1,2) by (simp add: reconcileBackupConfiguration_def bind_go_run try_go_run call_log_call)
  ultimately show ?thesis by (simp add: log_of_def)
qed

theorem deletion_without_repository_keeps_sidecars_witness:
  "list_all (\<lambda>c. \<not> touches_workload c) (log_of (reconcileBackupConfiguration sample_lib
     (logged (mem_api\<lparr>api_Repo := (\<lambda>_ c. (Inl NotFound, c))\<rparr>)) (''demo'', ''backup-demo'')) (deleting_cluster Map.empty))"
proof -
  have get: "api_BackupConfiguration (mem_api\<lparr>api_Repo := (\<lambda>_ c. (Inl NotFound, c))\<rparr>) (''demo'', ''backup-demo'')
      (deleting_cluster Map.empty) = (Inr deleted_conf, deleting_cluster Map.empty)"
    using deleted_conf_facts(1) by simp
  show ?thesis
    using deletion_without_repository_keeps_sidecars [OF get deleted_conf_facts(2-4)] by simp
qed

text \<open>
  The finalizer comes first. The reconciliation of a configuration that is not being deleted
  and has no finalizer makes one write, the update that adds it, whatever the API server answers:
  no cron job, right or sidecar is created for a configuration that could vanish without clean-up.
\<close>

theorem finalizer_comes_first:
  assumes "api_BackupConfiguration A req w = (Inr conf, w1)"
    and "ptr_IsZero (om_DeletionTimestamp (bc_Meta conf))"
    and "\<not> ContainsFinalizer L (om_Finalizers (bc_Meta conf)) confFinalizerName"
  shows "log_of (reconcileBackupConfiguration L (logged A) req) w =
    [GetCall RBackupConfiguration req, UpdateCall (OBackupConfiguration (with_finalizers
        (AddFinalizer L (om_Finalizers (bc_Meta conf)) confFinalizerName) conf))]"
  using assms
  by (simp add: log_of_def reconcileBackupConfiguration_def bind_go_run try_go_run call_log_call)
    (auto simp: bind_go_def call_def log_call_def ret_def split: prod.split sum.split)

theorem finalizer_comes_first_witness:
  "log_of (reconcileBackupConfiguration sample_lib (logged mem_api) (''demo'', ''backup-demo''))
     (empty_cluster\<lparr>cl_Confs := [(''demo'', ''backup-demo'') \<mapsto> demo_conf]\<rparr>) =
   [GetCall RBackupConfiguration (''demo'', ''backup-demo''),
    UpdateCall (OBackupConfiguration (with_finalizers [confFinalizerName] demo_conf))]"
  using finalizer_comes_first [of mem_api "(''demo'', ''backup-demo'')"
      "empty_cluster\<lparr>cl_Confs := [(''demo'', ''backup-demo'') \<mapsto> demo_conf]\<rparr>" demo_conf
      "empty_cluster\<lparr>cl_Confs := [(''demo'', ''backup-demo'') \<mapsto> demo_conf]\<rparr>" sample_lib]
  by (simp add: read_lawsD [OF mem_api_laws] ptr_IsZero_def sample_lib_def demo_conf_def sample_conf_def named_meta_def)

subsection \<open>The set-up on the cluster\<close>

text \<open>The workload of a target exists; it has a sidecar with the configured image.\<close>

definition target_present :: "backup_configuration \<Rightarrow> cluster \<Rightarrow> target \<Rightarrow> bool" where
  "target_present conf c tg \<longleftrightarrow> (\<exists>k wl. GetTargetObjects (tg_TargetKind tg) = Some k \<and>
     cl_Workloads c (k, target_key conf tg) = Some wl)"

definition sidecar_ready :: "backup_configuration \<Rightarrow> cluster \<Rightarrow> target \<Rightarrow> bool" where
  "sidecar_ready conf c tg \<longleftrightarrow> (\<exists>k wl i. GetTargetObjects (tg_TargetKind tg) = Some k \<and>
     cl_Workloads c (k, target_key conf tg) = Some wl \<and> hasSidecar (ps_Containers (wl_PodSpec wl)) = Some i \<and>
     ct_Image (ps_Containers (wl_PodSpec wl) ! i) = bcs_Image (bc_Spec conf))"

lemma target_present_mono:
  "target_present conf c tg \<Longrightarrow> dom (cl_Workloads c) \<subseteq> dom (cl_Workloads c') \<Longrightarrow> target_present conf c' tg"
  by (auto simp: target_present_def)

lemma with_sidecar_keeps:
  "cl_Confs (with_sidecar ns conf tg r k wl c) = cl_Confs c"
  "cl_Repos (with_sidecar ns conf tg r k wl c) = cl_Repos c"
  "cl_CronJobs (with_sidecar ns conf tg r k wl c) = cl_CronJobs c"
  "cl_ServiceAccounts (with_sidecar ns conf tg r k wl c) = cl_ServiceAccounts c"
  "cl_Workloads (with_sidecar ns conf tg r k wl c) = (cl_Workloads c)((k, target_key conf tg) \<mapsto>
     wl\<lparr>wl_PodSpec := sidecar_pod conf tg r (wl_PodSpec wl)\<rparr>)"
  by (simp_all add: with_sidecar_def with_sidecar_rbac_def Let_def)

lemma with_sidecar_bs_creator:
  assumes "has_bs_creator ns c" shows "has_bs_creator ns (with_sidecar ns' conf tg r k wl c)"
proof -
  have "has_bs_creator ns (c'\<lparr>cl_Workloads := m\<rparr>) \<longleftrightarrow> has_bs_creator ns c'" for c' m by (simp add: has_bs_creator_def)
  with assms show ?thesis by (simp add: with_sidecar_def Let_def has_bs_creator_sidecar)
qed

lemma with_sidecar_ready:
  assumes "GetTargetObjects (tg_TargetKind tg) = Some k"
  shows "sidecar_ready conf (with_sidecar ns conf tg r k wl c) tg"
    and "sidecar_ready conf c tg' \<Longrightarrow> sidecar_ready conf (with_sidecar ns conf tg r k wl c) tg'"
    and "target_present conf c tg' \<Longrightarrow> target_present conf (with_sidecar ns conf tg r k wl c) tg'"
proof -
  obtain i where i: "hasSidecar (ps_Containers (sidecar_pod conf tg r (wl_PodSpec wl))) = Some i"
    "ct_Image (ps_Containers (sidecar_pod conf tg r (wl_PodSpec wl)) ! i) = bcs_Image (bc_Spec conf)"
    using hasSidecar_sidecar_pod [of conf tg r "wl_PodSpec wl"] by blast
  with assms show "sidecar_ready conf (with_sidecar ns conf tg r k wl c) tg"
    by (simp add: sidecar_ready_def with_sidecar_keeps)
  show "sidecar_ready conf c tg' \<Longrightarrow> sidecar_ready conf (with_sidecar ns conf tg r k wl c) tg'"
    using i by (auto simp: sidecar_ready_def with_sidecar_keeps)
  show "target_present conf c tg' \<Longrightarrow> target_present conf (with_sidecar ns conf tg r k wl c) tg'"
    by (erule target_present_mono) (simp add: with_sidecar_keeps subset_insertI)
qed

text \<open>
  A change of the pod templates of a list of targets, one after the other. On targets that name
  different workloads it changes each template once.
\<close>

definition workload_key :: "backup_configuration \<Rightarrow> target \<Rightarrow> workload_kind \<times> object_key" where
  "workload_key conf tg = (the (GetTargetObjects (tg_TargetKind tg)), target_key conf tg)"

definition on_pod :: "(pod_spec \<Rightarrow> pod_spec) \<Rightarrow> workload \<Rightarrow> workload" where
  "on_pod f wl = wl\<lparr>wl_PodSpec := f (wl_PodSpec wl)\<rparr>"

definition on_targets :: "(target \<Rightarrow> pod_spec \<Rightarrow> pod_spec) \<Rightarrow> backup_configuration \<Rightarrow> target list \<Rightarrow>
    (workload_kind \<times> object_key \<rightharpoonup> workload) \<Rightarrow> (workload_kind \<times> object_key \<rightharpoonup> workload)" where
  "on_targets f conf tgs m =
     foldl (\<lambda>m tg. m(workload_key conf tg := map_option (on_pod (f tg)) (m (workload_key conf tg)))) m tgs"

lemma on_targets_simps:
  "on_targets f conf [] m = m"
  "on_targets f conf (tg # tgs) m =
     on_targets f conf tgs (m(workload_key conf tg := map_option (on_pod (f tg)) (m (workload_key conf tg))))"
  by (simp_all add: on_targets_def)

lemma on_targets_other:
  "k \<notin> workload_key conf ` set tgs \<Longrightarrow> on_targets f conf tgs m k = m k"
  by (induction tgs arbitrary: m) (auto simp: on_targets_simps)

lemma on_targets_at:
  "distinct (map (workload_key conf) tgs) \<Longrightarrow> tg \<in> set tgs \<Longrightarrow>
   on_targets f conf tgs m (workload_key conf tg) = map_option (on_pod (f tg)) (m (workload_key conf tg))"
proof (induction tgs arbitrary: m)
  case (Cons a tgs)
  show ?case
  proof (cases "tg = a")
    case True
    with Cons.prems show ?thesis by (simp add: on_targets_simps on_targets_other)
  next
    case False
    then have tg: "tg \<in> set tgs" using Cons.prems(2) by simp
    then have "workload_key conf tg \<in> workload_key conf ` set tgs" by (rule imageI)
    moreover have "workload_key conf a \<notin> workload_key conf ` set tgs" using Cons.prems(1) by simp
    ultimately have "workload_key conf tg \<noteq> workload_key conf a" by metis
    with tg show ?thesis using Cons.IH Cons.prems(1) by (simp add: on_targets_simps)
  qed
qed simp

lemma on_targets_comp:
  assumes "distinct (map (workload_key conf) tgs)"
    and "\<And>tg wl. tg \<in> set tgs \<Longrightarrow> m (workload_key conf tg) = Some wl \<Longrightarrow>
      g tg (f tg (wl_PodSpec wl)) = h tg (wl_PodSpec wl)"
  shows "on_targets g conf tgs (on_targets f conf tgs m) = on_targets h conf tgs m"
proof
  fix k
  show "on_targets g conf tgs (on_targets f conf tgs m) k = on_targets h conf tgs m k"
  proof (cases "k \<in> workload_key conf ` set tgs")
    case True
    then obtain tg where "tg \<in> set tgs" "k = workload_key conf tg" by blast
    with assms show ?thesis
      by (cases "m k") (simp_all add: on_targets_at on_pod_def)
  next
    case False
    then show ?thesis by (simp add: on_targets_other)
  qed
qed

lemma without_rbac_with_sidecar:
  "without_rbac ns (with_sidecar ns conf tg r k wl c) = (without_rbac ns c)\<lparr>cl_Workloads :=
     (cl_Workloads c)((k, target_key conf tg) \<mapsto> on_pod (sidecar_pod conf tg r) wl)\<rparr>"
proof -
  have "cl_Workloads (with_sidecar_rbac ns sa c) = cl_Workloads c" for sa by (simp add: with_sidecar_rbac_def)
  then show ?thesis by (simp add: with_sidecar_def on_pod_def Let_def)
qed

lemma addSidecars_run:
  assumes laws: "client_laws A view"
    and "well_keyed (view w)" and "cl_Repos (view w) (repo_key conf) = Some r"
    and "\<forall>tg \<in> set tgs. target_present conf (view w) tg"
  shows "\<exists>w'. for_each (addSidecar A ns conf) tgs w = (Ret (), w') \<and>
    (\<forall>tg \<in> set tgs. sidecar_ready conf (view w') tg) \<and>
    (\<forall>tg. sidecar_ready conf (view w) tg \<longrightarrow> sidecar_ready conf (view w') tg) \<and> well_keyed (view w') \<and>
    cl_Confs (view w') = cl_Confs (view w) \<and> cl_CronJobs (view w') = cl_CronJobs (view w) \<and>
    cl_ServiceAccounts (view w') = cl_ServiceAccounts (view w) \<and>
    without_rbac ns (view w') = (without_rbac ns (view w))\<lparr>cl_Workloads :=
      on_targets (\<lambda>tg. sidecar_pod conf tg r) conf tgs (cl_Workloads (view w))\<rparr> \<and>
    ((\<forall>tg \<in> set tgs. sidecar_ready conf (view w) tg) \<longrightarrow> view w' = view w) \<and>
    (has_bs_creator ns' (view w) \<longrightarrow> has_bs_creator ns' (view w'))"
  using assms(2-4)
proof (induction tgs arbitrary: w)
  case Nil
  then show ?case by (simp add: ret_run on_targets_simps without_rbac_def)
next
  case (Cons tg tgs)
  obtain k wl where wl: "GetTargetObjects (tg_TargetKind tg) = Some k"
    "cl_Workloads (view w) (k, target_key conf tg) = Some wl"
    using Cons.prems(3) by (auto simp: target_present_def)
  obtain w1 where w1: "addSidecar A ns conf tg w = (Ret (), w1)" "view w1 = with_sidecar ns conf tg r k wl (view w)"
    using addSidecar_run [OF laws Cons.prems(1) wl(1) Cons.prems(2) wl(2)] by blast
  note keeps = with_sidecar_keeps [of ns conf tg r k wl "view w", folded w1(2)]
  note ready = with_sidecar_ready [OF wl(1), where ns = ns and conf = conf and r = r and wl = wl and c = "view w", folded w1(2)]
  have "well_keyed (view w1)" unfolding w1(2) by (rule well_keyed_with_sidecar [OF Cons.prems(1) wl(2)])
  moreover have "cl_Repos (view w1) (repo_key conf) = Some r" using Cons.prems(2) keeps by simp
  moreover have "\<forall>tg \<in> set tgs. target_present conf (view w1) tg" using Cons.prems(3) ready(3) by simp
  ultimately obtain w' where "for_each (addSidecar A ns conf) tgs w1 = (Ret (), w')"
    "\<forall>tg \<in> set tgs. sidecar_ready conf (view w') tg"
    "\<forall>tg. sidecar_ready conf (view w1) tg \<longrightarrow> sidecar_ready conf (view w') tg" "well_keyed (view w')"
    "cl_Confs (view w') = cl_Confs (view w1)" "cl_CronJobs (view w') = cl_CronJobs (view w1)"
    "cl_ServiceAccounts (view w') = cl_ServiceAccounts (view w1)"
    "without_rbac ns (view w') = (without_rbac ns (view w1))\<lparr>cl_Workloads :=
      on_targets (\<lambda>tg. sidecar_pod conf tg r) conf tgs (cl_Workloads (view w1))\<rparr>"
    "(\<forall>tg \<in> set tgs. sidecar_ready conf (view w1) tg) \<longrightarrow> view w' = view w1"
    "has_bs_creator ns' (view w1) \<longrightarrow> has_bs_creator ns' (view w')"
    using Cons.IH [of w1] by blast
  moreover have "has_bs_creator ns' (view w) \<Longrightarrow> has_bs_creator ns' (view w1)"
    unfolding w1(2) by (rule with_sidecar_bs_creator)
  moreover have "view w1 = view w" if "sidecar_ready conf (view w) tg"
    using that wl with_sidecar_same [of wl _ conf "view w" k tg ns r] by (auto simp: w1(2) sidecar_ready_def)
  moreover have "workload_key conf tg = (k, target_key conf tg)" using wl(1) by (simp add: workload_key_def)
  ultimately show ?case
    using w1(1) keeps ready(1,2) wl(2)
    by (simp add: bind_go_run on_targets_simps without_rbac_with_sidecar [folded w1(2)] w1(2) on_pod_def)
qed

lemma DeleteSidecar_run:
  assumes laws: "client_laws A view"
    and "well_keyed (view w)" and "cl_Repos (view w) (repo_key conf) = Some r"
    and "\<forall>tg \<in> set (bcs_Targets (bc_Spec conf)). target_present conf (view w) tg"
  shows "\<exists>w'. DeleteSidecar A conf w = (Ret (), w') \<and> well_keyed (view w') \<and>
    view w' = (view w)\<lparr>cl_Workloads := on_targets restore_pod conf (bcs_Targets (bc_Spec conf)) (cl_Workloads (view w))\<rparr>"
proof -
  have "\<exists>w'. for_each (restore_target A conf) tgs w1 = (Ret (), w') \<and> well_keyed (view w') \<and>
      view w' = (view w1)\<lparr>cl_Workloads := on_targets restore_pod conf tgs (cl_Workloads (view w1))\<rparr>"
    if "well_keyed (view w1)" "\<forall>tg \<in> set tgs. target_present conf (view w1) tg" for tgs w1
    using that
  proof (induction tgs arbitrary: w1)
    case Nil
    then show ?case by (simp add: ret_run on_targets_simps)
  next
    case (Cons tg tgs)
    obtain k wl where wl: "GetTargetObjects (tg_TargetKind tg) = Some k"
      "cl_Workloads (view w1) (k, target_key conf tg) = Some wl"
      using Cons.prems(2) by (auto simp: target_present_def)
    have key: "meta_key (wl_Meta wl) = target_key conf tg" using well_keyedD(2) [OF Cons.prems(1) wl(2)] .
    have wkey: "workload_key conf tg = (k, target_key conf tg)" using wl(1) by (simp add: workload_key_def)
    obtain w2 where w2: "call (api_Update A (OWorkload k (on_pod (restore_pod tg) wl))) w1 = (Ret (), w2)"
      "view w2 = update_object (OWorkload k (on_pod (restore_pod tg) wl)) (view w1)"
      using update_ok [OF laws, of "OWorkload k (on_pod (restore_pod tg) wl)" w1] wl(2) key
      by (auto simp: dom_def on_pod_def)
    have step: "restore_target A conf tg w1 = (Ret (), w2)"
      using wl w2(1)
      by (simp add: restore_target_def bind_go_run call_run read_lawsD [OF laws] target_key_def on_pod_def)
    have "view w2 = (view w1)\<lparr>cl_Workloads := (cl_Workloads (view w1))((k, target_key conf tg) \<mapsto> on_pod (restore_pod tg) wl)\<rparr>"
      using key by (simp add: w2(2) on_pod_def)
    moreover from this have "dom (cl_Workloads (view w1)) \<subseteq> dom (cl_Workloads (view w2))" by auto
    then have "\<forall>tg \<in> set tgs. target_present conf (view w2) tg"
      using Cons.prems(2) target_present_mono by fastforce
    moreover have "well_keyed (view w2)" using well_keyed_put [OF Cons.prems(1)] by (simp only: w2(2) update_object.simps)
    ultimately show ?case
      using Cons.IH [of w2] step wl(2) by (simp add: bind_go_run on_targets_simps wkey del: fun_upd_apply)
  qed
  from this [OF assms(2,4)] show ?thesis
    using assms(3) by (simp add: DeleteSidecar_def bind_go_run call_run read_lawsD(2) [OF laws] repo_key_def)
qed

lemma set_up_run:
  assumes laws: "client_laws A view" and keyed: "well_keyed (view w)" and owner: "owner_law L"
    and conf: "cl_Confs (view w) req = Some conf"
    and alive: "ptr_IsZero (om_DeletionTimestamp (bc_Meta conf))"
    and fin: "ContainsFinalizer L (om_Finalizers (bc_Meta conf)) confFinalizerName"
    and s: "bcs_Suspend (bc_Spec conf) = Some s"
    and repo: "cl_Repos (view w) (repo_key conf) = Some r"
    and targets: "\<forall>tg \<in> set (bcs_Targets (bc_Spec conf)). target_present conf (view w) tg"
  shows "\<exists>w' cj. reconcileBackupConfiguration L A req w = (Ret no_requeue, w') \<and>
    cl_CronJobs (view w') (cronjob_key conf) = Some cj \<and>
    cj_Schedule cj = bcs_Schedule (bc_Spec conf) \<and> cj_Suspend cj = Some s \<and>
    cl_ServiceAccounts (view w') (fst req, FORMOL_BS_CREATOR_SA) \<noteq> None \<and>
    (\<forall>tg \<in> set (bcs_Targets (bc_Spec conf)). sidecar_ready conf (view w') tg) \<and>
    cl_Confs (view w') req = Some (active_status conf) \<and>
    meta_key (cj_Meta cj) = cronjob_key conf \<and> well_keyed (view w') \<and> has_bs_creator (fst req) (view w') \<and>
    (\<forall>cj0. cl_CronJobs (view w) (cronjob_key conf) = Some cj0 \<longrightarrow>
      cj = cj0\<lparr>cj_Schedule := bcs_Schedule (bc_Spec conf), cj_Suspend := Some s\<rparr>) \<and>
    without_rbac (fst req) (view w') = (without_rbac (fst req) (view w))\<lparr>
      cl_Confs := (cl_Confs (view w))(req \<mapsto> active_status conf),
      cl_Workloads := on_targets (\<lambda>tg. sidecar_pod conf tg r) conf (bcs_Targets (bc_Spec conf)) (cl_Workloads (view w)),
      cl_CronJobs := (cl_CronJobs (view w))(cronjob_key conf \<mapsto> cj)\<rparr> \<and>
    ((\<forall>tg \<in> set (bcs_Targets (bc_Spec conf)). sidecar_ready conf (view w) tg) \<longrightarrow>
      view w' = (with_bs_creator (fst req) (view w))\<lparr>cl_Confs := (cl_Confs (view w))(req \<mapsto> active_status conf),
        cl_CronJobs := (cl_CronJobs (view w))(cronjob_key conf \<mapsto> cj)\<rparr>)"
proof -
  have key: "meta_key (bc_Meta conf) = req" using well_keyedD(1) [OF keyed conf] .
  obtain w1 cj where w1: "AddCronJob L A conf w = (Ret (), w1)"
    "view w1 = (view w)\<lparr>cl_CronJobs := (cl_CronJobs (view w))(cronjob_key conf \<mapsto> cj)\<rparr>"
    "cj_Schedule cj = bcs_Schedule (bc_Spec conf)" "cj_Suspend cj = Some s" "meta_key (cj_Meta cj) = cronjob_key conf"
    "\<forall>cj0. cl_CronJobs (view w) (cronjob_key conf) = Some cj0 \<longrightarrow>
      cj = cj0\<lparr>cj_Schedule := bcs_Schedule (bc_Spec conf), cj_Suspend := Some s\<rparr>"
    using AddCronJob_run [OF laws keyed owner s] by blast
  have k1: "well_keyed (view w1)" using keyed w1(5) by (auto simp: w1(2) well_keyed_def)
  obtain w2 where w2: "createBSCreatorRBAC A (fst req) w1 = (Ret (), w2)" "view w2 = with_bs_creator (fst req) (view w1)"
    using createBSCreatorRBAC_run [OF laws] by blast
  have k2: "well_keyed (view w2)" unfolding w2(2) by (rule well_keyed_bs_creator [OF k1])
  have same: "cl_Repos (view w2) = cl_Repos (view w)" "cl_Workloads (view w2) = cl_Workloads (view w)"
    "cl_Confs (view w2) = cl_Confs (view w)" "cl_CronJobs (view w2) (cronjob_key conf) = Some cj"
    "cl_ServiceAccounts (view w2) (fst req, FORMOL_BS_CREATOR_SA) \<noteq> None"
    by (simp_all add: w2(2) w1(2) with_bs_creator_def add_missing_def)
  have "\<forall>tg \<in> set (bcs_Targets (bc_Spec conf)). target_present conf (view w2) tg"
    using targets by (simp add: target_present_def same)
  then obtain w3 where w3: "for_each (addSidecar A (fst req) conf) (bcs_Targets (bc_Spec conf)) w2 = (Ret (), w3)"
    "\<forall>tg \<in> set (bcs_Targets (bc_Spec conf)). sidecar_ready conf (view w3) tg"
    "cl_Confs (view w3) = cl_Confs (view w2)" "cl_CronJobs (view w3) = cl_CronJobs (view w2)"
    "cl_ServiceAccounts (view w3) = cl_ServiceAccounts (view w2)" "well_keyed (view w3)"
    "without_rbac (fst req) (view w3) = (without_rbac (fst req) (view w2))\<lparr>cl_Workloads :=
      on_targets (\<lambda>tg. sidecar_pod conf tg r) conf (bcs_Targets (bc_Spec conf)) (cl_Workloads (view w2))\<rparr>"
    "(\<forall>tg \<in> set (bcs_Targets (bc_Spec conf)). sidecar_ready conf (view w2) tg) \<longrightarrow> view w3 = view w2"
    "has_bs_creator (fst req) (view w2) \<longrightarrow> has_bs_creator (fst req) (view w3)"
    using addSidecars_run [OF laws k2, of conf r "bcs_Targets (bc_Spec conf)" "fst req" "fst req"] repo same(1) by auto
  have "meta_key (bc_Meta (active_status conf)) = req" using key by (simp add: active_status_def)
  then obtain w4 where w4: "call (api_StatusUpdate A (OBackupConfiguration (active_status conf))) w3 = (Ret (), w4)"
    "view w4 = (view w3)\<lparr>cl_Confs := (cl_Confs (view w3))(req \<mapsto> active_status conf)\<rparr>"
    using status_update_ok [OF laws, of "OBackupConfiguration (active_status conf)" w3] conf w3(3) same(3)
    by (auto simp: dom_def active_status_def)
  have "try_go (call (api_BackupConfiguration A req)) w = (Ret (Inr conf), w)"
    by (simp add: try_go_run call_run read_lawsD(1) [OF laws] conf)
  then have "reconcileBackupConfiguration L A req w = (Ret no_requeue, w4)"
    using alive fin w1(1) w2(1) w3(1) w4(1)
    by (simp add: reconcileBackupConfiguration_def setUpConfiguration_def bind_go_run ret_run)
  moreover have "\<forall>tg \<in> set (bcs_Targets (bc_Spec conf)). sidecar_ready conf (view w4) tg"
    using w3(2) by (simp add: sidecar_ready_def w4(2))
  moreover have "well_keyed (view w4)" using w3(6) key by (auto simp: w4(2) well_keyed_def active_status_def)
  moreover have "without_rbac (fst req) (view w4) = (without_rbac (fst req) (view w))\<lparr>
      cl_Confs := (cl_Confs (view w))(req \<mapsto> active_status conf),
      cl_Workloads := on_targets (\<lambda>tg. sidecar_pod conf tg r) conf (bcs_Targets (bc_Spec conf)) (cl_Workloads (view w)),
      cl_CronJobs := (cl_CronJobs (view w))(cronjob_key conf \<mapsto> cj)\<rparr>"
    using w3(3,7) same(2,3) w2(2) w1(2) by (simp add: w4(2))
  moreover have "view w4 = (with_bs_creator (fst req) (view w))\<lparr>cl_Confs := (cl_Confs (view w))(req \<mapsto> active_status conf),
      cl_CronJobs := (cl_CronJobs (view w))(cronjob_key conf \<mapsto> cj)\<rparr>"
    if "\<forall>tg \<in> set (bcs_Targets (bc_Spec conf)). sidecar_ready conf (view w) tg"
    using that w3(8) same(3) by (simp add: sidecar_ready_def same(2) w4(2) w2(2) w1(2) with_bs_creator_def)
  moreover have "has_bs_creator (fst req) (view w3)" using w3(9) by (simp add: w2(2))
  then have "has_bs_creator (fst req) (view w4)" by (simp add: w4(2) has_bs_creator_def)
  ultimately show ?thesis
    using w1(3,4,5,6) same(4,5) w3(4,5) by (simp add: w4(2))
qed

text \<open>
  What the deletion leaves of a configuration: nothing, unless other finalizers hold it.
\<close>

definition released :: "lib \<Rightarrow> backup_configuration \<Rightarrow> backup_configuration option" where
  "released L conf = (let fs = RemoveFinalizer L (om_Finalizers (bc_Meta conf)) confFinalizerName in
     if fs = [] then None else Some (with_finalizers fs conf))"

lemma release_run:
  assumes laws: "client_laws A view" and keyed: "well_keyed (view w)"
    and conf: "cl_Confs (view w) req = Some conf"
    and dead: "\<not> ptr_IsZero (om_DeletionTimestamp (bc_Meta conf))"
    and fin: "ContainsFinalizer L (om_Finalizers (bc_Meta conf)) confFinalizerName"
    and repo: "cl_Repos (view w) (repo_key conf) = Some r"
    and targets: "\<forall>tg \<in> set (bcs_Targets (bc_Spec conf)). target_present conf (view w) tg"
    and cj: "cl_CronJobs (view w) (cronjob_key conf) = Some cj"
  shows "\<exists>w'. reconcileBackupConfiguration L A req w = (Ret no_requeue, w') \<and>
    view w' = (without_rbac (fst req) (view w))\<lparr>
      cl_Confs := (cl_Confs (view w))(req := released L conf),
      cl_Workloads := on_targets restore_pod conf (bcs_Targets (bc_Spec conf)) (cl_Workloads (view w)),
      cl_CronJobs := (cl_CronJobs (view w))(cronjob_key conf := None)\<rparr>"
proof -
  let ?conf = "with_finalizers (RemoveFinalizer L (om_Finalizers (bc_Meta conf)) confFinalizerName) conf"
  obtain w1 where w1: "DeleteSidecar A conf w = (Ret (), w1)" "well_keyed (view w1)"
    "view w1 = (view w)\<lparr>cl_Workloads := on_targets restore_pod conf (bcs_Targets (bc_Spec conf)) (cl_Workloads (view w))\<rparr>"
    using DeleteSidecar_run [OF laws keyed repo targets] by blast
  obtain w2 where w2: "DeleteCronJob A conf w1 = (Ret (), w2)"
    "view w2 = (view w1)\<lparr>cl_CronJobs := (cl_CronJobs (view w1))(cronjob_key conf := None)\<rparr>"
    using DeleteCronJob_run [OF laws w1(2), of conf cj] cj by (auto simp: w1(3))
  have "well_keyed (view w2)" unfolding w2(2) by (rule well_keyed_cron_job(2) [OF w1(2)])
  then obtain w3 where w3: "deleteRBAC A (fst req) w2 = (Ret (), w3)" "view w3 = without_rbac (fst req) (view w2)"
    using deleteRBAC_run [OF laws] by blast
  have key: "meta_key (bc_Meta ?conf) = req"
    using well_keyedD(1) [OF keyed conf] by (simp add: with_finalizers_def meta_key_def)
  obtain w4 where w4: "call (api_Update A (OBackupConfiguration ?conf)) w3 = (Ret (), w4)"
    "view w4 = update_object (OBackupConfiguration ?conf) (view w3)"
    using update_ok [OF laws, of "OBackupConfiguration ?conf" w3] key conf
    by (auto simp: w3(2) w2(2) w1(3) dom_def)
  have "try_go (call (api_BackupConfiguration A req)) w = (Ret (Inr conf), w)"
    by (simp add: try_go_run call_run read_lawsD(1) [OF laws] conf)
  then have "reconcileBackupConfiguration L A req w = (Ret no_requeue, w4)"
    using dead fin w1(1) w2(1) w3(1) w4(1)
    by (simp add: reconcileBackupConfiguration_def releaseConfiguration_def bind_go_run ignore_err_run ret_run)
  moreover have "bc_Status ?conf = bc_Status conf" "om_Finalizers (bc_Meta ?conf) =
      RemoveFinalizer L (om_Finalizers (bc_Meta conf)) confFinalizerName"
    by (simp_all add: with_finalizers_def)
  then have "?conf\<lparr>bc_Status := bc_Status conf\<rparr> = ?conf" by (cases ?conf) simp
  ultimately show ?thesis
    using key conf dead by (simp add: w4(2) w3(2) w2(2) w1(3) released_def Let_def with_finalizers_def)
qed

text \<open>
  C22: the set-up completes. Against a client that obeys its laws, with the repository and every
  target's workload in place, one reconciliation of a configuration with the finalizer returns
  without error; then its cron job exists with its schedule and flag, the service account of the
  cron job exists, every target has a sidecar with the configured image, and the stored status
  says so.
\<close>

theorem set_up_completes:
  assumes laws: "client_laws A view" and keyed: "well_keyed (view w)" and owner: "owner_law L"
    and conf: "cl_Confs (view w) req = Some conf"
    and alive: "ptr_IsZero (om_DeletionTimestamp (bc_Meta conf))"
    and fin: "ContainsFinalizer L (om_Finalizers (bc_Meta conf)) confFinalizerName"
    and s: "bcs_Suspend (bc_Spec conf) = Some s"
    and repo: "cl_Repos (view w) (repo_key conf) = Some r"
    and targets: "\<forall>tg \<in> set (bcs_Targets (bc_Spec conf)). target_present conf (view w) tg"
  shows "\<exists>w' cj. reconcileBackupConfiguration L A req w = (Ret no_requeue, w') \<and>
    cl_CronJobs (view w') (cronjob_key conf) = Some cj \<and>
    cj_Schedule cj = bcs_Schedule (bc_Spec conf) \<and> cj_Suspend cj = Some s \<and>
    cl_ServiceAccounts (view w') (fst req, FORMOL_BS_CREATOR_SA) \<noteq> None \<and>
    (\<forall>tg \<in> set (bcs_Targets (bc_Spec conf)). sidecar_ready conf (view w') tg) \<and>
    cl_Confs (view w') req = Some (active_status conf)"
  using set_up_run [OF assms] by blast

definition ready_conf :: backup_configuration where
  "ready_conf = with_finalizers [confFinalizerName] demo_conf"

abbreviation "ready_cluster \<equiv> demo_cluster\<lparr>cl_Confs := [(''demo'', ''backup-demo'') \<mapsto> ready_conf]\<rparr>"

lemma ready_conf_facts:
  "well_keyed ready_cluster" "cl_Confs ready_cluster (''demo'', ''backup-demo'') = Some ready_conf"
  "ptr_IsZero (om_DeletionTimestamp (bc_Meta ready_conf))"
  "ContainsFinalizer sample_lib (om_Finalizers (bc_Meta ready_conf)) confFinalizerName"
  "bcs_Suspend (bc_Spec ready_conf) = Some True" "cl_Repos ready_cluster (repo_key ready_conf) = Some sample_repo"
  "\<forall>tg \<in> set (bcs_Targets (bc_Spec ready_conf)). target_present ready_conf ready_cluster tg"
  "bcs_Targets (bc_Spec ready_conf) = [sample_target ''apache'' 2]" "bcs_Schedule (bc_Spec ready_conf) = ''15 * * * *''"
proof -
  have meta: "bc_Meta ready_conf = (named_meta ''demo'' ''backup-demo'')\<lparr>om_Finalizers := [confFinalizerName]\<rparr>"
    and spec: "bc_Spec ready_conf = bc_Spec demo_conf"
    by (simp_all add: ready_conf_def with_finalizers_def demo_conf_def sample_conf_def)
  show "well_keyed ready_cluster" using demo_keyed by (simp add: well_keyed_def meta meta_key_def named_meta_def)
  show tgs: "bcs_Targets (bc_Spec ready_conf) = [sample_target ''apache'' 2]"
    "bcs_Suspend (bc_Spec ready_conf) = Some True" "bcs_Schedule (bc_Spec ready_conf) = ''15 * * * *''"
    by (simp_all add: spec demo_conf_def sample_conf_def)
  show "cl_Repos ready_cluster (repo_key ready_conf) = Some sample_repo"
    by (simp add: repo_key_def meta spec demo_conf_def sample_conf_def named_meta_def demo_cluster_def)
  show "\<forall>tg \<in> set (bcs_Targets (bc_Spec ready_conf)). target_present ready_conf ready_cluster tg"
    by (simp add: tgs target_present_def target_key_def meta named_meta_def sample_target_def demo_cluster_def)
qed (simp_all add: ready_conf_def with_finalizers_def demo_conf_def sample_conf_def named_meta_def ptr_IsZero_def sample_lib_def)

theorem set_up_completes_witness:
  "\<exists>w' cj. reconcileBackupConfiguration sample_lib mem_api (''demo'', ''backup-demo'')
      (demo_cluster\<lparr>cl_Confs := [(''demo'', ''backup-demo'') \<mapsto> ready_conf]\<rparr>) = (Ret no_requeue, w') \<and>
    cl_CronJobs w' (cronjob_key ready_conf) = Some cj \<and> cj_Schedule cj = ''15 * * * *'' \<and>
    sidecar_ready ready_conf w' (sample_target ''apache'' 2) \<and>
    cl_Confs w' (''demo'', ''backup-demo'') = Some (active_status ready_conf)"
  using set_up_completes [OF mem_api_laws _ sample_lib_owner, of ready_cluster "(''demo'', ''backup-demo'')" ready_conf True sample_repo]
    ready_conf_facts(1-7)
  by (auto simp: ready_conf_facts(8,9))

text \<open>
  C30: the set-up is a fixed point. Under the same conditions the reconciliation that follows the one
  that set a configuration up returns without error and leaves the cluster exactly as it found it:
  no sidecar is added twice, no subject is appended to a binding, and the writes that the code makes
  all the same, of the cron job and of the status, write what is there.
\<close>

theorem set_up_is_a_fixed_point:
  assumes laws: "client_laws A view" and keyed: "well_keyed (view w)" and owner: "owner_law L"
    and conf: "cl_Confs (view w) req = Some conf"
    and alive: "ptr_IsZero (om_DeletionTimestamp (bc_Meta conf))"
    and fin: "ContainsFinalizer L (om_Finalizers (bc_Meta conf)) confFinalizerName"
    and s: "bcs_Suspend (bc_Spec conf) = Some s"
    and repo: "cl_Repos (view w) (repo_key conf) = Some r"
    and targets: "\<forall>tg \<in> set (bcs_Targets (bc_Spec conf)). target_present conf (view w) tg"
  shows "\<exists>w1 w2. reconcileBackupConfiguration L A req w = (Ret no_requeue, w1) \<and>
    reconcileBackupConfiguration L A req w1 = (Ret no_requeue, w2) \<and> view w2 = view w1"
proof -
  let ?conf = "active_status conf"
  have same: "bc_Meta ?conf = bc_Meta conf" "bc_Spec ?conf = bc_Spec conf" "cronjob_key ?conf = cronjob_key conf"
    "repo_key ?conf = repo_key conf" "active_status ?conf = ?conf"
    "target_present ?conf c tg \<longleftrightarrow> target_present conf c tg" "sidecar_ready ?conf c tg \<longleftrightarrow> sidecar_ready conf c tg" for c tg
    by (simp_all add: active_status_def cronjob_key_def repo_key_def target_present_def sidecar_ready_def target_key_def)
  obtain w1 cj where w1: "reconcileBackupConfiguration L A req w = (Ret no_requeue, w1)"
    "cl_CronJobs (view w1) (cronjob_key conf) = Some cj" "cj_Schedule cj = bcs_Schedule (bc_Spec conf)" "cj_Suspend cj = Some s"
    "\<forall>tg \<in> set (bcs_Targets (bc_Spec conf)). sidecar_ready conf (view w1) tg" "cl_Confs (view w1) req = Some ?conf"
    "well_keyed (view w1)" "has_bs_creator (fst req) (view w1)"
    "without_rbac (fst req) (view w1) = (without_rbac (fst req) (view w))\<lparr>
      cl_Confs := (cl_Confs (view w))(req \<mapsto> ?conf),
      cl_Workloads := on_targets (\<lambda>tg. sidecar_pod conf tg r) conf (bcs_Targets (bc_Spec conf)) (cl_Workloads (view w)),
      cl_CronJobs := (cl_CronJobs (view w))(cronjob_key conf \<mapsto> cj)\<rparr>"
    using set_up_run [OF assms] by blast
  have "cl_Repos (view w1) = cl_Repos (view w)"
    using arg_cong [OF w1(9), of cl_Repos] by (simp add: without_rbac_def)
  then have repo1: "cl_Repos (view w1) (repo_key ?conf) = Some r" using repo by (simp add: same)
  have "target_present ?conf (view w1) tg" if "tg \<in> set (bcs_Targets (bc_Spec ?conf))" for tg
  proof -
    have "sidecar_ready conf (view w1) tg" using w1(5) that by (simp add: same(2))
    then show ?thesis unfolding same(6) by (auto simp: target_present_def sidecar_ready_def)
  qed
  then obtain w2 cj2 where w2: "reconcileBackupConfiguration L A req w1 = (Ret no_requeue, w2)"
    "\<forall>cj0. cl_CronJobs (view w1) (cronjob_key ?conf) = Some cj0 \<longrightarrow>
      cj2 = cj0\<lparr>cj_Schedule := bcs_Schedule (bc_Spec ?conf), cj_Suspend := Some s\<rparr>"
    "(\<forall>tg \<in> set (bcs_Targets (bc_Spec ?conf)). sidecar_ready ?conf (view w1) tg) \<longrightarrow>
      view w2 = (with_bs_creator (fst req) (view w1))\<lparr>cl_Confs := (cl_Confs (view w1))(req \<mapsto> active_status ?conf),
        cl_CronJobs := (cl_CronJobs (view w1))(cronjob_key ?conf \<mapsto> cj2)\<rparr>"
    using set_up_run [OF laws w1(7) owner w1(6), of s r] alive fin s repo1 by (auto simp: same)
  have "cj2 = cj" using w2(2) w1(2-4) by (cases cj) (simp add: same)
  moreover have "m(k := m k) = m" for m :: "object_key \<rightharpoonup> cron_job" and k by simp
  ultimately have "view w2 = view w1"
    using w2(3) w1(2,5,6) with_bs_creator_same [OF w1(8)]
    by (simp add: same map_upd_triv)
  with w1(1) w2(1) show ?thesis by blast
qed

theorem set_up_is_a_fixed_point_witness:
  "\<exists>w1 w2. reconcileBackupConfiguration sample_lib mem_api (''demo'', ''backup-demo'')
      (demo_cluster\<lparr>cl_Confs := [(''demo'', ''backup-demo'') \<mapsto> ready_conf]\<rparr>) = (Ret no_requeue, w1) \<and>
    reconcileBackupConfiguration sample_lib mem_api (''demo'', ''backup-demo'') w1 = (Ret no_requeue, w2) \<and> w2 = w1"
  using set_up_is_a_fixed_point [OF mem_api_laws _ sample_lib_owner, of ready_cluster "(''demo'', ''backup-demo'')" ready_conf True sample_repo]
    ready_conf_facts(1-7)
  by blast

end
