(* ===== verification/Access.thy ===== *)
theory Access
  imports BackupConf
begin

section \<open>What the access objects allow\<close>

text \<open>
  Theory Rbac says which roles and bindings the operations leave on the cluster; this theory says
  what that lets the service accounts do, under the documented evaluation of role-based access
  control: a binding gives its subjects what the role it refers to allows, a role binding in its
  namespace, a cluster role binding everywhere. It shows that the grants are exact, and what
  becomes of the access of a configuration when another one in the namespace is deleted.
\<close>

subsection \<open>Evaluation\<close>

definition covers :: "string list \<Rightarrow> string \<Rightarrow> bool" where
  "covers xs x \<longleftrightarrow> x \<in> set xs \<or> ''*'' \<in> set xs"

definition rule_allows :: "string \<Rightarrow> string \<Rightarrow> string \<Rightarrow> policy_rule \<Rightarrow> bool" where
  "rule_allows verb grp res rule \<longleftrightarrow>
     covers (pr_Verbs rule) verb \<and> covers (pr_APIGroups rule) grp \<and> covers (pr_Resources rule) res"

definition role_allows :: "role option \<Rightarrow> string \<Rightarrow> string \<Rightarrow> string \<Rightarrow> bool" where
  "role_allows x verb grp res \<longleftrightarrow>
     (case x of None \<Rightarrow> False | Some ro \<Rightarrow> list_ex (rule_allows verb grp res) (ro_Rules ro))"

text \<open>A service account is its namespace and its name; a subject without namespace is in the binding's.\<close>

definition is_account :: "string \<Rightarrow> object_key \<Rightarrow> subject \<Rightarrow> bool" where
  "is_account ns account s \<longleftrightarrow> sj_Kind s = ''ServiceAccount'' \<and> sj_Name s = snd account \<and>
     (if sj_Namespace s = '''' then ns else sj_Namespace s) = fst account"

definition bound_role :: "cluster \<Rightarrow> string \<Rightarrow> role_ref \<Rightarrow> role option" where
  "bound_role c ns ref =
     (if rr_Kind ref = ''Role'' then cl_Roles c (ns, rr_Name ref) else cl_ClusterRoles c (rr_Name ref))"

definition binding_allows :: "cluster \<Rightarrow> string \<Rightarrow> object_key \<Rightarrow> string \<Rightarrow> string \<Rightarrow> string \<Rightarrow> role_binding \<Rightarrow> bool" where
  "binding_allows c ns account verb grp res b \<longleftrightarrow>
     list_ex (is_account ns account) (rb_Subjects b) \<and> role_allows (bound_role c ns (rb_RoleRef b)) verb grp res"

definition cluster_binding_allows :: "cluster \<Rightarrow> object_key \<Rightarrow> string \<Rightarrow> string \<Rightarrow> string \<Rightarrow> role_binding \<Rightarrow> bool" where
  "cluster_binding_allows c account verb grp res b \<longleftrightarrow>
     list_ex (is_account '''' account) (rb_Subjects b) \<and>
     role_allows (cl_ClusterRoles c (rr_Name (rb_RoleRef b))) verb grp res"

definition authorized :: "cluster \<Rightarrow> object_key \<Rightarrow> string \<Rightarrow> string \<Rightarrow> string \<Rightarrow> string \<Rightarrow> bool" where
  "authorized c account verb grp res ns \<longleftrightarrow>
     (\<exists>n b. cl_RoleBindings c (ns, n) = Some b \<and> binding_allows c ns account verb grp res b) \<or>
     (\<exists>n b. cl_ClusterRoleBindings c n = Some b \<and> cluster_binding_allows c account verb grp res b)"

subsection \<open>One new object\<close>

text \<open>
  The accounts that the bindings of a namespace bind to one of its roles, and those that the
  bindings bind to a cluster role, which need not exist: an API server accepts a binding before
  the role that it refers to.
\<close>

definition bound_to_role :: "cluster \<Rightarrow> string \<Rightarrow> string \<Rightarrow> object_key \<Rightarrow> bool" where
  "bound_to_role c ns role account \<longleftrightarrow>
     (\<exists>n b. cl_RoleBindings c (ns, n) = Some b \<and> rr_Kind (rb_RoleRef b) = ''Role'' \<and> rr_Name (rb_RoleRef b) = role \<and>
        list_ex (is_account ns account) (rb_Subjects b))"

definition bound_to_cluster_role :: "cluster \<Rightarrow> string \<Rightarrow> string \<Rightarrow> object_key \<Rightarrow> bool" where
  "bound_to_cluster_role c ns role account \<longleftrightarrow>
     (\<exists>n b. cl_RoleBindings c (ns, n) = Some b \<and> rr_Kind (rb_RoleRef b) \<noteq> ''Role'' \<and> rr_Name (rb_RoleRef b) = role \<and>
        list_ex (is_account ns account) (rb_Subjects b)) \<or>
     (\<exists>n b. cl_ClusterRoleBindings c n = Some b \<and> rr_Name (rb_RoleRef b) = role \<and>
        list_ex (is_account '''' account) (rb_Subjects b))"

text \<open>What a binding or a role adds to the rights of an account, when it is new.\<close>

lemma authorized_new_role:
  assumes "cl_Roles c (ns, m) = None"
  shows "authorized (c\<lparr>cl_Roles := (cl_Roles c)((ns, m) \<mapsto> ro)\<rparr>) account verb grp res at \<longleftrightarrow>
    authorized c account verb grp res at \<or>
    at = ns \<and> list_ex (rule_allows verb grp res) (ro_Rules ro) \<and> bound_to_role c ns m account"
proof -
  let ?c = "c\<lparr>cl_Roles := (cl_Roles c)((ns, m) \<mapsto> ro)\<rparr>"
  have "binding_allows ?c at account verb grp res b \<longleftrightarrow> binding_allows c at account verb grp res b \<or>
      at = ns \<and> rr_Kind (rb_RoleRef b) = ''Role'' \<and> rr_Name (rb_RoleRef b) = m \<and>
      list_ex (is_account ns account) (rb_Subjects b) \<and> list_ex (rule_allows verb grp res) (ro_Rules ro)" for b
    using assms by (auto simp: binding_allows_def bound_role_def role_allows_def)
  moreover have "cluster_binding_allows ?c account verb grp res = cluster_binding_allows c account verb grp res"
    by (simp add: cluster_binding_allows_def fun_eq_iff)
  ultimately show ?thesis by (auto simp: authorized_def bound_to_role_def)
qed

lemma authorized_new_binding:
  assumes "cl_RoleBindings c (ns, n) = None"
  shows "authorized (c\<lparr>cl_RoleBindings := (cl_RoleBindings c)((ns, n) \<mapsto> b)\<rparr>) account verb grp res at \<longleftrightarrow>
    authorized c account verb grp res at \<or> at = ns \<and> binding_allows c ns account verb grp res b"
proof -
  let ?c = "c\<lparr>cl_RoleBindings := (cl_RoleBindings c)((ns, n) \<mapsto> b)\<rparr>"
  have "binding_allows ?c = binding_allows c" "cluster_binding_allows ?c = cluster_binding_allows c"
    by (simp_all add: binding_allows_def bound_role_def cluster_binding_allows_def fun_eq_iff)
  moreover have "(\<exists>x b'. cl_RoleBindings ?c (at, x) = Some b' \<and> P b') \<longleftrightarrow>
      (\<exists>x b'. cl_RoleBindings c (at, x) = Some b' \<and> P b') \<or> at = ns \<and> P b" for P
    using assms by auto (metis option.distinct(1))
  ultimately show ?thesis by (simp add: authorized_def) blast
qed

lemma authorized_new_cluster_role:
  assumes "cl_ClusterRoles c m = None"
  shows "authorized (c\<lparr>cl_ClusterRoles := (cl_ClusterRoles c)(m \<mapsto> ro)\<rparr>) account verb grp res at \<longleftrightarrow>
    authorized c account verb grp res at \<or>
    list_ex (rule_allows verb grp res) (ro_Rules ro) \<and> bound_to_cluster_role c at m account"
proof -
  let ?c = "c\<lparr>cl_ClusterRoles := (cl_ClusterRoles c)(m \<mapsto> ro)\<rparr>"
  have "binding_allows ?c at account verb grp res b \<longleftrightarrow> binding_allows c at account verb grp res b \<or>
      rr_Kind (rb_RoleRef b) \<noteq> ''Role'' \<and> rr_Name (rb_RoleRef b) = m \<and>
      list_ex (is_account at account) (rb_Subjects b) \<and> list_ex (rule_allows verb grp res) (ro_Rules ro)" for b
    using assms by (auto simp: binding_allows_def bound_role_def role_allows_def)
  moreover have "cluster_binding_allows ?c account verb grp res b \<longleftrightarrow> cluster_binding_allows c account verb grp res b \<or>
      rr_Name (rb_RoleRef b) = m \<and> list_ex (is_account '''' account) (rb_Subjects b) \<and>
      list_ex (rule_allows verb grp res) (ro_Rules ro)" for b
    using assms by (auto simp: cluster_binding_allows_def role_allows_def)
  ultimately show ?thesis by (auto simp: authorized_def bound_to_cluster_role_def)
qed

lemma authorized_new_cluster_binding:
  assumes "cl_ClusterRoleBindings c n = None"
  shows "authorized (c\<lparr>cl_ClusterRoleBindings := (cl_ClusterRoleBindings c)(n \<mapsto> b)\<rparr>) account verb grp res at \<longleftrightarrow>
    authorized c account verb grp res at \<or> cluster_binding_allows c account verb grp res b"
proof -
  let ?c = "c\<lparr>cl_ClusterRoleBindings := (cl_ClusterRoleBindings c)(n \<mapsto> b)\<rparr>"
  have "binding_allows ?c = binding_allows c" "cluster_binding_allows ?c = cluster_binding_allows c"
    by (simp_all add: binding_allows_def bound_role_def cluster_binding_allows_def fun_eq_iff)
  moreover have "(\<exists>x b'. cl_ClusterRoleBindings ?c x = Some b' \<and> P b') \<longleftrightarrow>
      (\<exists>x b'. cl_ClusterRoleBindings c x = Some b' \<and> P b') \<or> P b" for P
    using assms by auto (metis option.distinct(1))
  ultimately show ?thesis by (simp add: authorized_def)
qed

text \<open>Service accounts have no rights by themselves, and a binding to another role does not bind to this one.\<close>

lemma authorized_accounts: "authorized (c\<lparr>cl_ServiceAccounts := sas\<rparr>) = authorized c"
  by (simp add: authorized_def binding_allows_def cluster_binding_allows_def bound_role_def fun_eq_iff)

lemma bound_to_cluster_role_role_binding:
  assumes "rr_Kind (rb_RoleRef b) = ''Role''" "cl_RoleBindings c k = None"
  shows "bound_to_cluster_role (c\<lparr>cl_Roles := rs, cl_RoleBindings := (cl_RoleBindings c)(k \<mapsto> b)\<rparr>) ns role account =
    bound_to_cluster_role c ns role account"
proof -
  have "(\<exists>n b'. (if (ns, n) = k then Some b else cl_RoleBindings c (ns, n)) = Some b' \<and> rr_Kind (rb_RoleRef b') \<noteq> ''Role'' \<and> P b') \<longleftrightarrow>
      (\<exists>n b'. cl_RoleBindings c (ns, n) = Some b' \<and> rr_Kind (rb_RoleRef b') \<noteq> ''Role'' \<and> P b')" for P
    using assms by (metis option.distinct(1) option.inject)
  then show ?thesis by (simp add: bound_to_cluster_role_def fun_upd_def)
qed

subsection \<open>Properties\<close>

text \<open>What the documentation of the two accounts asks for.\<close>

definition creator_rights :: "string \<Rightarrow> string \<Rightarrow> string \<Rightarrow> bool" where
  "creator_rights verb grp res \<longleftrightarrow> grp = ''formol.desmojim.fr'' \<and> res = ''backupsessions'' \<and> verb \<in> set all_verbs"

definition sidecar_rights :: "string \<Rightarrow> string \<Rightarrow> string \<Rightarrow> bool" where
  "sidecar_rights verb grp res \<longleftrightarrow>
     grp = ''apps'' \<and> res = ''deployments'' \<and> verb \<in> {''get'', ''list'', ''watch'', ''update''} \<or>
     grp = ''formol.desmojim.fr'' \<and>
       res \<in> {''restoresessions'', ''backupsessions'', ''backupconfigurations'', ''functions'', ''repoes''} \<and>
       verb \<in> {''get'', ''list'', ''watch''} \<or>
     grp = '''' \<and> res = ''persistentvolumeclaims'' \<and> verb \<in> set all_verbs \<or>
     grp = '''' \<and> res \<in> {''secrets'', ''configmaps''} \<and> verb \<in> {''get'', ''list'', ''watch''} \<or>
     grp = ''batch'' \<and> res = ''jobs'' \<and> verb \<in> set all_verbs \<or>
     grp = ''formol.desmojim.fr'' \<and> res = ''backupsessions/status'' \<and> verb \<in> set all_verbs \<or>
     grp = ''formol.desmojim.fr'' \<and> res = ''restoresessions/status'' \<and> verb \<in> set all_verbs"

definition snapshot_rights :: "string \<Rightarrow> string \<Rightarrow> string \<Rightarrow> bool" where
  "snapshot_rights verb grp res \<longleftrightarrow>
     grp \<in> {'''', ''snapshot.storage.k8s.io''} \<and> res \<in> {''volumesnapshotclasses'', ''persistentvolumes''} \<and>
       verb \<in> {''get'', ''list'', ''watch''} \<or>
     grp = ''snapshot.storage.k8s.io'' \<and> res = ''volumesnapshots'' \<and> verb \<in> set all_verbs"

lemma rule_allows_plain:
  "''*'' \<notin> set vs \<Longrightarrow> ''*'' \<notin> set gs \<Longrightarrow> ''*'' \<notin> set rs \<Longrightarrow>
   rule_allows verb grp res \<lparr>pr_Verbs = vs, pr_APIGroups = gs, pr_Resources = rs\<rparr> \<longleftrightarrow>
     grp \<in> set gs \<and> res \<in> set rs \<and> verb \<in> set vs"
  by (auto simp: rule_allows_def covers_def)

lemma no_star: "''*'' \<notin> set all_verbs"
  by (simp add: all_verbs_def)

lemma role_rights:
  "list_ex (rule_allows verb grp res) (ro_Rules (bs_creator_role ns)) = creator_rights verb grp res"
  "list_ex (rule_allows verb grp res) (ro_Rules (sidecar_role ns)) = sidecar_rights verb grp res"
  "list_ex (rule_allows verb grp res) (ro_Rules sidecar_cluster_role) = snapshot_rights verb grp res"
  by (simp_all add: rule_allows_plain no_star bs_creator_role_def creator_rights_def
      sidecar_role_def sidecar_rights_def sidecar_cluster_role_def snapshot_rights_def)

text \<open>
  C25: the cron job's pods can manage backup sessions, and nothing else changes. Where the role and
  the binding of the session creator do not exist, the operation lets the service account that
  \<open>new_cron_job\<close> gives to its pods do, in the namespace of the configuration, every verb on
  formol's backup sessions, and leaves the rights of every account otherwise as they were. The one
  exception: an account that another binding of the namespace already bound to the missing role
  gets these rights too, since the role exists now.
\<close>

theorem creator_access_is_exact:
  assumes "client_laws A view"
    and "cl_Roles (view w) (ns, ''formol:bs-creator-role'') = None"
    and "cl_RoleBindings (view w) (ns, ''formol:bs-creator-rolebinding'') = None"
  shows "\<exists>w'. createBSCreatorRBAC A ns w = (Ret (), w') \<and>
    (\<forall>account verb grp res at conf. authorized (view w') account verb grp res at \<longleftrightarrow>
      authorized (view w) account verb grp res at \<or>
      at = ns \<and> creator_rights verb grp res \<and>
        (account = (ns, ps_ServiceAccountName (cj_PodSpec (new_cron_job conf))) \<or>
         bound_to_role (view w) ns ''formol:bs-creator-role'' account))"
proof -
  obtain w' where w': "createBSCreatorRBAC A ns w = (Ret (), w')" "view w' = with_bs_creator ns (view w)"
    using createBSCreatorRBAC_run [OF assms(1)] by blast
  have fresh: "cl_Roles (view w) (ns, FORMOL_BS_CREATOR_ROLE) = None"
    "cl_RoleBindings (view w) (ns, FORMOL_BS_CREATOR_ROLEBINDING) = None"
    using assms(2,3) by (simp_all add: rbac_names)
  define c1 where "c1 = (view w)\<lparr>cl_Roles := (cl_Roles (view w))((ns, FORMOL_BS_CREATOR_ROLE) \<mapsto> bs_creator_role ns)\<rparr>"
  have "view w' = c1\<lparr>cl_RoleBindings := (cl_RoleBindings c1)((ns, FORMOL_BS_CREATOR_ROLEBINDING) \<mapsto>
      bs_creator_binding ns)\<rparr>\<lparr>cl_ServiceAccounts := cl_ServiceAccounts (with_bs_creator ns (view w))\<rparr>"
    using fresh by (simp add: w'(2) with_bs_creator_def add_missing_def c1_def)
  then obtain sas where view: "view w' = c1\<lparr>cl_RoleBindings := (cl_RoleBindings c1)((ns, FORMOL_BS_CREATOR_ROLEBINDING) \<mapsto>
      bs_creator_binding ns)\<rparr>\<lparr>cl_ServiceAccounts := sas\<rparr>"
    by blast
  have new: "binding_allows c1 ns account verb grp res (bs_creator_binding ns) \<longleftrightarrow>
      account = (ns, ps_ServiceAccountName (cj_PodSpec (new_cron_job conf))) \<and> creator_rights verb grp res"
    for account verb grp res conf
    by (cases account) (auto simp: binding_allows_def is_account_def bs_creator_binding_def new_cron_job_def bound_role_def
        role_allows_def role_rights c1_def)
  have "cl_RoleBindings c1 (ns, FORMOL_BS_CREATOR_ROLEBINDING) = None" using fresh(2) by (simp add: c1_def)
  note step = authorized_new_binding [OF this, of "bs_creator_binding ns"]
  note role = authorized_new_role [OF fresh(1), where ro = "bs_creator_role ns", folded c1_def, unfolded role_rights]
  have "authorized (view w') account verb grp res at \<longleftrightarrow> authorized (view w) account verb grp res at \<or>
      at = ns \<and> creator_rights verb grp res \<and>
        (account = (ns, ps_ServiceAccountName (cj_PodSpec (new_cron_job conf))) \<or>
         bound_to_role (view w) ns ''formol:bs-creator-role'' account)"
    for account verb grp res at conf
    unfolding rbac_names [symmetric] unfolding view authorized_accounts step new [of account verb grp res conf] role by blast
  with w'(1) show ?thesis by blast
qed

text \<open>On a cluster where a binding of a visitor to the missing role waits for it.\<close>

definition awaiting_binding :: role_binding where
  "awaiting_binding = (bs_creator_binding ''demo'')\<lparr>rb_Meta := named_meta ''demo'' ''visitors'',
     rb_Subjects := [sidecar_subject ''visitor'']\<rparr>"

theorem creator_access_is_exact_witness:
  "\<exists>w'. createBSCreatorRBAC mem_api ''demo'' (empty_cluster\<lparr>cl_RoleBindings := [(''demo'', ''visitors'') \<mapsto> awaiting_binding]\<rparr>) =
      (Ret (), w') \<and>
    authorized w' (''demo'', ''bs-creator'') ''create'' ''formol.desmojim.fr'' ''backupsessions'' ''demo'' \<and>
    authorized w' (''demo'', ''visitor'') ''create'' ''formol.desmojim.fr'' ''backupsessions'' ''demo'' \<and>
    \<not> authorized w' (''demo'', ''default'') ''create'' ''formol.desmojim.fr'' ''backupsessions'' ''demo'' \<and>
    \<not> authorized w' (''demo'', ''bs-creator'') ''get'' '''' ''secrets'' ''demo''"
proof -
  let ?c = "empty_cluster\<lparr>cl_RoleBindings := [(''demo'', ''visitors'') \<mapsto> awaiting_binding]\<rparr>"
  have none: "\<not> authorized ?c account verb grp res at" for account verb grp res at
    by (auto simp: authorized_def empty_cluster_def binding_allows_def bound_role_def role_allows_def split: if_splits)
  have bound: "bound_to_role ?c ''demo'' ''formol:bs-creator-role'' account \<longleftrightarrow> account = (''demo'', ''visitor'')" for account
    by (cases account) (auto simp: bound_to_role_def awaiting_binding_def bs_creator_binding_def rbac_names
        sidecar_subject_def is_account_def split: if_splits)
  have fresh: "cl_Roles ?c (''demo'', ''formol:bs-creator-role'') = None"
    "cl_RoleBindings ?c (''demo'', ''formol:bs-creator-rolebinding'') = None"
    by (simp_all add: empty_cluster_def)
  from creator_access_is_exact [OF mem_api_laws, of ?c "''demo''", OF fresh]
  obtain w' where w': "createBSCreatorRBAC mem_api ''demo'' ?c = (Ret (), w') \<and>
    (\<forall>account verb grp res at conf. authorized w' account verb grp res at \<longleftrightarrow>
      authorized ?c account verb grp res at \<or> at = ''demo'' \<and> creator_rights verb grp res \<and>
      (account = (''demo'', ps_ServiceAccountName (cj_PodSpec (new_cron_job conf))) \<or>
       bound_to_role ?c ''demo'' ''formol:bs-creator-role'' account))" by (elim exE)
  note exact = conjunct2 [OF w', rule_format, of _ _ _ _ _ demo_conf]
  show ?thesis
    by (intro exI [of _ w'] conjI conjunct1 [OF w'])
      (simp_all only: exact none bound, simp_all add: creator_rights_def all_verbs_def new_cron_job_def rbac_names)
qed

text \<open>
  C24: what the access of a sidecar is, exactly. Where the role and the binding of the sidecars do
  not exist in the namespace, the operation gives the pod's service account the documented rights
  there; if there is no cluster role binding of the sidecars yet, it also gives it, everywhere,
  what the cluster role allows, which is the rights on volume snapshots where the operation
  creates that role. Apart from accounts that other bindings already bound to one of the two roles
  while it was missing, which get what the new role allows, nothing else changes. So a sidecar of
  a further namespace, added when the cluster role and its binding exist, gets no right on volume
  snapshots.
\<close>

theorem sidecar_access_is_exact:
  assumes "client_laws A view" and "well_keyed (view w)"
    and "cl_Roles (view w) (ns, ''formol:sidecar-role'') = None"
    and "cl_RoleBindings (view w) (ns, ''formol:sidecar-rolebinding'') = None"
  shows "\<exists>w'. createSidecarRBAC A ns podSpec w = (Ret (), w') \<and>
    (\<forall>account verb grp res at. authorized (view w') account verb grp res at \<longleftrightarrow>
      authorized (view w) account verb grp res at \<or>
      at = ns \<and> sidecar_rights verb grp res \<and>
        (account = (ns, service_account_of podSpec) \<or> bound_to_role (view w) ns ''formol:sidecar-role'' account) \<or>
      cl_ClusterRoles (view w) ''formol:sidecar-clusterrole'' = None \<and> snapshot_rights verb grp res \<and>
        bound_to_cluster_role (view w) at ''formol:sidecar-clusterrole'' account \<or>
      cl_ClusterRoleBindings (view w) ''formol:sidecar-clusterrolebinding'' = None \<and>
        account = (ns, service_account_of podSpec) \<and>
        (case cl_ClusterRoles (view w) ''formol:sidecar-clusterrole'' of None \<Rightarrow> snapshot_rights verb grp res
         | Some r \<Rightarrow> role_allows (Some r) verb grp res))"
proof -
  let ?sa = "service_account_of podSpec"
  obtain w' where w': "createSidecarRBAC A ns podSpec w = (Ret (), w')" "view w' = with_sidecar_rbac ns ?sa (view w)"
    using createSidecarRBAC_run [OF assms(1,2)] by blast
  define c1 where "c1 = (view w)\<lparr>cl_Roles := (cl_Roles (view w))((ns, FORMOL_SIDECAR_ROLE) \<mapsto> sidecar_role ns)\<rparr>"
  define c2 where "c2 = c1\<lparr>cl_RoleBindings := (cl_RoleBindings c1)((ns, FORMOL_SIDECAR_ROLEBINDING) \<mapsto> sidecar_binding ns ?sa)\<rparr>"
  define c3 where "c3 = c2\<lparr>cl_ClusterRoles := add_missing FORMOL_SIDECAR_CLUSTERROLE sidecar_cluster_role (cl_ClusterRoles c2)\<rparr>"
  have fresh: "cl_Roles (view w) (ns, FORMOL_SIDECAR_ROLE) = None"
    "cl_RoleBindings (view w) (ns, FORMOL_SIDECAR_ROLEBINDING) = None"
    using assms(3,4) by (simp_all add: rbac_names)
  have view: "view w' = c3\<lparr>cl_ClusterRoleBindings := add_missing FORMOL_SIDECAR_CLUSTERROLEBINDING
      (sidecar_cluster_binding ns ?sa) (cl_ClusterRoleBindings c3)\<rparr>"
    using fresh by (simp add: w'(2) with_sidecar_rbac_def add_missing_def bound_sidecar_def c1_def c2_def c3_def)
  have same: "cl_ClusterRoles c2 = cl_ClusterRoles (view w)" "cl_ClusterRoleBindings c3 = cl_ClusterRoleBindings (view w)"
    by (simp_all add: c1_def c2_def c3_def)
  have account: "list_ex (is_account ns account) (rb_Subjects (sidecar_binding ns ?sa)) \<longleftrightarrow> account = (ns, ?sa)"
    "list_ex (is_account '''' account) (rb_Subjects (sidecar_cluster_binding ns ?sa)) \<longleftrightarrow> account = (ns, ?sa)" for account
    by (cases account; auto simp: is_account_def sidecar_binding_def sidecar_cluster_binding_def sidecar_subject_def)+
  have 1: "authorized c1 account verb grp res at \<longleftrightarrow> authorized (view w) account verb grp res at \<or>
      at = ns \<and> sidecar_rights verb grp res \<and> bound_to_role (view w) ns FORMOL_SIDECAR_ROLE account" for account verb grp res at
    unfolding c1_def by (rule authorized_new_role [OF fresh(1), where ro = "sidecar_role ns", unfolded role_rights])
  have "cl_RoleBindings c1 (ns, FORMOL_SIDECAR_ROLEBINDING) = None" using fresh(2) by (simp add: c1_def)
  from authorized_new_binding [OF this, of "sidecar_binding ns ?sa"]
  have 2: "authorized c2 account verb grp res at \<longleftrightarrow> authorized c1 account verb grp res at \<or>
      at = ns \<and> account = (ns, ?sa) \<and> sidecar_rights verb grp res" for account verb grp res at
    by (simp add: c2_def binding_allows_def account bound_role_def role_allows_def role_rights)
      (simp add: c1_def sidecar_binding_def role_allows_def role_rights)
  have "bound_to_cluster_role c2 at role account = bound_to_cluster_role (view w) at role account" for at role account
    using bound_to_cluster_role_role_binding [OF _ fresh(2), of "sidecar_binding ns ?sa"]
    by (simp add: c1_def c2_def sidecar_binding_def)
  then have 3: "authorized c3 account verb grp res at \<longleftrightarrow> authorized c2 account verb grp res at \<or>
      cl_ClusterRoles (view w) FORMOL_SIDECAR_CLUSTERROLE = None \<and> snapshot_rights verb grp res \<and>
        bound_to_cluster_role (view w) at FORMOL_SIDECAR_CLUSTERROLE account" for account verb grp res at
    using authorized_new_cluster_role [of c2 FORMOL_SIDECAR_CLUSTERROLE sidecar_cluster_role account verb grp res at]
    by (cases "cl_ClusterRoles (view w) FORMOL_SIDECAR_CLUSTERROLE") (simp_all add: c3_def add_missing_def same role_rights,
      simp add: same(1) [symmetric])
  have "cl_ClusterRoles c3 FORMOL_SIDECAR_CLUSTERROLE = Some
      (case cl_ClusterRoles (view w) FORMOL_SIDECAR_CLUSTERROLE of None \<Rightarrow> sidecar_cluster_role | Some r \<Rightarrow> r)"
    by (auto simp: c3_def add_missing_def same split: option.split)
  then have new: "cluster_binding_allows c3 account verb grp res (sidecar_cluster_binding ns ?sa) \<longleftrightarrow> account = (ns, ?sa) \<and>
      (case cl_ClusterRoles (view w) FORMOL_SIDECAR_CLUSTERROLE of None \<Rightarrow> snapshot_rights verb grp res
       | Some r \<Rightarrow> role_allows (Some r) verb grp res)" for account verb grp res
    unfolding cluster_binding_allows_def account
    by (simp add: sidecar_cluster_binding_def role_allows_def role_rights split: option.split)
  have 4: "authorized (view w') account verb grp res at \<longleftrightarrow> authorized c3 account verb grp res at \<or>
      cl_ClusterRoleBindings (view w) FORMOL_SIDECAR_CLUSTERROLEBINDING = None \<and>
        cluster_binding_allows c3 account verb grp res (sidecar_cluster_binding ns ?sa)" for account verb grp res at
    using authorized_new_cluster_binding [of c3 FORMOL_SIDECAR_CLUSTERROLEBINDING "sidecar_cluster_binding ns ?sa"]
    unfolding view same(2) [symmetric]
    by (cases "cl_ClusterRoleBindings c3 FORMOL_SIDECAR_CLUSTERROLEBINDING") (simp_all add: add_missing_def)
  show ?thesis
    using w'(1) unfolding rbac_names [symmetric] by (intro exI [of _ w'] conjI allI) (assumption, unfold 4 new 3 2 1, blast)
qed

lemma sample_bound_facts:
  "well_keyed sample_bound"
  "cl_Roles sample_bound = [(''demo'', FORMOL_SIDECAR_ROLE) \<mapsto> sidecar_role ''demo'']"
  "cl_RoleBindings sample_bound = [(''demo'', FORMOL_SIDECAR_ROLEBINDING) \<mapsto> sidecar_binding ''demo'' ''default'']"
  "cl_ClusterRoles sample_bound = [FORMOL_SIDECAR_CLUSTERROLE \<mapsto> sidecar_cluster_role]"
  "cl_ClusterRoleBindings sample_bound =
    [FORMOL_SIDECAR_CLUSTERROLEBINDING \<mapsto> sidecar_cluster_binding ''demo'' ''default'']"
proof -
  show maps: "cl_Roles sample_bound = [(''demo'', FORMOL_SIDECAR_ROLE) \<mapsto> sidecar_role ''demo'']"
    "cl_RoleBindings sample_bound = [(''demo'', FORMOL_SIDECAR_ROLEBINDING) \<mapsto> sidecar_binding ''demo'' ''default'']"
    "cl_ClusterRoles sample_bound = [FORMOL_SIDECAR_CLUSTERROLE \<mapsto> sidecar_cluster_role]"
    "cl_ClusterRoleBindings sample_bound =
      [FORMOL_SIDECAR_CLUSTERROLEBINDING \<mapsto> sidecar_cluster_binding ''demo'' ''default'']"
    by (simp_all add: sample_bound_def with_sidecar_rbac_def add_missing_def bound_sidecar_def empty_cluster_def)
  show "well_keyed sample_bound"
    unfolding sample_bound_def by (rule well_keyed_sidecar_rbac [OF well_keyed_empty])
qed

text \<open>The second namespace: the sidecar reads its secrets, and cannot take a volume snapshot.\<close>

theorem sidecar_access_is_exact_witness:
  "\<exists>w'. createSidecarRBAC mem_api ''other'' empty_pod sample_bound = (Ret (), w') \<and>
    authorized w' (''other'', ''default'') ''get'' '''' ''secrets'' ''other'' \<and>
    \<not> authorized w' (''other'', ''default'') ''create'' ''snapshot.storage.k8s.io'' ''volumesnapshots'' ''other'' \<and>
    authorized w' (''demo'', ''default'') ''create'' ''snapshot.storage.k8s.io'' ''volumesnapshots'' ''other''"
proof -
  have first: "authorized sample_bound (''demo'', ''default'') ''create'' ''snapshot.storage.k8s.io'' ''volumesnapshots'' ''other''"
    "\<not> authorized sample_bound (''other'', ''default'') verb grp res at" for verb grp res at
    by (auto simp: authorized_def sample_bound_facts binding_allows_def cluster_binding_allows_def is_account_def
        sidecar_binding_def sidecar_cluster_binding_def sidecar_subject_def role_allows_def role_rights snapshot_rights_def
        all_verbs_def)
  show ?thesis
    using sidecar_access_is_exact [OF mem_api_laws sample_bound_facts(1), of "''other''" empty_pod] first
    by (auto simp: sample_bound_facts(2-5) bound_to_role_def rbac_names service_account_of_def empty_pod_def sidecar_rights_def
        snapshot_rights_def)
qed

subsection \<open>What the deletion of one configuration does to another\<close>

text \<open>The sidecars of a configuration are in place, and the four objects of their access are not.\<close>

definition sidecars_without_access :: "backup_configuration \<Rightarrow> object_key \<Rightarrow> repo \<Rightarrow> cluster \<Rightarrow> bool" where
  "sidecars_without_access conf req r c \<longleftrightarrow> well_keyed c \<and>
     (\<exists>conf'. cl_Confs c req = Some conf' \<and> bc_Spec conf' = bc_Spec conf \<and> bc_Meta conf' = bc_Meta conf) \<and>
     cl_Repos c (repo_key conf) = Some r \<and>
     (\<forall>tg \<in> set (bcs_Targets (bc_Spec conf)). sidecar_ready conf c tg) \<and>
     cl_Roles c (fst req, FORMOL_SIDECAR_ROLE) = None \<and>
     cl_RoleBindings c (fst req, FORMOL_SIDECAR_ROLEBINDING) = None \<and>
     cl_ClusterRoles c FORMOL_SIDECAR_CLUSTERROLE = None \<and>
     cl_ClusterRoleBindings c FORMOL_SIDECAR_CLUSTERROLEBINDING = None"

lemma sidecar_ready_present: "sidecar_ready conf c tg \<Longrightarrow> target_present conf c tg"
  by (auto simp: sidecar_ready_def target_present_def)

lemma same_spec_same_keys:
  assumes "bc_Spec conf' = bc_Spec conf" "bc_Meta conf' = bc_Meta conf"
  shows "repo_key conf' = repo_key conf" "target_key conf' tg = target_key conf tg"
    "sidecar_ready conf' c tg = sidecar_ready conf c tg"
  using assms by (auto simp: repo_key_def target_key_def sidecar_ready_def)

lemma well_keyed_released:
  assumes "meta_key (bc_Meta conf) = req" "well_keyed c"
  shows "well_keyed ((without_rbac ns c)\<lparr>cl_Confs := (cl_Confs c)(req := released L conf),
    cl_Workloads := on_targets f conf tgs (cl_Workloads c), cl_CronJobs := (cl_CronJobs c)(k := None)\<rparr>)"
proof -
  have "meta_key (wl_Meta wl) = k'" if "on_targets f conf tgs m (wk, k') = Some wl"
    "\<And>wk k' wl. m (wk, k') = Some wl \<Longrightarrow> meta_key (wl_Meta wl) = k'" for m wk k' wl
    using that
  proof (induction tgs arbitrary: m)
    case (Cons tg tgs)
    show ?case
    proof (rule Cons.IH)
      show "on_targets f conf tgs (m(workload_key conf tg := map_option (on_pod (f tg)) (m (workload_key conf tg)))) (wk, k') = Some wl"
        using Cons.prems(1) by (simp add: on_targets_simps)
      show "meta_key (wl_Meta wl') = k2"
        if "(m(workload_key conf tg := map_option (on_pod (f tg)) (m (workload_key conf tg)))) (wk2, k2) = Some wl'"
        for wk2 k2 wl'
        using that Cons.prems(2) [of wk2 k2] by (cases "m (wk2, k2)") (auto simp: on_pod_def split: if_splits)
    qed
  qed (simp add: on_targets_simps)
  then have "meta_key (wl_Meta wl) = k'" if "on_targets f conf tgs (cl_Workloads c) (wk, k') = Some wl" for wk k' wl
    using that well_keyedD(2) [OF assms(2)] by blast
  moreover have "meta_key (bc_Meta conf') = req" if "released L conf = Some conf'" for conf'
    using assms(1) that by (auto simp: released_def Let_def with_finalizers_def meta_key_def split: if_splits)
  ultimately show ?thesis
    using assms(2) unfolding well_keyed_def without_rbac_def by auto
qed

lemma ready_reconciliation_keeps:
  assumes laws: "client_laws A view" and owner: "owner_law L"
    and alive: "ptr_IsZero (om_DeletionTimestamp (bc_Meta conf))"
    and fin: "ContainsFinalizer L (om_Finalizers (bc_Meta conf)) confFinalizerName"
    and s: "bcs_Suspend (bc_Spec conf) = Some s"
    and now: "sidecars_without_access conf req r (view w)"
  shows "\<exists>w'. reconcileBackupConfiguration L A req w = (Ret no_requeue, w') \<and>
    sidecars_without_access conf req r (view w')"
proof -
  obtain conf' where conf': "cl_Confs (view w) req = Some conf'" "bc_Spec conf' = bc_Spec conf" "bc_Meta conf' = bc_Meta conf"
    using now by (auto simp: sidecars_without_access_def)
  note same = same_spec_same_keys [OF conf'(2,3)]
  have keyed: "well_keyed (view w)" and repo: "cl_Repos (view w) (repo_key conf') = Some r"
    and ready: "\<forall>tg \<in> set (bcs_Targets (bc_Spec conf')). sidecar_ready conf' (view w) tg"
    using now by (simp_all add: sidecars_without_access_def same conf'(2))
  then have "\<forall>tg \<in> set (bcs_Targets (bc_Spec conf')). target_present conf' (view w) tg"
    using sidecar_ready_present by blast
  then obtain w' cj where w': "reconcileBackupConfiguration L A req w = (Ret no_requeue, w')" "well_keyed (view w')"
    "view w' = (with_bs_creator (fst req) (view w))\<lparr>cl_Confs := (cl_Confs (view w))(req \<mapsto> active_status conf'),
        cl_CronJobs := (cl_CronJobs (view w))(cronjob_key conf' \<mapsto> cj)\<rparr>"
    using set_up_run [OF laws keyed owner conf'(1) _ _ _ repo, of s] alive fin s ready conf'(2,3) by auto
  moreover have "bc_Spec (active_status conf') = bc_Spec conf" "bc_Meta (active_status conf') = bc_Meta conf"
    using conf'(2,3) by (simp_all add: active_status_def)
  ultimately show ?thesis
    using now by (auto simp: sidecars_without_access_def with_bs_creator_def add_missing_def sidecar_ready_def rbac_names)
qed

text \<open>
  C23: deleting one configuration takes the access of the others away for good. Two configurations
  share a namespace, the targets of the second are other workloads and have their sidecars. When the
  deletion of the first is reconciled, the role and the bindings of the sidecars are gone from the
  namespace and the cluster; and however often the second configuration is reconciled after that,
  without error, its sidecars stay in place and none of these objects comes back.
\<close>

theorem release_revokes_the_others_access:
  assumes laws: "client_laws A view" and keyed: "well_keyed (view w)" and owner: "owner_law L"
    and dead: "cl_Confs (view w) (ns, n1) = Some conf1" "\<not> ptr_IsZero (om_DeletionTimestamp (bc_Meta conf1))"
      "ContainsFinalizer L (om_Finalizers (bc_Meta conf1)) confFinalizerName"
      "cl_Repos (view w) (repo_key conf1) = Some r1"
      "\<forall>tg \<in> set (bcs_Targets (bc_Spec conf1)). target_present conf1 (view w) tg"
      "cl_CronJobs (view w) (cronjob_key conf1) = Some cj"
    and alive: "cl_Confs (view w) (ns, n2) = Some conf2" "ptr_IsZero (om_DeletionTimestamp (bc_Meta conf2))"
      "ContainsFinalizer L (om_Finalizers (bc_Meta conf2)) confFinalizerName"
      "bcs_Suspend (bc_Spec conf2) = Some s" "cl_Repos (view w) (repo_key conf2) = Some r2"
      "\<forall>tg \<in> set (bcs_Targets (bc_Spec conf2)). sidecar_ready conf2 (view w) tg"
    and apart: "n1 \<noteq> n2" "workload_key conf1 ` set (bcs_Targets (bc_Spec conf1)) \<inter>
      workload_key conf2 ` set (bcs_Targets (bc_Spec conf2)) = {}"
  shows "\<exists>w1. reconcileBackupConfiguration L A (ns, n1) w = (Ret no_requeue, w1) \<and>
    (\<forall>k. \<exists>wk. for_each (\<lambda>_. bind_go (reconcileBackupConfiguration L A (ns, n2)) (\<lambda>_. ret ())) [0..<k] w1 = (Ret (), wk) \<and>
      (\<forall>tg \<in> set (bcs_Targets (bc_Spec conf2)). sidecar_ready conf2 (view wk) tg) \<and>
      cl_Roles (view wk) (ns, ''formol:sidecar-role'') = None \<and>
      cl_RoleBindings (view wk) (ns, ''formol:sidecar-rolebinding'') = None \<and>
      cl_ClusterRoles (view wk) ''formol:sidecar-clusterrole'' = None \<and>
      cl_ClusterRoleBindings (view wk) ''formol:sidecar-clusterrolebinding'' = None)"
proof -
  let ?again = "\<lambda>_::nat. bind_go (reconcileBackupConfiguration L A (ns, n2)) (\<lambda>_. ret ())"
  let ?inv = "\<lambda>w. sidecars_without_access conf2 (ns, n2) r2 (view w)"
  obtain w1 where w1: "reconcileBackupConfiguration L A (ns, n1) w = (Ret no_requeue, w1)"
    "view w1 = (without_rbac ns (view w))\<lparr>
      cl_Confs := (cl_Confs (view w))((ns, n1) := released L conf1),
      cl_Workloads := on_targets restore_pod conf1 (bcs_Targets (bc_Spec conf1)) (cl_Workloads (view w)),
      cl_CronJobs := (cl_CronJobs (view w))(cronjob_key conf1 := None)\<rparr>"
    using release_run [OF laws keyed dead] by auto
  have "meta_key (bc_Meta conf1) = (ns, n1)" using well_keyedD(1) [OF keyed dead(1)] .
  then have k1: "well_keyed (view w1)"
    using keyed unfolding w1(2) by (rule well_keyed_released)
  have "sidecar_ready conf2 (view w1) tg" if "tg \<in> set (bcs_Targets (bc_Spec conf2))" for tg
  proof -
    have "sidecar_ready conf2 (view w) tg" using alive(6) that by blast
    moreover have "cl_Workloads (view w1) (workload_key conf2 tg) = cl_Workloads (view w) (workload_key conf2 tg)"
      using apart(2) that by (auto simp: w1(2) intro!: on_targets_other)
    ultimately show ?thesis by (auto simp: sidecar_ready_def workload_key_def)
  qed
  with k1 alive(1,5) apart(1) have "?inv w1"
    by (auto simp: sidecars_without_access_def w1(2)) (simp_all add: without_rbac_def)
  moreover have "\<exists>w'. for_each ?again ks w0 = (Ret (), w') \<and> ?inv w'" if "?inv w0" for ks w0
    using that
  proof (induction ks arbitrary: w0)
    case Nil
    then show ?case by (simp add: ret_run)
  next
    case (Cons k ks)
    obtain w' where "reconcileBackupConfiguration L A (ns, n2) w0 = (Ret no_requeue, w')" "?inv w'"
      using ready_reconciliation_keeps [OF laws owner alive(2-4) Cons.prems] by blast
    with Cons.IH [of w'] show ?case by (simp add: bind_go_run ret_run)
  qed
  ultimately show ?thesis
    using w1(1) by (fastforce simp: sidecars_without_access_def rbac_names)
qed

definition other_conf :: backup_configuration where
  "other_conf = (sample_conf [sample_target ''nginx'' 2] (sample_policy 1 0))\<lparr>
     bc_Meta := (named_meta ''demo'' ''backup-other'')\<lparr>om_Finalizers := [confFinalizerName]\<rparr>\<rparr>"

definition shared_namespace :: cluster where
  "shared_namespace = sample_bound\<lparr>
     cl_Repos := [(''demo'', ''repo-minio'') \<mapsto> sample_repo],
     cl_Confs := [(''demo'', ''backup-demo'') \<mapsto> deleted_conf, (''demo'', ''backup-other'') \<mapsto> other_conf],
     cl_Workloads := [(DeploymentWorkload, (''demo'', ''apache'')) \<mapsto>
         \<lparr>wl_Meta = named_meta ''demo'' ''apache'', wl_PodSpec = apache_pod\<rparr>,
       (DeploymentWorkload, (''demo'', ''nginx'')) \<mapsto> \<lparr>wl_Meta = named_meta ''demo'' ''nginx'',
         wl_PodSpec = sidecar_pod other_conf (sample_target ''nginx'' 2) sample_repo apache_pod\<rparr>],
     cl_CronJobs := [(''demo'', ''backup-backup-demo'') \<mapsto> new_cron_job deleted_conf]\<rparr>"

theorem release_revokes_the_others_access_witness:
  "\<exists>w1. reconcileBackupConfiguration sample_lib mem_api (''demo'', ''backup-demo'') shared_namespace = (Ret no_requeue, w1) \<and>
    (\<exists>w2. for_each (\<lambda>_. bind_go (reconcileBackupConfiguration sample_lib mem_api (''demo'', ''backup-other'')) (\<lambda>_. ret ()))
        [0..<2] w1 = (Ret (), w2) \<and>
      sidecar_ready other_conf w2 (sample_target ''nginx'' 2) \<and>
      cl_RoleBindings w2 (''demo'', ''formol:sidecar-rolebinding'') = None)"
proof -
  let ?w = shared_namespace
  have deleted: "bcs_Targets (bc_Spec deleted_conf) = [sample_target ''apache'' 2]"
    "repo_key deleted_conf = (''demo'', ''repo-minio'')" "cronjob_key deleted_conf = (''demo'', ''backup-backup-demo'')"
    "target_key deleted_conf tg = (''demo'', tg_TargetName tg)" "meta_key (bc_Meta deleted_conf) = (''demo'', ''backup-demo'')" for tg
    by (simp_all add: deleted_conf_def demo_conf_def sample_conf_def repo_key_def target_key_def cronjob_key_def
        named_meta_def meta_key_def)
  have other: "bcs_Targets (bc_Spec other_conf) = [sample_target ''nginx'' 2]" "bcs_Suspend (bc_Spec other_conf) = Some True"
    "repo_key other_conf = (''demo'', ''repo-minio'')" "target_key other_conf tg = (''demo'', tg_TargetName tg)"
    "ptr_IsZero (om_DeletionTimestamp (bc_Meta other_conf))" "meta_key (bc_Meta other_conf) = (''demo'', ''backup-other'')"
    "ContainsFinalizer sample_lib (om_Finalizers (bc_Meta other_conf)) confFinalizerName" for tg
    by (simp_all add: other_conf_def sample_conf_def repo_key_def target_key_def named_meta_def meta_key_def ptr_IsZero_def
        sample_lib_def)
  have job: "meta_key (cj_Meta (new_cron_job deleted_conf)) = (''demo'', ''backup-backup-demo'')"
    by (simp add: new_cron_job_def deleted_conf_def named_meta_def meta_key_def)
  have tg: "GetTargetObjects (tg_TargetKind (sample_target n 2)) = Some DeploymentWorkload" "tg_TargetName (sample_target n 2) = n" for n
    by (simp_all add: sample_target_def)
  have keyed: "well_keyed ?w"
    using sample_bound_facts(1) deleted(5) other(6) job by (auto simp: well_keyed_def shared_namespace_def)
  have ready: "\<forall>tg \<in> set (bcs_Targets (bc_Spec other_conf)). sidecar_ready other_conf ?w tg"
    using hasSidecar_sidecar_pod [of other_conf "sample_target ''nginx'' 2" sample_repo apache_pod]
    by (simp add: other sidecar_ready_def tg shared_namespace_def)
  have present: "\<forall>tg \<in> set (bcs_Targets (bc_Spec deleted_conf)). target_present deleted_conf ?w tg"
    by (simp add: deleted target_present_def tg shared_namespace_def)
  have apart: "workload_key deleted_conf ` set (bcs_Targets (bc_Spec deleted_conf)) \<inter>
      workload_key other_conf ` set (bcs_Targets (bc_Spec other_conf)) = {}"
    by (simp add: deleted(1,4) other(1,4) workload_key_def tg)
  have stored: "cl_Confs ?w (''demo'', ''backup-demo'') = Some deleted_conf" "cl_Confs ?w (''demo'', ''backup-other'') = Some other_conf"
    "cl_Repos ?w (repo_key deleted_conf) = Some sample_repo" "cl_Repos ?w (repo_key other_conf) = Some sample_repo"
    "cl_CronJobs ?w (cronjob_key deleted_conf) = Some (new_cron_job deleted_conf)" "''backup-demo'' \<noteq> ''backup-other''"
    by (simp_all add: deleted other shared_namespace_def)
  from release_revokes_the_others_access [OF mem_api_laws keyed sample_lib_owner stored(1) deleted_conf_facts(2,3) stored(3)
      present stored(5) stored(2) other(5,7,2) stored(4) ready stored(6) apart]
  obtain w1 where w1: "reconcileBackupConfiguration sample_lib mem_api (''demo'', ''backup-demo'') ?w = (Ret no_requeue, w1)"
    "\<forall>k. \<exists>wk. for_each (\<lambda>_. bind_go (reconcileBackupConfiguration sample_lib mem_api (''demo'', ''backup-other'')) (\<lambda>_. ret ()))
        [0..<k] w1 = (Ret (), wk) \<and>
      (\<forall>tg \<in> set (bcs_Targets (bc_Spec other_conf)). sidecar_ready other_conf wk tg) \<and>
      cl_RoleBindings wk (''demo'', ''formol:sidecar-rolebinding'') = None"
    by blast
  from w1(2)[rule_format, of 2] have "\<exists>w2. for_each (\<lambda>_. bind_go (reconcileBackupConfiguration sample_lib mem_api
        (''demo'', ''backup-other'')) (\<lambda>_. ret ())) [0..<2] w1 = (Ret (), w2) \<and>
      sidecar_ready other_conf w2 (sample_target ''nginx'' 2) \<and>
      cl_RoleBindings w2 (''demo'', ''formol:sidecar-rolebinding'') = None"
    unfolding other(1) by (meson list.set_intros(1))
  with w1(1) show ?thesis by blast
qed

end
