(* ===== verification/Rights.thy ===== *)
theory Rights
  imports Access RestoreSession
begin

section \<open>The rights of the operator (the \<open>kubebuilder:rbac\<close> markers of the controllers)\<close>

text \<open>
  The markers above the \<open>Reconcile\<close> methods are the source of the operator's own cluster role. This
  theory compares them with what the code does: every call that a reconciliation makes has to be
  allowed, and so has every right that the operator hands out to the service accounts of theory Rbac,
  because the API server refuses a role with rights that its author does not have.
\<close>

subsection \<open>The markers\<close>

text \<open>A marker is a rule; the group that it calls \<open>core\<close> has the empty name.\<close>

definition marker :: "string \<Rightarrow> string \<Rightarrow> string list \<Rightarrow> policy_rule" where
  "marker grp res verbs = \<lparr>pr_Verbs = verbs,
     pr_APIGroups = [if grp = ''core'' then '''' else grp], pr_Resources = [res]\<rparr>"

definition read_verbs :: "string list" where
  "read_verbs = [''get'', ''list'', ''watch'']"

definition backupConfigurationMarkers :: "policy_rule list" where
  "backupConfigurationMarkers = [
     marker ''formol.desmojim.fr'' ''*'' [''*''],
     marker ''apps'' ''deployments'' all_verbs,
     marker ''apps'' ''replicasets'' all_verbs,
     marker ''apps'' ''statefulsets'' all_verbs,
     marker ''core'' ''pods'' read_verbs,
     marker ''core'' ''volumesnapshotclasses'' read_verbs,
     marker ''core'' ''persistentvolumes'' read_verbs,
     marker ''core'' ''configmaps'' read_verbs,
     marker ''core'' ''secrets'' read_verbs,
     marker ''core'' ''serviceaccounts'' all_verbs,
     marker ''core'' ''persistentvolumeclaims'' all_verbs,
     marker ''rbac.authorization.k8s.io'' ''roles'' all_verbs,
     marker ''rbac.authorization.k8s.io'' ''rolebindings'' all_verbs,
     marker ''rbac.authorization.k8s.io'' ''clusterroles'' all_verbs,
     marker ''rbac.authorization.k8s.io'' ''clusterrolebindings'' all_verbs,
     marker ''batch'' ''jobs'' all_verbs,
     marker ''batch'' ''cronjobs'' all_verbs,
     marker ''batch'' ''cronjobs/status'' [''get''],
     marker ''snapshot.storage.k8s.io'' ''persistentvolumes'' read_verbs,
     marker ''snapshot.storage.k8s.io'' ''volumesnapshotclasses'' read_verbs,
     marker ''snapshot.storage.k8s.io'' ''volumesnapshots'' all_verbs]"

definition backupSessionMarkers :: "policy_rule list" where
  "backupSessionMarkers = [marker ''formol.desmojim.fr'' ''*'' [''*'']]"

definition restoreSessionMarkers :: "policy_rule list" where
  "restoreSessionMarkers = [
     marker ''formol.desmojim.fr'' ''restoresessions'' all_verbs,
     marker ''formol.desmojim.fr'' ''restoresessions/status'' [''get'', ''update'', ''patch''],
     marker ''formol.desmojim.fr'' ''restoresessions/finalizers'' [''update'']]"

definition operator_rules :: "policy_rule list" where
  "operator_rules = backupConfigurationMarkers @ backupSessionMarkers @ restoreSessionMarkers"

definition operator_may :: "string \<Rightarrow> string \<Rightarrow> string \<Rightarrow> bool" where
  "operator_may verb grp res = list_ex (rule_allows verb grp res) operator_rules"

subsection \<open>What a call needs\<close>

text \<open>The group and the resource of an object, and of what a read asks for.\<close>

fun workload_resource :: "workload_kind \<Rightarrow> string \<times> string" where
  "workload_resource DeploymentWorkload = (''apps'', ''deployments'')"
| "workload_resource StatefulSetWorkload = (''apps'', ''statefulsets'')"

fun object_resource :: "kobject \<Rightarrow> string \<times> string" where
  "object_resource (OBackupConfiguration _) = (''formol.desmojim.fr'', ''backupconfigurations'')"
| "object_resource (OBackupSession _) = (''formol.desmojim.fr'', ''backupsessions'')"
| "object_resource (ORestoreSession _) = (''formol.desmojim.fr'', ''restoresessions'')"
| "object_resource (OWorkload k _) = workload_resource k"
| "object_resource (OCronJob _) = (''batch'', ''cronjobs'')"
| "object_resource (OJob _) = (''batch'', ''jobs'')"
| "object_resource (OServiceAccount _) = ('''', ''serviceaccounts'')"
| "object_resource (ORole _) = (''rbac.authorization.k8s.io'', ''roles'')"
| "object_resource (ORoleBinding _) = (''rbac.authorization.k8s.io'', ''rolebindings'')"
| "object_resource (OClusterRole _) = (''rbac.authorization.k8s.io'', ''clusterroles'')"
| "object_resource (OClusterRoleBinding _) = (''rbac.authorization.k8s.io'', ''clusterrolebindings'')"

fun read_resource :: "resource \<Rightarrow> (string \<times> string) list" where
  "read_resource RBackupConfiguration = [(''formol.desmojim.fr'', ''backupconfigurations'')]"
| "read_resource RBackupSession = [(''formol.desmojim.fr'', ''backupsessions'')]"
| "read_resource RRestoreSession = [(''formol.desmojim.fr'', ''restoresessions'')]"
| "read_resource RRepo = [(''formol.desmojim.fr'', ''repoes'')]"
| "read_resource (RWorkload None) = []"
| "read_resource (RWorkload (Some k)) = [workload_resource k]"
| "read_resource RCronJob = [(''batch'', ''cronjobs'')]"
| "read_resource RServiceAccount = [('''', ''serviceaccounts'')]"
| "read_resource RRole = [(''rbac.authorization.k8s.io'', ''roles'')]"
| "read_resource RRoleBinding = [(''rbac.authorization.k8s.io'', ''rolebindings'')]"
| "read_resource RClusterRole = [(''rbac.authorization.k8s.io'', ''clusterroles'')]"
| "read_resource RClusterRoleBinding = [(''rbac.authorization.k8s.io'', ''clusterrolebindings'')]"

text \<open>
  The client reads from a cache, which for a kind that is read lists and watches all its objects.
  The status is a resource of its own. A read into a nil object does not reach the API server.
\<close>

fun needs :: "api_call \<Rightarrow> (string \<times> string \<times> string) list" where
  "needs (GetCall r _) = [(v, gr). v \<leftarrow> read_verbs, gr \<leftarrow> read_resource r]"
| "needs (ListCall _ _) = [(v, gr). v \<leftarrow> read_verbs, gr \<leftarrow> read_resource RBackupSession]"
| "needs (CreateCall x) = [(''create'', object_resource x)]"
| "needs (UpdateCall x) = [(''update'', object_resource x)]"
| "needs (DeleteCall x) = [(''delete'', object_resource x)]"
| "needs (StatusUpdateCall x) = [(''update'', fst (object_resource x), snd (object_resource x) @ ''/status'')]"

definition permitted :: "api_call \<Rightarrow> bool" where
  "permitted c = list_all (\<lambda>(v, g, r). operator_may v g r) (needs c)"


subsection \<open>What the markers give\<close>

definition managed :: "(string \<times> string) list" where
  "managed = [(''apps'', ''deployments''), (''apps'', ''statefulsets''), (''batch'', ''cronjobs''),
     (''batch'', ''jobs''), ('''', ''serviceaccounts''), ('''', ''persistentvolumeclaims''),
     (''rbac.authorization.k8s.io'', ''roles''), (''rbac.authorization.k8s.io'', ''rolebindings''),
     (''rbac.authorization.k8s.io'', ''clusterroles''),
     (''rbac.authorization.k8s.io'', ''clusterrolebindings''),
     (''snapshot.storage.k8s.io'', ''volumesnapshots'')]"

definition readable :: "(string \<times> string) list" where
  "readable = [('''', ''secrets''), ('''', ''configmaps''), ('''', ''volumesnapshotclasses''),
     ('''', ''persistentvolumes''), (''snapshot.storage.k8s.io'', ''volumesnapshotclasses''),
     (''snapshot.storage.k8s.io'', ''persistentvolumes'')]"

lemma formol_rights: "operator_may v ''formol.desmojim.fr'' r"
  by (simp add: operator_may_def operator_rules_def backupSessionMarkers_def marker_def
      rule_allows_def covers_def)

text \<open>A marker gives its verbs.\<close>

lemma marked:
  assumes "marker grp r vs \<in> set operator_rules" "v \<in> set vs"
    and "g = (if grp = ''core'' then '''' else grp)"
  shows "operator_may v g r"
  using assms unfolding operator_may_def list_ex_iff
  by (intro bexI [of _ "marker grp r vs"]) (simp_all add: marker_def rule_allows_def covers_def)

lemmas operator_markers = operator_rules_def backupConfigurationMarkers_def

definition marker_group :: "string \<Rightarrow> string" where
  "marker_group g = (if g = '''' then ''core'' else g)"

lemma managed_rights:
  assumes "(g, r) \<in> set managed" "v \<in> set all_verbs" shows "operator_may v g r"
proof (rule marked)
  have "list_all (\<lambda>(g, r). marker (marker_group g) r all_verbs \<in> set operator_rules \<and> g \<noteq> ''core'') managed"
    by (simp add: managed_def operator_markers marker_group_def)
  with assms(1) have "marker (marker_group g) r all_verbs \<in> set operator_rules \<and> g \<noteq> ''core''"
    by (auto simp only: list_all_iff)
  then show "marker (marker_group g) r all_verbs \<in> set operator_rules"
    "g = (if marker_group g = ''core'' then '''' else marker_group g)"
    by (auto simp: marker_group_def)
qed (rule assms(2))

lemma read_rights:
  assumes "(g, r) \<in> set readable" "v \<in> set read_verbs" shows "operator_may v g r"
proof (rule marked)
  have "list_all (\<lambda>(g, r). marker (marker_group g) r read_verbs \<in> set operator_rules \<and> g \<noteq> ''core'') readable"
    by (simp add: readable_def operator_markers marker_group_def)
  with assms(1) have "marker (marker_group g) r read_verbs \<in> set operator_rules \<and> g \<noteq> ''core''"
    by (auto simp only: list_all_iff)
  then show "marker (marker_group g) r read_verbs \<in> set operator_rules"
    "g = (if marker_group g = ''core'' then '''' else marker_group g)"
    by (auto simp: marker_group_def)
qed (rule assms(2))

lemma read_verbs_subset: "set read_verbs \<subseteq> set all_verbs"
  by (simp add: read_verbs_def all_verbs_def)

text \<open>Every object of the model is formol's or one that the operator manages, and so is what it reads.\<close>

lemma workload_managed: "workload_resource k \<in> set managed"
  by (cases k) (simp_all add: managed_def)

lemma resource_cases:
  "fst (object_resource x) = ''formol.desmojim.fr'' \<or> object_resource x \<in> set managed"
  by (cases x) (simp_all add: workload_managed, simp_all add: managed_def)

lemma read_resource_cases:
  "gr \<in> set (read_resource r) \<Longrightarrow> fst gr = ''formol.desmojim.fr'' \<or> gr \<in> set managed"
  by (cases r rule: read_resource.cases) (simp_all add: workload_managed, simp_all add: managed_def)

lemma resource_rights:
  assumes "fst gr = ''formol.desmojim.fr'' \<or> gr \<in> set managed" "v \<in> set all_verbs"
  shows "operator_may v (fst gr) (snd gr)"
  using assms formol_rights managed_rights [of "fst gr" "snd gr" v] by auto

lemma permitted_get [emits_intros]: "permitted (GetCall r k)"
proof -
  have "operator_may v (fst gr) (snd gr)" if "v \<in> set read_verbs" "gr \<in> set (read_resource r)" for v gr
    using resource_rights [OF read_resource_cases [OF that(2)]] read_verbs_subset that(1) by blast
  then show ?thesis by (auto simp: permitted_def list_all_iff)
qed

lemma permitted_list [emits_intros]: "permitted (ListCall ns st)"
  by (auto simp: permitted_def list_all_iff formol_rights)

lemma permitted_write [emits_intros]:
  "permitted (CreateCall x)" "permitted (UpdateCall x)" "permitted (DeleteCall x)"
proof -
  have "operator_may v (fst (object_resource x)) (snd (object_resource x))" if "v \<in> set all_verbs" for v
    by (rule resource_rights [OF resource_cases that])
  moreover have "''create'' \<in> set all_verbs" "''update'' \<in> set all_verbs" "''delete'' \<in> set all_verbs"
    by (simp_all add: all_verbs_def)
  ultimately show "permitted (CreateCall x)" "permitted (UpdateCall x)" "permitted (DeleteCall x)"
    by (simp_all add: permitted_def case_prod_unfold)
qed

lemma permitted_status [emits_intros]:
  "permitted (StatusUpdateCall (OBackupConfiguration conf))"
  "permitted (StatusUpdateCall (OBackupSession s))" "permitted (StatusUpdateCall (ORestoreSession r))"
  by (simp_all add: permitted_def formol_rights)

text \<open>A rule without wildcards is held when a marker gives its verbs on each of its resources.\<close>

definition held :: "policy_rule \<Rightarrow> bool" where
  "held rule \<longleftrightarrow> ''*'' \<notin> set (pr_Verbs rule) \<and> ''*'' \<notin> set (pr_APIGroups rule) \<and> ''*'' \<notin> set (pr_Resources rule) \<and>
     (\<forall>g \<in> set (pr_APIGroups rule). \<forall>r \<in> set (pr_Resources rule). g = ''formol.desmojim.fr'' \<or>
        (g, r) \<in> set managed \<and> set (pr_Verbs rule) \<subseteq> set all_verbs \<or>
        (g, r) \<in> set readable \<and> set (pr_Verbs rule) \<subseteq> set read_verbs)"

lemma held_rights:
  assumes "held rule" "rule_allows verb grp res rule" shows "operator_may verb grp res"
proof -
  from assms have "grp = ''formol.desmojim.fr'' \<or> (grp, res) \<in> set managed \<and> verb \<in> set all_verbs \<or>
      (grp, res) \<in> set readable \<and> verb \<in> set read_verbs"
    unfolding held_def rule_allows_def covers_def by blast
  then show ?thesis using formol_rights managed_rights read_rights by blast
qed

lemma roles_held:
  "list_all held (ro_Rules (bs_creator_role ns))" "list_all held (ro_Rules (sidecar_role ns))"
  "list_all held (ro_Rules sidecar_cluster_role)"
proof -
  have verbs: "set read_verbs \<subseteq> set all_verbs" "''*'' \<notin> set read_verbs" "''*'' \<notin> set all_verbs"
    "[''get'', ''list'', ''watch''] = read_verbs" "set [''get'', ''list'', ''watch'', ''update''] \<subseteq> set all_verbs"
    by (simp_all add: read_verbs_def all_verbs_def)
  show "list_all held (ro_Rules (bs_creator_role ns))"
    by (simp add: held_def bs_creator_role_def verbs(3))
  have "held \<lparr>pr_Verbs = [''get'', ''list'', ''watch'', ''update''], pr_APIGroups = [''apps''],
      pr_Resources = [''deployments'']\<rparr>"
    using verbs(5) by (simp add: held_def managed_def)
  moreover have "held \<lparr>pr_Verbs = all_verbs, pr_APIGroups = [g], pr_Resources = [r]\<rparr>"
    if "g = ''formol.desmojim.fr'' \<or> (g, r) \<in> set managed" "g \<noteq> ''*''" "r \<noteq> ''*''" for g r
    using that verbs(3) by (auto simp: held_def)
  moreover have "held \<lparr>pr_Verbs = read_verbs, pr_APIGroups = gs, pr_Resources = rs\<rparr>"
    if "\<forall>g \<in> set gs. \<forall>r \<in> set rs. g = ''formol.desmojim.fr'' \<or> (g, r) \<in> set readable"
      "''*'' \<notin> set gs" "''*'' \<notin> set rs" for gs rs
    using that verbs(2) unfolding held_def by simp blast
  ultimately show "list_all held (ro_Rules (sidecar_role ns))" "list_all held (ro_Rules sidecar_cluster_role)"
    by (simp_all add: sidecar_role_def sidecar_cluster_role_def verbs(4) managed_def readable_def)
qed

subsection \<open>Properties\<close>

text \<open>
  C16: the operator holds every right that it grants. Whatever verb on whatever resource one of the
  three roles allows that the operator writes for the service accounts of the cron jobs and of the
  sidecars, the markers of the controllers allow the operator too, so the API server's check
  against privilege escalation lets the operator create them.
\<close>

theorem operator_holds_what_it_grants:
  assumes "role \<in> {bs_creator_role ns, sidecar_role ns, sidecar_cluster_role}"
    and "list_ex (rule_allows verb grp res) (ro_Rules role)"
  shows "operator_may verb grp res"
proof -
  have "list_all held (ro_Rules role)" using assms(1) roles_held by auto
  with assms(2) held_rights show ?thesis unfolding list_all_iff list_ex_iff by blast
qed

theorem operator_holds_what_it_grants_witness:
  "operator_may ''delete'' ''snapshot.storage.k8s.io'' ''volumesnapshots''"
  by (rule operator_holds_what_it_grants [where role = sidecar_cluster_role and ns = "''demo''"])
    (simp_all add: role_rights snapshot_rights_def all_verbs_def)

text \<open>Every call of every reconciliation, controller by controller.\<close>

lemma session_calls_permitted: "emits permitted (reconcileBackupSession L (logged A) now req) (\<lambda>_. True)"
proof -
  have loop: "emits permitted (cleanupLoop (logged A) name rt xs) (\<lambda>_. True)" for name rt xs
  proof (induction xs arbitrary: rt)
    case (Cons x xs)
    then show ?case
      by (cases x) (simp add: Let_def split: prod.split, intro conjI impI allI emits_intros)
  qed (simp add: emits_intros)
  have ongoing: "emits permitted (isBackupOngoing (logged A) conf) (\<lambda>_. True)" for conf
    unfolding isBackupOngoing_def logged_sel by (intro emits_intros TrueI)
  have cleanup: "emits permitted (cleanupSessions L (logged A) conf) (\<lambda>_. True)" for conf
    unfolding cleanupSessions_def logged_sel by (intro emits_intros loop TrueI)
  have "emits permitted (backupSessionSwitch L (logged A) now conf s) (\<lambda>_. True)" for conf s
    by (cases "bst_SessionState (bs_Status s)"; simp add: backupSessionSwitch_def Let_def;
      intro emits_intros ongoing cleanup TrueI)
  moreover have "emits permitted (deleteSnapshots (logged A) s conf) (\<lambda>_. True)" for s conf
    unfolding deleteSnapshots_def Let_def logged_sel by (intro emits_intros TrueI)
  ultimately show ?thesis
    unfolding reconcileBackupSession_def backupSessionDeletion_def backupSessionAdvance_def logged_sel
    by (intro emits_intros TrueI)
qed

lemma restore_calls_permitted: "emits permitted (reconcileRestoreSession (logged A) now req) (\<lambda>_. True)"
proof -
  have ongoing: "emits permitted (isBackupOngoing (logged A) conf) (\<lambda>_. True)" for conf
    unfolding isBackupOngoing_def logged_sel by (intro emits_intros TrueI)
  have "emits permitted (restoreSessionSwitch (logged A) now conf s) (\<lambda>_. True)" for conf s
    by (cases "rst_SessionState (rs_Status s)"; simp add: restoreSessionSwitch_def Let_def;
      intro emits_intros ongoing TrueI)
  then show ?thesis
    unfolding reconcileRestoreSession_def restoreSessionUpdate_def logged_sel
    by (intro emits_intros TrueI)
qed

lemma configuration_calls_permitted:
  "emits permitted (reconcileBackupConfiguration L (logged A) req) (\<lambda>_. True)"
proof -
  have "emits permitted (releaseConfiguration L (logged A) ns conf) (\<lambda>_. True)" for ns conf
    unfolding releaseConfiguration_def DeleteSidecar_def restore_target_def DeleteCronJob_def
      deleteRBAC_def delete_if_found_def logged_sel
    by (intro emits_intros TrueI)
  moreover have "emits permitted (AddCronJob L (logged A) conf) (\<lambda>_. True)" for conf
    unfolding AddCronJob_def Let_def logged_sel by (intro emits_intros TrueI)
  moreover have "emits permitted (createBSCreatorRBAC (logged A) ns) (\<lambda>_. True)" for ns
    unfolding createBSCreatorRBAC_def create_if_missing_def logged_sel by (intro emits_intros TrueI)
  moreover have "emits permitted (createSidecarRBAC (logged A) ns p) (\<lambda>_. True)" for ns p
    unfolding createSidecarRBAC_def create_if_missing_def bind_sidecar_def Let_def logged_sel
    by (intro emits_intros TrueI)
  moreover have "emits permitted (addSidecar (logged A) ns conf tg) (\<lambda>_. True)" for ns conf tg
    unfolding addSidecar_def Let_def logged_sel by (intro emits_intros TrueI calculation)
  ultimately show ?thesis
    unfolding reconcileBackupConfiguration_def setUpConfiguration_def logged_sel
    by (intro emits_intros TrueI)
qed

text \<open>
  C15: no call of the operator is refused. Whatever the cluster answers and whatever state it is in,
  every call that a reconciliation of any of the three controllers makes is one that the markers of the
  controllers allow: reads through the cache with list and watch, creations, updates, deletions,
  and the writes of a status.
\<close>

theorem every_call_is_permitted:
  "list_all permitted (log_of (reconcileBackupSession L (logged A) now req) w)
   \<and> list_all permitted (log_of (reconcileRestoreSession (logged A) now req) w)
   \<and> list_all permitted (log_of (reconcileBackupConfiguration L (logged A) req) w)"
  unfolding log_of_def
  by (intro conjI emits_log [OF session_calls_permitted] emits_log [OF restore_calls_permitted]
      emits_log [OF configuration_calls_permitted])

end
