(* ===== verification/Wire.thy ===== *)
theory Wire
  imports ApiTypes "HOL-Library.Monad_Syntax"
begin

section \<open>Objects on the wire: field tags, validation and defaults (api/v1alpha1/*_types.go)\<close>

text \<open>
  The tags of the struct fields say how an object is written as JSON, and the markers above the
  fields how the API server checks and completes what it is sent before a controller reads it
  back: a field without \<open>omitempty\<close> and \<open>+optional\<close> is required, \<open>+kubebuilder:default\<close> fills in a
  missing field, an enumeration refuses other strings, and a null counts as missing. A list is
  written as an array, also when it is empty: the slices of a spec that was admitted are not nil. Functions
  \<open>*_json\<close> write, functions \<open>json_*\<close> check, complete and read, with \<open>None\<close> for a refusal. The text form
  of JSON is left out, and the types of other packages (times, durations, references, metadata)
  are in the record \<open>wire_lib\<close>.
\<close>

subsection \<open>JSON values\<close>

datatype json = JNull | JBool bool | JInt int | JString string | JArray "json list"
  | JObject "(string \<times> json) list"

text \<open>A member of an object, where null counts as missing.\<close>

definition member :: "(string \<times> json) list \<Rightarrow> string \<Rightarrow> json option" where
  "member fs n = (case map_of fs n of Some JNull \<Rightarrow> None | r \<Rightarrow> r)"

fun as_string :: "json \<Rightarrow> string option" where
  "as_string (JString s) = Some s"
| "as_string _ = None"

fun as_bool :: "json \<Rightarrow> bool option" where
  "as_bool (JBool b) = Some b"
| "as_bool _ = None"

text \<open>Go's \<open>int32\<close>, and \<open>int\<close> with 64 bits: a number out of range is an error.\<close>

definition in_int64 :: "int \<Rightarrow> bool" where
  "in_int64 i \<longleftrightarrow> - (2 ^ 63) \<le> i \<and> i < 2 ^ 63"

fun as_int32 :: "json \<Rightarrow> 32 word option" where
  "as_int32 (JInt i) = (if - (2 ^ 31) \<le> i \<and> i < 2 ^ 31 then Some (word_of_int i) else None)"
| "as_int32 _ = None"

fun as_int :: "json \<Rightarrow> int option" where
  "as_int (JInt i) = (if in_int64 i then Some i else None)"
| "as_int _ = None"

fun as_object :: "json \<Rightarrow> (string \<times> json) list option" where
  "as_object (JObject fs) = Some fs"
| "as_object _ = None"

fun as_array :: "(json \<Rightarrow> 'a option) \<Rightarrow> json \<Rightarrow> 'a list option" where
  "as_array f (JArray js) = those (map f js)"
| "as_array f _ = None"

definition as_pointer :: "(json \<Rightarrow> 'a option) \<Rightarrow> json \<Rightarrow> 'a option option" where
  "as_pointer f j = map_option Some (f j)"

definition required :: "(string \<times> json) list \<Rightarrow> string \<Rightarrow> (json \<Rightarrow> 'a option) \<Rightarrow> 'a option" where
  "required fs n f = (case member fs n of None \<Rightarrow> None | Some j \<Rightarrow> f j)"

definition optional :: "(string \<times> json) list \<Rightarrow> string \<Rightarrow> 'a \<Rightarrow> (json \<Rightarrow> 'a option) \<Rightarrow> 'a option" where
  "optional fs n z f = (case member fs n of None \<Rightarrow> Some z | Some j \<Rightarrow> f j)"

text \<open>Writing a field: with \<open>omitempty\<close> it is left out where it has the zero value.\<close>

definition part :: "string \<Rightarrow> bool \<Rightarrow> json \<Rightarrow> (string \<times> json) list" where
  "part n present j = (if present then [(n, j)] else [])"

definition pointer :: "('a \<Rightarrow> json) \<Rightarrow> 'a option \<Rightarrow> json" where
  "pointer f p = (case p of None \<Rightarrow> JNull | Some x \<Rightarrow> f x)"

subsection \<open>Types of other packages\<close>

record wire_lib =
  TimeJSON :: "go_time \<Rightarrow> json"          \<comment> \<open>\<open>metav1.Time\<close>: null for the zero time\<close>
  JSONTime :: "json \<Rightarrow> go_time option"
  ZoneOffset :: "int \<Rightarrow> int"            \<comment> \<open>the offset of the process's time zone at an instant\<close>
  DurationJSON :: "int \<Rightarrow> json"
  JSONDuration :: "json \<Rightarrow> int option"
  RefJSON :: "object_key \<Rightarrow> json"        \<comment> \<open>\<open>corev1.ObjectReference\<close>\<close>
  JSONRef :: "json \<Rightarrow> object_key option"
  MetaJSON :: "obj_meta \<Rightarrow> json"
  JSONMeta :: "json \<Rightarrow> obj_meta option"

text \<open>A time is written in UTC and read in the time zone of the process.\<close>

definition local_time :: "wire_lib \<Rightarrow> go_time \<Rightarrow> go_time" where
  "local_time W t = t\<lparr>tm_offset := ZoneOffset W (tm_unix t)\<rparr>"

text \<open>What is documented of them: what is written can be read.\<close>

definition wire_laws :: "wire_lib \<Rightarrow> bool" where
  "wire_laws W \<longleftrightarrow>
     (\<forall>t. tm_IsZero t \<longrightarrow> TimeJSON W t = JNull) \<and>
     (\<forall>t. \<not> tm_IsZero t \<longrightarrow> TimeJSON W t \<noteq> JNull \<and> JSONTime W (TimeJSON W t) = Some (local_time W t)) \<and>
     (\<forall>d. DurationJSON W d \<noteq> JNull \<and> JSONDuration W (DurationJSON W d) = Some d) \<and>
     (\<forall>k. RefJSON W k \<noteq> JNull \<and> JSONRef W (RefJSON W k) = Some k)"

subsection \<open>Enumerations\<close>

fun target_kind_string :: "target_kind \<Rightarrow> string" where
  "target_kind_string Deployment = ''Deployment''"
| "target_kind_string StatefulSet = ''StatefulSet''"
| "target_kind_string Pod = ''Pod''"

fun backup_type_string :: "backup_type \<Rightarrow> string" where
  "backup_type_string SnapshotKind = ''Snapshot''"
| "backup_type_string OnlineKind = ''Online''"
| "backup_type_string JobKind = ''Job''"

definition as_target_kind :: "json \<Rightarrow> target_kind option" where
  "as_target_kind j = do { s \<leftarrow> as_string j;
     find (\<lambda>k. target_kind_string k = s) [Deployment, StatefulSet, Pod] }"

definition as_backup_type :: "json \<Rightarrow> backup_type option" where
  "as_backup_type j = do { s \<leftarrow> as_string j;
     find (\<lambda>k. backup_type_string k = s) [OnlineKind, SnapshotKind, JobKind] }"

definition as_state :: "json \<Rightarrow> session_state option" where
  "as_state j = map_option state_of_string (as_string j)"

subsection \<open>Backup configurations (backupconfiguration_types.go)\<close>

definition step_json :: "step \<Rightarrow> json" where
  "step_json s = JObject (
     part ''finalize'' (st_Finalize s \<noteq> None) (pointer JString (st_Finalize s)) @
     part ''initialize'' (st_Initialize s \<noteq> None) (pointer JString (st_Initialize s)) @
     part ''backup'' (st_Backup s \<noteq> None) (pointer JString (st_Backup s)) @
     part ''restore'' (st_Restore s \<noteq> None) (pointer JString (st_Restore s)))"

definition json_step :: "json \<Rightarrow> step option" where
  "json_step j = do { fs \<leftarrow> as_object j;
     f \<leftarrow> optional fs ''finalize'' None (as_pointer as_string);
     i \<leftarrow> optional fs ''initialize'' None (as_pointer as_string);
     b \<leftarrow> optional fs ''backup'' None (as_pointer as_string);
     r \<leftarrow> optional fs ''restore'' None (as_pointer as_string);
     Some \<lparr>st_Finalize = f, st_Initialize = i, st_Backup = b, st_Restore = r\<rparr> }"

definition target_container_json :: "target_container \<Rightarrow> json" where
  "target_container_json c = JObject (
     part ''name'' True (JString (tc_Name c)) @
     part ''paths'' (tc_Paths c \<noteq> []) (JArray (map JString (tc_Paths c))) @
     part ''steps'' (tc_Steps c \<noteq> []) (JArray (map step_json (tc_Steps c))) @
     part ''sharePath'' True (JString (tc_SharePath c)) @
     part ''job'' (tc_Job c \<noteq> []) (JArray (map step_json (tc_Job c))))"

definition json_target_container :: "json \<Rightarrow> target_container option" where
  "json_target_container j = do { fs \<leftarrow> as_object j;
     n \<leftarrow> required fs ''name'' as_string;
     ps \<leftarrow> optional fs ''paths'' [] (as_array as_string);
     ss \<leftarrow> optional fs ''steps'' [] (as_array json_step);
     sh \<leftarrow> optional fs ''sharePath'' ''/formol-shared'' as_string;
     js \<leftarrow> optional fs ''job'' [] (as_array json_step);
     Some \<lparr>tc_Name = n, tc_Paths = ps, tc_Steps = ss, tc_SharePath = sh, tc_Job = js\<rparr> }"

definition target_json :: "target \<Rightarrow> json" where
  "target_json t = JObject (
     part ''backupType'' True (JString (backup_type_string (tg_BackupType t))) @
     part ''targetKind'' True (JString (target_kind_string (tg_TargetKind t))) @
     part ''targetName'' True (JString (tg_TargetName t)) @
     part ''containers'' True (JArray (map target_container_json (tg_Containers t))) @
     part ''retry'' True (JInt (tg_Retry t)) @
     part ''volumeSnapshotClass'' (tg_VolumeSnapshotClass t \<noteq> '''') (JString (tg_VolumeSnapshotClass t)))"

definition json_target :: "json \<Rightarrow> target option" where
  "json_target j = do { fs \<leftarrow> as_object j;
     b \<leftarrow> required fs ''backupType'' as_backup_type;
     k \<leftarrow> required fs ''targetKind'' as_target_kind;
     n \<leftarrow> required fs ''targetName'' as_string;
     cs \<leftarrow> required fs ''containers'' (as_array json_target_container);
     r \<leftarrow> optional fs ''retry'' 2 as_int;
     v \<leftarrow> optional fs ''volumeSnapshotClass'' '''' as_string;
     Some \<lparr>tg_BackupType = b, tg_TargetKind = k, tg_TargetName = n, tg_Containers = cs, tg_Retry = r,
       tg_VolumeSnapshotClass = v\<rparr> }"

definition keep_json :: "keep_policy \<Rightarrow> json" where
  "keep_json p = JObject (
     part ''last'' True (JInt (sint (kp_Last p))) @ part ''daily'' True (JInt (sint (kp_Daily p))) @
     part ''weekly'' True (JInt (sint (kp_Weekly p))) @ part ''monthly'' True (JInt (sint (kp_Monthly p))) @
     part ''yearly'' True (JInt (sint (kp_Yearly p))))"

definition json_keep :: "json \<Rightarrow> keep_policy option" where
  "json_keep j = do { fs \<leftarrow> as_object j;
     l \<leftarrow> required fs ''last'' as_int32; d \<leftarrow> required fs ''daily'' as_int32;
     w \<leftarrow> required fs ''weekly'' as_int32; m \<leftarrow> required fs ''monthly'' as_int32;
     y \<leftarrow> required fs ''yearly'' as_int32;
     Some \<lparr>kp_Last = l, kp_Daily = d, kp_Weekly = w, kp_Monthly = m, kp_Yearly = y\<rparr> }"

definition configuration_spec_json :: "backup_configuration_spec \<Rightarrow> json" where
  "configuration_spec_json s = JObject (
     part ''repository'' True (JString (bcs_Repository s)) @ part ''image'' True (JString (bcs_Image s)) @
     part ''suspend'' True (pointer JBool (bcs_Suspend s)) @ part ''schedule'' True (JString (bcs_Schedule s)) @
     part ''keep'' True (keep_json (bcs_Keep s)) @
     part ''targets'' True (JArray (map target_json (bcs_Targets s))))"

definition json_configuration_spec :: "json \<Rightarrow> backup_configuration_spec option" where
  "json_configuration_spec j = do { fs \<leftarrow> as_object j;
     r \<leftarrow> required fs ''repository'' as_string; i \<leftarrow> required fs ''image'' as_string;
     s \<leftarrow> optional fs ''suspend'' (Some False) (as_pointer as_bool);
     c \<leftarrow> required fs ''schedule'' as_string; k \<leftarrow> required fs ''keep'' json_keep;
     ts \<leftarrow> required fs ''targets'' (as_array json_target);
     Some \<lparr>bcs_Repository = r, bcs_Image = i, bcs_Suspend = s, bcs_Schedule = c, bcs_Keep = k, bcs_Targets = ts\<rparr> }"

definition configuration_status_json :: "wire_lib \<Rightarrow> backup_configuration_status \<Rightarrow> json" where
  "configuration_status_json W s = JObject (
     part ''lastBackupTime'' (bct_LastBackupTime s \<noteq> None) (pointer (TimeJSON W) (bct_LastBackupTime s)) @
     part ''suspended'' True (JBool (bct_Suspended s)) @
     part ''activeCronJob'' True (JBool (bct_ActiveCronJob s)) @
     part ''activeSidecar'' True (JBool (bct_ActiveSidecar s)))"

definition json_configuration_status :: "wire_lib \<Rightarrow> json \<Rightarrow> backup_configuration_status option" where
  "json_configuration_status W j = do { fs \<leftarrow> as_object j;
     t \<leftarrow> optional fs ''lastBackupTime'' None (as_pointer (JSONTime W));
     s \<leftarrow> required fs ''suspended'' as_bool; c \<leftarrow> required fs ''activeCronJob'' as_bool;
     a \<leftarrow> required fs ''activeSidecar'' as_bool;
     Some \<lparr>bct_LastBackupTime = t, bct_Suspended = s, bct_ActiveCronJob = c, bct_ActiveSidecar = a\<rparr> }"

text \<open>The zero values, which a missing spec or status is read as: neither field is required.\<close>

definition zero_configuration_spec :: backup_configuration_spec where
  "zero_configuration_spec = \<lparr>bcs_Repository = '''', bcs_Image = '''', bcs_Suspend = None, bcs_Schedule = '''',
     bcs_Keep = \<lparr>kp_Last = 0, kp_Daily = 0, kp_Weekly = 0, kp_Monthly = 0, kp_Yearly = 0\<rparr>, bcs_Targets = []\<rparr>"

definition zero_configuration_status :: backup_configuration_status where
  "zero_configuration_status = \<lparr>bct_LastBackupTime = None, bct_Suspended = False, bct_ActiveCronJob = False,
     bct_ActiveSidecar = False\<rparr>"

definition json_configuration :: "wire_lib \<Rightarrow> json \<Rightarrow> backup_configuration option" where
  "json_configuration W j = do { fs \<leftarrow> as_object j;
     m \<leftarrow> required fs ''metadata'' (JSONMeta W);
     s \<leftarrow> optional fs ''spec'' zero_configuration_spec json_configuration_spec;
     st \<leftarrow> optional fs ''status'' zero_configuration_status (json_configuration_status W);
     Some \<lparr>bc_Meta = m, bc_Spec = s, bc_Status = st\<rparr> }"

subsection \<open>Backup sessions and restore sessions (backupsession_types.go, restoresession_types.go)\<close>

definition target_status_json :: "wire_lib \<Rightarrow> target_status \<Rightarrow> json" where
  "target_status_json W t = JObject (
     part ''backupType'' True (JString (backup_type_string (ts_BackupType t))) @
     part ''targetName'' True (JString (ts_TargetName t)) @
     part ''targetKind'' True (JString (target_kind_string (ts_TargetKind t))) @
     part ''state'' True (JString (state_string (ts_SessionState t))) @
     part ''snapshotId'' (ts_SnapshotId t \<noteq> '''') (JString (ts_SnapshotId t)) @
     part ''startTime'' True (pointer (TimeJSON W) (ts_StartTime t)) @
     part ''duration'' (ts_Duration t \<noteq> None) (pointer (DurationJSON W) (ts_Duration t)) @
     part ''try'' True (JInt (ts_Try t)))"

definition json_target_status :: "wire_lib \<Rightarrow> json \<Rightarrow> target_status option" where
  "json_target_status W j = do { fs \<leftarrow> as_object j;
     b \<leftarrow> required fs ''backupType'' as_backup_type;
     n \<leftarrow> required fs ''targetName'' as_string;
     k \<leftarrow> required fs ''targetKind'' as_target_kind;
     s \<leftarrow> required fs ''state'' as_state;
     i \<leftarrow> optional fs ''snapshotId'' '''' as_string;
     t \<leftarrow> required fs ''startTime'' (as_pointer (JSONTime W));
     d \<leftarrow> optional fs ''duration'' None (as_pointer (JSONDuration W));
     y \<leftarrow> required fs ''try'' as_int;
     Some \<lparr>ts_BackupType = b, ts_TargetName = n, ts_TargetKind = k, ts_SessionState = s, ts_SnapshotId = i,
       ts_StartTime = t, ts_Duration = d, ts_Try = y\<rparr> }"

definition session_spec_json :: "wire_lib \<Rightarrow> backup_session_spec \<Rightarrow> json" where
  "session_spec_json W s = JObject (part ''ref'' True (RefJSON W (bss_Ref s)))"

definition json_session_spec :: "wire_lib \<Rightarrow> json \<Rightarrow> backup_session_spec option" where
  "json_session_spec W j = do { fs \<leftarrow> as_object j; r \<leftarrow> required fs ''ref'' (JSONRef W); Some \<lparr>bss_Ref = r\<rparr> }"

definition session_status_json :: "wire_lib \<Rightarrow> backup_session_status \<Rightarrow> json" where
  "session_status_json W s = JObject (
     part ''state'' True (JString (state_string (bst_SessionState s))) @
     part ''startTime'' True (pointer (TimeJSON W) (bst_StartTime s)) @
     part ''target'' (bst_Targets s \<noteq> []) (JArray (map (target_status_json W) (bst_Targets s))) @
     part ''keep'' True (JString (bst_Keep s)))"

definition json_session_status :: "wire_lib \<Rightarrow> json \<Rightarrow> backup_session_status option" where
  "json_session_status W j = do { fs \<leftarrow> as_object j;
     s \<leftarrow> required fs ''state'' as_state;
     t \<leftarrow> required fs ''startTime'' (as_pointer (JSONTime W));
     ts \<leftarrow> optional fs ''target'' [] (as_array (json_target_status W));
     k \<leftarrow> required fs ''keep'' as_string;
     Some \<lparr>bst_SessionState = s, bst_StartTime = t, bst_Targets = ts, bst_Keep = k\<rparr> }"

definition zero_session_spec :: backup_session_spec where
  "zero_session_spec = \<lparr>bss_Ref = ('''', '''')\<rparr>"

definition zero_session_status :: backup_session_status where
  "zero_session_status = \<lparr>bst_SessionState = Unset, bst_StartTime = None, bst_Targets = [], bst_Keep = ''''\<rparr>"

definition json_session :: "wire_lib \<Rightarrow> json \<Rightarrow> backup_session option" where
  "json_session W j = do { fs \<leftarrow> as_object j;
     m \<leftarrow> required fs ''metadata'' (JSONMeta W);
     s \<leftarrow> optional fs ''spec'' zero_session_spec (json_session_spec W);
     st \<leftarrow> optional fs ''status'' zero_session_status (json_session_status W);
     Some \<lparr>bs_Meta = m, bs_Spec = s, bs_Status = st\<rparr> }"

definition session_ref_json :: "wire_lib \<Rightarrow> backup_session_ref \<Rightarrow> json" where
  "session_ref_json W r = JObject (part ''spec'' True (session_spec_json W (bsr_Spec r)) @
     part ''status'' True (session_status_json W (bsr_Status r)))"

definition json_session_ref :: "wire_lib \<Rightarrow> json \<Rightarrow> backup_session_ref option" where
  "json_session_ref W j = do { fs \<leftarrow> as_object j;
     s \<leftarrow> required fs ''spec'' (json_session_spec W); st \<leftarrow> required fs ''status'' (json_session_status W);
     Some \<lparr>bsr_Spec = s, bsr_Status = st\<rparr> }"

definition restore_spec_json :: "wire_lib \<Rightarrow> restore_session_spec \<Rightarrow> json" where
  "restore_spec_json W s = JObject (part ''backupSession'' True (session_ref_json W (rss_BackupSessionRef s)))"

definition json_restore_spec :: "wire_lib \<Rightarrow> json \<Rightarrow> restore_session_spec option" where
  "json_restore_spec W j = do { fs \<leftarrow> as_object j;
     r \<leftarrow> required fs ''backupSession'' (json_session_ref W); Some \<lparr>rss_BackupSessionRef = r\<rparr> }"

definition restore_status_json :: "wire_lib \<Rightarrow> restore_session_status \<Rightarrow> json" where
  "restore_status_json W s = JObject (
     part ''state'' (state_string (rst_SessionState s) \<noteq> '''') (JString (state_string (rst_SessionState s))) @
     part ''startTime'' (rst_StartTime s \<noteq> None) (pointer (TimeJSON W) (rst_StartTime s)) @
     part ''targets'' (rst_Targets s \<noteq> []) (JArray (map (target_status_json W) (rst_Targets s))))"

definition json_restore_status :: "wire_lib \<Rightarrow> json \<Rightarrow> restore_session_status option" where
  "json_restore_status W j = do { fs \<leftarrow> as_object j;
     s \<leftarrow> optional fs ''state'' Unset as_state;
     t \<leftarrow> optional fs ''startTime'' None (as_pointer (JSONTime W));
     ts \<leftarrow> optional fs ''targets'' [] (as_array (json_target_status W));
     Some \<lparr>rst_SessionState = s, rst_StartTime = t, rst_Targets = ts\<rparr> }"

subsection \<open>Reading what was written\<close>

lemma member_part [simp]:
  "member (part n b v @ fs) m = (if n = m \<and> b then (if v = JNull then None else Some v) else member fs m)"
  "member (part n b v) m = (if n = m \<and> b then (if v = JNull then None else Some v) else None)"
  by (auto simp: member_def part_def split: option.split json.split)

lemma pointer_simps [simp]: "pointer f None = JNull" "pointer f (Some x) = f x"
  by (simp_all add: pointer_def)

lemma as_pointer_simp [simp]: "as_pointer f j = map_option Some (f j)"
  by (simp add: as_pointer_def)

text \<open>
  A writer and a reader that fit: what is written is read back as \<open>norm x\<close>, for values with \<open>ok\<close>,
  and refused for others.
\<close>

locale codec =
  fixes enc :: "'a \<Rightarrow> json" and dec :: "json \<Rightarrow> 'a option" and norm :: "'a \<Rightarrow> 'a" and ok :: "'a \<Rightarrow> bool"
  assumes read_back: "dec (enc x) = (if ok x then Some (norm x) else None)"
    and not_null: "enc x \<noteq> JNull"
begin

lemma array: "as_array dec (JArray (map enc xs)) = (if list_all ok xs then Some (map norm xs) else None)"
  by (induction xs) (auto simp: read_back split: if_splits)

end

interpretation string: codec JString as_string "\<lambda>x. x" "\<lambda>_. True"
  by unfold_locales simp_all

lemma read_kinds [simp]:
  "as_target_kind (JString (target_kind_string k)) = Some k"
  "as_backup_type (JString (backup_type_string b)) = Some b"
  by (cases k; simp add: as_target_kind_def) (cases b; simp add: as_backup_type_def)

lemma read_int32 [simp]: "as_int32 (JInt (sint i)) = Some (i :: 32 word)"
  using sint_greater_eq [of i] sint_less [of i] by simp

interpretation step: codec step_json json_step "\<lambda>x. x" "\<lambda>_. True"
proof
  fix s show "json_step (step_json s) = (if True then Some s else None)"
    by (cases "st_Finalize s"; cases "st_Initialize s"; cases "st_Backup s"; cases "st_Restore s")
      (simp_all add: json_step_def step_json_def optional_def)
qed (simp add: step_json_def)

interpretation target_container: codec target_container_json json_target_container "\<lambda>x. x" "\<lambda>_. True"
proof
  fix c show "json_target_container (target_container_json c) = (if True then Some c else None)"
    by (simp add: json_target_container_def target_container_json_def required_def optional_def
        step.array string.array list_all_iff del: as_array.simps)
qed (simp add: target_container_json_def)

text \<open>A target's retry limit has to fit Go's \<open>int\<close>; the rest of a configuration always fits.\<close>

definition fits_target :: "target \<Rightarrow> bool" where
  "fits_target t \<longleftrightarrow> in_int64 (tg_Retry t)"

interpretation target: codec target_json json_target "\<lambda>x. x" fits_target
proof
  fix t show "json_target (target_json t) = (if fits_target t then Some t else None)"
    by (simp add: json_target_def target_json_def required_def optional_def fits_target_def
        target_container.array list_all_iff del: as_array.simps)
qed (simp add: target_json_def)

interpretation keep: codec keep_json json_keep "\<lambda>x. x" "\<lambda>_. True"
proof
  fix p show "json_keep (keep_json p) = (if True then Some p else None)"
    by (simp add: json_keep_def keep_json_def required_def del: as_int32.simps)
qed (simp add: keep_json_def)

definition defaulted :: "backup_configuration_spec \<Rightarrow> backup_configuration_spec" where
  "defaulted s = (if bcs_Suspend s = None then s\<lparr>bcs_Suspend := Some False\<rparr> else s)"

definition fits_spec :: "backup_configuration_spec \<Rightarrow> bool" where
  "fits_spec s \<longleftrightarrow> list_all fits_target (bcs_Targets s)"

interpretation configuration_spec: codec configuration_spec_json json_configuration_spec defaulted fits_spec
proof
  fix s show "json_configuration_spec (configuration_spec_json s) = (if fits_spec s then Some (defaulted s) else None)"
    by (cases "bcs_Suspend s")
      (simp_all add: json_configuration_spec_def configuration_spec_json_def required_def optional_def fits_spec_def
        defaulted_def keep.read_back keep.not_null target.array del: as_array.simps)
qed (simp add: configuration_spec_json_def)

text \<open>Statuses: a required time has to be there and not be the zero time, which is written as null.\<close>

definition local_pointer :: "wire_lib \<Rightarrow> go_time option \<Rightarrow> go_time option" where
  "local_pointer W p = (if ptr_IsZero p then None else map_option (local_time W) p)"

definition reread_state :: "session_state \<Rightarrow> session_state" where
  "reread_state st = state_of_string (state_string st)"

definition reread_target_status :: "wire_lib \<Rightarrow> target_status \<Rightarrow> target_status" where
  "reread_target_status W t = t\<lparr>ts_SessionState := reread_state (ts_SessionState t),
     ts_StartTime := local_pointer W (ts_StartTime t)\<rparr>"

definition fits_target_status :: "target_status \<Rightarrow> bool" where
  "fits_target_status t \<longleftrightarrow> \<not> ptr_IsZero (ts_StartTime t) \<and> in_int64 (ts_Try t)"

lemma wire_lawsD:
  assumes "wire_laws W"
  shows "pointer (TimeJSON W) p = JNull \<longleftrightarrow> ptr_IsZero p"
    "\<not> ptr_IsZero p \<Longrightarrow> map_option Some (JSONTime W (pointer (TimeJSON W) p)) = Some (local_pointer W p)"
    "DurationJSON W d \<noteq> JNull" "JSONDuration W (DurationJSON W d) = Some d"
    "RefJSON W k \<noteq> JNull" "JSONRef W (RefJSON W k) = Some k"
  using assms unfolding wire_laws_def
  by (cases p; simp add: ptr_IsZero_def local_pointer_def; blast)+

lemma read_state_string [simp]: "as_state (JString (state_string st)) = Some (reread_state st)"
  by (simp add: as_state_def reread_state_def)

lemma target_status_codec:
  assumes W: "wire_laws W"
  shows "codec (target_status_json W) (json_target_status W) (reread_target_status W) fits_target_status"
proof
  fix t :: target_status
  show "json_target_status W (target_status_json W t) = (if fits_target_status t then Some (reread_target_status W t) else None)"
    by (cases "ts_Duration t")
      (auto simp: json_target_status_def target_status_json_def required_def optional_def fits_target_status_def
        reread_target_status_def wire_lawsD [OF W])
qed (simp add: target_status_json_def)

definition reread_session_status :: "wire_lib \<Rightarrow> backup_session_status \<Rightarrow> backup_session_status" where
  "reread_session_status W s = s\<lparr>bst_SessionState := reread_state (bst_SessionState s),
     bst_StartTime := local_pointer W (bst_StartTime s),
     bst_Targets := map (reread_target_status W) (bst_Targets s)\<rparr>"

definition fits_session_status :: "backup_session_status \<Rightarrow> bool" where
  "fits_session_status s \<longleftrightarrow> \<not> ptr_IsZero (bst_StartTime s) \<and> list_all fits_target_status (bst_Targets s)"

lemma session_status_codec:
  assumes W: "wire_laws W"
  shows "codec (session_status_json W) (json_session_status W) (reread_session_status W) fits_session_status"
proof
  fix s :: backup_session_status
  show "json_session_status W (session_status_json W s) = (if fits_session_status s then Some (reread_session_status W s) else None)"
    by (auto simp: json_session_status_def session_status_json_def required_def optional_def fits_session_status_def
        reread_session_status_def wire_lawsD [OF W] codec.array [OF target_status_codec [OF W]] simp del: as_array.simps)
qed (simp add: session_status_json_def)

definition reread_restore_status :: "wire_lib \<Rightarrow> restore_session_status \<Rightarrow> restore_session_status" where
  "reread_restore_status W s = s\<lparr>rst_SessionState := reread_state (rst_SessionState s),
     rst_StartTime := local_pointer W (rst_StartTime s),
     rst_Targets := map (reread_target_status W) (rst_Targets s)\<rparr>"

definition fits_restore_status :: "restore_session_status \<Rightarrow> bool" where
  "fits_restore_status s \<longleftrightarrow> list_all fits_target_status (rst_Targets s)"

lemma reread_empty: "state_string st = '''' \<Longrightarrow> reread_state st = Unset"
proof -
  have "state_of_string '''' = Unset" by code_simp
  then show "state_string st = '''' \<Longrightarrow> reread_state st = Unset" by (simp add: reread_state_def)
qed

lemma restore_status_codec:
  assumes W: "wire_laws W"
  shows "codec (restore_status_json W) (json_restore_status W) (reread_restore_status W) fits_restore_status"
proof
  fix s :: restore_session_status
  have "local_pointer W None = None" "ptr_IsZero None" by (simp_all add: local_pointer_def ptr_IsZero_def)
  then show "json_restore_status W (restore_status_json W s) = (if fits_restore_status s then Some (reread_restore_status W s) else None)"
    by (cases "rst_StartTime s = None"; cases "ptr_IsZero (rst_StartTime s)"; cases "state_string (rst_SessionState s) = ''''")
      (simp_all add: json_restore_status_def restore_status_json_def optional_def fits_restore_status_def reread_empty
        reread_restore_status_def wire_lawsD [OF W] local_pointer_def codec.array [OF target_status_codec [OF W]]
        del: as_array.simps)
qed (simp add: restore_status_json_def)

definition reread_configuration_status :: "wire_lib \<Rightarrow> backup_configuration_status \<Rightarrow> backup_configuration_status" where
  "reread_configuration_status W s = s\<lparr>bct_LastBackupTime := local_pointer W (bct_LastBackupTime s)\<rparr>"

lemma configuration_status_codec:
  assumes W: "wire_laws W"
  shows "codec (configuration_status_json W) (json_configuration_status W) (reread_configuration_status W) (\<lambda>_. True)"
proof
  fix s :: backup_configuration_status
  show "json_configuration_status W (configuration_status_json W s) =
      (if True then Some (reread_configuration_status W s) else None)"
    by (cases "bct_LastBackupTime s = None"; cases "ptr_IsZero (bct_LastBackupTime s)")
      (simp_all add: json_configuration_status_def configuration_status_json_def required_def optional_def
        reread_configuration_status_def wire_lawsD [OF W] local_pointer_def)
qed (simp add: configuration_status_json_def)

lemma session_spec_codec:
  assumes W: "wire_laws W"
  shows "codec (session_spec_json W) (json_session_spec W) (\<lambda>s. s) (\<lambda>_. True)"
proof
  fix s :: backup_session_spec
  show "json_session_spec W (session_spec_json W s) = (if True then Some s else None)"
    by (simp add: json_session_spec_def session_spec_json_def required_def wire_lawsD [OF W])
qed (simp add: session_spec_json_def)

lemma restore_spec_codec:
  assumes W: "wire_laws W"
  shows "codec (restore_spec_json W) (json_restore_spec W)
    (\<lambda>s. s\<lparr>rss_BackupSessionRef := (rss_BackupSessionRef s)\<lparr>bsr_Status :=
      reread_session_status W (bsr_Status (rss_BackupSessionRef s))\<rparr>\<rparr>)
    (\<lambda>s. fits_session_status (bsr_Status (rss_BackupSessionRef s)))"
proof
  fix s :: restore_session_spec
  note spec = codec.read_back [OF session_spec_codec [OF W]] codec.not_null [OF session_spec_codec [OF W]]
  note status = codec.read_back [OF session_status_codec [OF W]] codec.not_null [OF session_status_codec [OF W]]
  show "json_restore_spec W (restore_spec_json W s) = (if fits_session_status (bsr_Status (rss_BackupSessionRef s))
      then Some (s\<lparr>rss_BackupSessionRef := (rss_BackupSessionRef s)\<lparr>bsr_Status :=
        reread_session_status W (bsr_Status (rss_BackupSessionRef s))\<rparr>\<rparr>) else None)"
    by (simp add: json_restore_spec_def restore_spec_json_def json_session_ref_def session_ref_json_def required_def spec status)
qed (simp add: restore_spec_json_def)

subsection \<open>What has been read\<close>

lemma as_array_Some: "as_array f j = Some xs \<Longrightarrow> x \<in> set xs \<Longrightarrow> \<exists>j'. f j' = Some x"
proof -
  assume "as_array f j = Some xs" and x: "x \<in> set xs"
  then obtain js where "map f js = map Some xs" by (cases j) (auto simp: those_eq_Some_iff)
  then have "Some ` set xs = f ` set js" by (metis list.set_map)
  with x show "\<exists>j'. f j' = Some x" by (metis imageE imageI)
qed

lemma as_int_Some: "as_int j = Some i \<Longrightarrow> in_int64 i"
  by (cases j) (auto split: if_splits)

lemma json_target_fits:
  assumes "json_target j = Some t" shows "fits_target t"
proof -
  obtain fs r where "optional fs ''retry'' 2 as_int = Some r" "tg_Retry t = r"
    using assms by (auto simp: json_target_def bind_eq_Some_conv)
  moreover have "in_int64 2" by (simp add: in_int64_def)
  ultimately show ?thesis by (auto simp: optional_def fits_target_def dest: as_int_Some split: option.splits)
qed

lemma json_spec_facts:
  assumes "json_configuration_spec j = Some s"
  shows "fits_spec s" "bcs_Suspend s \<noteq> None"
proof -
  obtain fs where "required fs ''targets'' (as_array json_target) = Some (bcs_Targets s)"
    and suspend: "optional fs ''suspend'' (Some False) (as_pointer as_bool) = Some (bcs_Suspend s)"
    using assms by (auto simp: json_configuration_spec_def bind_eq_Some_conv)
  then obtain j' where "as_array json_target j' = Some (bcs_Targets s)" by (auto simp: required_def split: option.splits)
  then show "fits_spec s" using as_array_Some json_target_fits by (fastforce simp: fits_spec_def list_all_iff)
  show "bcs_Suspend s \<noteq> None" using suspend [symmetric] by (auto simp: optional_def map_option_case split: option.splits)
qed

subsection \<open>Properties\<close>

text \<open>
  C14: a configuration's spec survives the wire. Whatever JSON the API server accepted as the spec of
  a backup configuration and completed with the defaults, the controller that reads it can write it
  back (as it does when it adds its finalizer), and reading that gives the same spec again: no
  field is lost, and no default replaces a value that is there, a retry limit of zero included.
\<close>

theorem configuration_specs_round_trip:
  assumes "json_configuration_spec j = Some s"
  shows "json_configuration_spec (configuration_spec_json s) = Some s"
  using json_spec_facts [OF assms] by (simp add: configuration_spec.read_back defaulted_def)

definition sample_spec_json :: json where
  "sample_spec_json = JObject [(''repository'', JString ''repo-minio''), (''image'', JString ''formolcli''),
     (''schedule'', JString ''15 * * * *''), (''suspend'', JNull),
     (''keep'', JObject [(''last'', JInt 5), (''daily'', JInt 2), (''weekly'', JInt 2), (''monthly'', JInt 2), (''yearly'', JInt 2)]),
     (''targets'', JArray [JObject [(''backupType'', JString ''Online''), (''targetKind'', JString ''Deployment''),
       (''targetName'', JString ''apache''), (''retry'', JInt 0),
       (''containers'', JArray [JObject [(''name'', JString ''apache''), (''paths'', JArray [JString ''/data''])]])]])]"

definition sample_spec :: backup_configuration_spec where
  "sample_spec = \<lparr>bcs_Repository = ''repo-minio'', bcs_Image = ''formolcli'', bcs_Suspend = Some False,
     bcs_Schedule = ''15 * * * *'',
     bcs_Keep = \<lparr>kp_Last = 5, kp_Daily = 2, kp_Weekly = 2, kp_Monthly = 2, kp_Yearly = 2\<rparr>,
     bcs_Targets = [\<lparr>tg_BackupType = OnlineKind, tg_TargetKind = Deployment, tg_TargetName = ''apache'',
       tg_Containers = [\<lparr>tc_Name = ''apache'', tc_Paths = [''/data''], tc_Steps = [], tc_SharePath = ''/formol-shared'',
         tc_Job = []\<rparr>], tg_Retry = 0, tg_VolumeSnapshotClass = ''''\<rparr>]\<rparr>"

lemma sample_spec_read: "json_configuration_spec sample_spec_json = Some sample_spec"
  by (simp add: sample_spec_json_def sample_spec_def json_configuration_spec_def required_def optional_def member_def
      json_keep_def json_target_def json_target_container_def as_backup_type_def as_target_kind_def in_int64_def)

theorem configuration_specs_round_trip_witness:
  "json_configuration_spec (configuration_spec_json sample_spec) = Some sample_spec"
  by (rule configuration_specs_round_trip [OF sample_spec_read])

text \<open>
  C39: a session's status is accepted exactly when its times are there. The API server accepts the status
  of a backup session if and only if the session and all its targets have a start time other
  than the zero time and the attempts fit Go's \<open>int\<close>; what is read back then is what was written, with the times
  in the time zone of the reader. A restore session needs the times of its targets only.
\<close>

theorem statuses_need_their_times:
  assumes "wire_laws W"
  shows "json_session_status W (session_status_json W s) =
      (if \<not> ptr_IsZero (bst_StartTime s) \<and>
          (\<forall>t \<in> set (bst_Targets s). \<not> ptr_IsZero (ts_StartTime t) \<and> in_int64 (ts_Try t))
       then Some (reread_session_status W s) else None) \<and>
    json_restore_status W (restore_status_json W r) =
      (if \<forall>t \<in> set (rst_Targets r). \<not> ptr_IsZero (ts_StartTime t) \<and> in_int64 (ts_Try t)
       then Some (reread_restore_status W r) else None)"
  using codec.read_back [OF session_status_codec [OF assms]] codec.read_back [OF restore_status_codec [OF assms]]
  by (simp add: fits_session_status_def fits_restore_status_def fits_target_status_def list_all_iff)

text \<open>Times and durations as numbers, references and metadata as arrays of strings.\<close>

definition sample_wire :: wire_lib where
  "sample_wire = \<lparr>
     TimeJSON = (\<lambda>t. if tm_IsZero t then JNull else JInt (tm_unix t)),
     JSONTime = (\<lambda>j. case j of JInt i \<Rightarrow> Some \<lparr>tm_unix = i, tm_offset = 3600\<rparr> | _ \<Rightarrow> None),
     ZoneOffset = (\<lambda>_. 3600), DurationJSON = JInt, JSONDuration = (\<lambda>j. case j of JInt i \<Rightarrow> Some i | _ \<Rightarrow> None),
     RefJSON = (\<lambda>(ns, n). JArray [JString ns, JString n]),
     JSONRef = (\<lambda>j. case j of JArray [JString ns, JString n] \<Rightarrow> Some (ns, n) | _ \<Rightarrow> None),
     MetaJSON = (\<lambda>m. JArray [JString (om_Namespace m), JString (om_Name m)]),
     JSONMeta = (\<lambda>j. case j of JArray [JString ns, JString n] \<Rightarrow> Some (named_meta ns n) | _ \<Rightarrow> None)\<rparr>"

lemma sample_wire_laws: "wire_laws sample_wire"
  by (auto simp: wire_laws_def sample_wire_def local_time_def)

theorem statuses_need_their_times_witness:
  "json_session_status sample_wire (session_status_json sample_wire
     \<lparr>bst_SessionState = New, bst_StartTime = None, bst_Targets = [], bst_Keep = ''''\<rparr>) = None \<and>
   json_session_status sample_wire (session_status_json sample_wire
     \<lparr>bst_SessionState = New, bst_StartTime = Some \<lparr>tm_unix = 9, tm_offset = 0\<rparr>, bst_Targets = [], bst_Keep = ''''\<rparr>) =
     Some \<lparr>bst_SessionState = New, bst_StartTime = Some \<lparr>tm_unix = 9, tm_offset = 3600\<rparr>, bst_Targets = [], bst_Keep = ''''\<rparr>"
proof -
  have "reread_state New = New" by (simp add: reread_state_def) code_simp
  moreover have "\<not> tm_IsZero \<lparr>tm_unix = 9, tm_offset = 0\<rparr>" by (simp add: tm_IsZero_def zero_time_def)
  ultimately show ?thesis
    using statuses_need_their_times [OF sample_wire_laws]
    by (simp add: ptr_IsZero_def reread_session_status_def local_pointer_def local_time_def sample_wire_def)
qed

end
