(* ===== verification/Admission.thy ===== *)
theory Admission
  imports Wire BackupConf Manager
begin

section \<open>The controllers and the validation of the API server\<close>

text \<open>
  What the API server accepts and fills in (theory Wire) is all the controllers see, and what they
  write goes through the same checks. The theory composes the two: a configuration that was
  admitted cannot make its controller panic, and no status a controller writes is refused.
\<close>

subsection \<open>Admitted configurations\<close>

text \<open>A configuration that was admitted with a spec.\<close>

definition declared :: "wire_lib \<Rightarrow> backup_configuration \<Rightarrow> bool" where
  "declared W conf \<longleftrightarrow> (\<exists>fs. json_configuration W (JObject fs) = Some conf \<and> member fs ''spec'' \<noteq> None)"

lemma declared_spec:
  assumes "declared W conf"
  obtains j where "json_configuration_spec j = Some (bc_Spec conf)"
  using assms by (auto simp: declared_def json_configuration_def bind_eq_Some_conv optional_def split: option.splits)

lemma of_option_no_panic: "x \<noteq> None \<Longrightarrow> no_panic (of_option x)"
  by (auto simp: of_option_def no_panic_intros)

lemma AddCronJob_no_panic: "bcs_Suspend (bc_Spec conf) \<noteq> None \<Longrightarrow> no_panic (AddCronJob L A conf)"
  unfolding AddCronJob_def Let_def case_prod_unfold by (intro no_panic_intros of_option_no_panic)

lemma createBSCreatorRBAC_no_panic: "no_panic (createBSCreatorRBAC A ns)"
  unfolding createBSCreatorRBAC_def create_if_missing_def by (intro no_panic_intros)

lemma createSidecarRBAC_no_panic: "no_panic (createSidecarRBAC A ns p)"
  unfolding createSidecarRBAC_def create_if_missing_def bind_sidecar_def Let_def by (intro no_panic_intros)

lemma addSidecar_no_panic:
  assumes "tg_TargetKind tg \<noteq> Pod" shows "no_panic (addSidecar A ns conf tg)"
proof -
  obtain k where k: "GetTargetObjects (tg_TargetKind tg) = Some k" using target_kind_known [OF assms] by blast
  have "no_panic (case hasSidecar (ps_Containers (wl_PodSpec wl)) of
      Some res \<Rightarrow> if ct_Image (ps_Containers (wl_PodSpec wl) ! res) \<noteq> bcs_Image (bc_Spec conf) then
          call (api_Update A (OWorkload k (wl\<lparr>wl_PodSpec :=
            set_image (bcs_Image (bc_Spec conf)) res (wl_PodSpec wl)\<rparr>))) else ret ()
    | None \<Rightarrow> bind_go (createSidecarRBAC A ns (wl_PodSpec wl)) (\<lambda>_.
          call (api_Update A (OWorkload k (wl\<lparr>wl_PodSpec := add_sidecar conf tg r (wl_PodSpec wl)\<rparr>)))))" for wl r
    by (simp split: option.split) (intro conjI impI allI no_panic_intros createSidecarRBAC_no_panic)
  then show ?thesis unfolding addSidecar_def k option.case by (intro no_panic_intros)
qed

text \<open>
  C13: an admitted configuration does not make its controller panic. Whatever spec a user wrote, if the
  API server admitted it and no target has the kind \<open>Pod\<close>, a reconciliation of the configuration
  returns, with or without an error, whatever the cluster is like and whatever calls fail: the
  default of \<open>Suspend\<close> is what keeps the cron job code from dereferencing nil.
\<close>

theorem admitted_configurations_do_not_panic:
  assumes "api_BackupConfiguration A req w = (Inr conf, w1)" and "declared W conf" and "no_pod_targets conf"
  shows "fst (reconcileBackupConfiguration L A req w) \<noteq> Panic"
proof -
  obtain j where "json_configuration_spec j = Some (bc_Spec conf)" by (rule declared_spec [OF assms(2)])
  then have suspend: "bcs_Suspend (bc_Spec conf) \<noteq> None" by (rule json_spec_facts)
  have "no_panic (releaseConfiguration L A (fst req) conf)"
    unfolding releaseConfiguration_def
    by (intro no_panic_intros DeleteSidecar_no_panic [OF assms(3)] DeleteCronJob_no_panic deleteRBAC_no_panic)
  moreover have "no_panic (addSidecar A (fst req) conf tg)" if "tg \<in> set (bcs_Targets (bc_Spec conf))" for tg
    using that assms(3) by (intro addSidecar_no_panic) (auto simp: no_pod_targets_def)
  then have "no_panic (setUpConfiguration L A (fst req) conf)"
    unfolding setUpConfiguration_def
    by (intro no_panic_intros AddCronJob_no_panic [OF suspend] createBSCreatorRBAC_no_panic)
  ultimately have "no_panic (if \<not> ptr_IsZero (om_DeletionTimestamp (bc_Meta conf)) then releaseConfiguration L A (fst req) conf
      else if \<not> ContainsFinalizer L (om_Finalizers (bc_Meta conf)) confFinalizerName then
        bind_go (call (api_Update A (OBackupConfiguration (with_finalizers
          (AddFinalizer L (om_Finalizers (bc_Meta conf)) confFinalizerName) conf)))) (\<lambda>_. ret no_requeue)
      else setUpConfiguration L A (fst req) conf)"
    by (intro no_panic_intros)
  then show ?thesis
    unfolding reconcileBackupConfiguration_def no_panic_def
    using assms(1) by (simp add: bind_go_run try_go_run call_run)
qed

text \<open>A configuration as a user writes it, in a cluster that has nothing else.\<close>

definition sample_object :: "(string \<times> json) list" where
  "sample_object = [(''metadata'', JArray [JString ''demo'', JString ''backup-demo'']), (''spec'', sample_spec_json)]"

definition sample_declared :: backup_configuration where
  "sample_declared = \<lparr>bc_Meta = named_meta ''demo'' ''backup-demo'', bc_Spec = sample_spec, bc_Status = zero_configuration_status\<rparr>"

lemma sample_is_declared: "declared sample_wire sample_declared"
  unfolding declared_def
proof (intro exI conjI)
  have spec: "member sample_object ''spec'' = Some sample_spec_json"
    by (simp add: sample_object_def member_def) (simp add: sample_spec_json_def)
  then show "member sample_object ''spec'' \<noteq> None" by simp
  have "member sample_object ''metadata'' = Some (JArray [JString ''demo'', JString ''backup-demo''])"
    "member sample_object ''status'' = None"
    by (simp_all add: sample_object_def member_def)
  with spec show "json_configuration sample_wire (JObject sample_object) = Some sample_declared"
    by (simp add: json_configuration_def required_def optional_def sample_spec_read sample_declared_def sample_wire_def)
qed

theorem admitted_configurations_do_not_panic_witness:
  "fst (reconcileBackupConfiguration sample_lib mem_api (''demo'', ''backup-demo'')
     (empty_cluster\<lparr>cl_Confs := [(''demo'', ''backup-demo'') \<mapsto> sample_declared]\<rparr>)) \<noteq> Panic"
  by (rule admitted_configurations_do_not_panic [OF _ sample_is_declared])
    (simp_all add: mem_api_def no_pod_targets_def sample_declared_def sample_spec_def)

subsection \<open>What the controllers write\<close>

text \<open>
  Whether the part of an object that a call writes passes the checks of the API server, for the
  calls that write one of formol's own objects. The other kinds are checked by rules of their own,
  which are not in this repository.
\<close>

fun validated :: "wire_lib \<Rightarrow> api_call \<Rightarrow> bool option" where
  "validated W (StatusUpdateCall (OBackupConfiguration conf)) =
     Some (json_configuration_status W (configuration_status_json W (bc_Status conf)) \<noteq> None)"
| "validated W (StatusUpdateCall (OBackupSession s)) =
     Some (json_session_status W (session_status_json W (bs_Status s)) \<noteq> None)"
| "validated W (StatusUpdateCall (ORestoreSession r)) =
     Some (json_restore_status W (restore_status_json W (rs_Status r)) \<noteq> None)"
| "validated W (UpdateCall (OBackupConfiguration conf)) =
     Some (json_configuration_spec (configuration_spec_json (bc_Spec conf)) \<noteq> None)"
| "validated W (UpdateCall (OBackupSession s)) = Some (json_session_spec W (session_spec_json W (bs_Spec s)) \<noteq> None)"
| "validated W (UpdateCall (ORestoreSession r)) = Some (json_restore_spec W (restore_spec_json W (rs_Spec r)) \<noteq> None)"
| "validated W (CreateCall (OBackupConfiguration conf)) =
     Some (json_configuration_spec (configuration_spec_json (bc_Spec conf)) \<noteq> None)"
| "validated W (CreateCall (OBackupSession s)) = Some (json_session_spec W (session_spec_json W (bs_Spec s)) \<noteq> None)"
| "validated W (CreateCall (ORestoreSession r)) = Some (json_restore_spec W (restore_spec_json W (rs_Spec r)) \<noteq> None)"
| "validated W _ = None"

definition not_refused :: "wire_lib \<Rightarrow> api_call \<Rightarrow> bool" where
  "not_refused W c \<longleftrightarrow> validated W c \<noteq> Some False"

lemma not_refused_simps:
  assumes W: "wire_laws W"
  shows "not_refused W (StatusUpdateCall (OBackupConfiguration conf))"
    "not_refused W (StatusUpdateCall (OBackupSession s)) \<longleftrightarrow> fits_session_status (bs_Status s)"
    "not_refused W (StatusUpdateCall (ORestoreSession r)) \<longleftrightarrow> fits_restore_status (rs_Status r)"
    "not_refused W (UpdateCall (OBackupConfiguration conf)) \<longleftrightarrow> fits_spec (bc_Spec conf)"
    "not_refused W (UpdateCall (OBackupSession s))"
  by (simp_all add: not_refused_def codec.read_back [OF configuration_status_codec [OF W]]
      codec.read_back [OF session_status_codec [OF W]] codec.read_back [OF restore_status_codec [OF W]]
      configuration_spec.read_back codec.read_back [OF session_spec_codec [OF W]])

text \<open>
  What the API server has of the objects it hands out: a session has no status yet or one that was
  accepted, so has a restore, and a configuration was admitted with a spec.
\<close>

definition admitted_status :: "wire_lib \<Rightarrow> backup_session_status \<Rightarrow> bool" where
  "admitted_status W st \<longleftrightarrow> st = zero_session_status \<or> (\<exists>j. json_session_status W j = Some st)"

definition reads_admitted :: "wire_lib \<Rightarrow> 'w api \<Rightarrow> bool" where
  "reads_admitted W A \<longleftrightarrow>
     (\<forall>k w s w'. api_BackupSession A k w = (Inr s, w') \<longrightarrow> admitted_status W (bs_Status s)) \<and>
     (\<forall>ns v w xs w'. api_ListBackupSessions A ns v w = (Inr xs, w') \<longrightarrow>
        (\<forall>s \<in> set xs. admitted_status W (bs_Status s) \<and> v \<in> set (sessionStateIndex s))) \<and>
     (\<forall>k w s w'. api_RestoreSession A k w = (Inr s, w') \<longrightarrow> (\<exists>j. json_restore_status W j = Some (rs_Status s))) \<and>
     (\<forall>k w conf w'. api_BackupConfiguration A k w = (Inr conf, w') \<longrightarrow> declared W conf)"

text \<open>Nobody spelled out the zero time, year 1, in the status of a session or of one of its targets.\<close>

definition zero_is_set :: "go_time option \<Rightarrow> bool" where
  "zero_is_set p \<longleftrightarrow> p \<noteq> None \<and> ptr_IsZero p"

definition no_zero_times :: "'w api \<Rightarrow> bool" where
  "no_zero_times A \<longleftrightarrow>
     (\<forall>k w s w'. api_BackupSession A k w = (Inr s, w') \<longrightarrow>
        \<not> zero_is_set (bst_StartTime (bs_Status s)) \<and> (\<forall>t \<in> set (bst_Targets (bs_Status s)). \<not> zero_is_set (ts_StartTime t))) \<and>
     (\<forall>ns v w xs w'. api_ListBackupSessions A ns v w = (Inr xs, w') \<longrightarrow> (\<forall>s \<in> set xs.
        \<not> zero_is_set (bst_StartTime (bs_Status s)) \<and> (\<forall>t \<in> set (bst_Targets (bs_Status s)). \<not> zero_is_set (ts_StartTime t)))) \<and>
     (\<forall>k w s w'. api_RestoreSession A k w = (Inr s, w') \<longrightarrow> (\<forall>t \<in> set (rst_Targets (rs_Status s)). \<not> zero_is_set (ts_StartTime t)))"

text \<open>Then the statuses that are read would be accepted again, but for the one that is not there yet.\<close>

definition kept :: "backup_session_status \<Rightarrow> bool" where
  "kept st \<longleftrightarrow> st = zero_session_status \<or> fits_session_status st"

lemma read_time: "required fs n (as_pointer f) = Some p \<Longrightarrow> p \<noteq> None"
  by (auto simp: required_def split: option.splits)

lemma read_target_fits:
  assumes "json_target_status W j = Some t" "\<not> zero_is_set (ts_StartTime t)" shows "fits_target_status t"
proof -
  obtain fs where "required fs ''startTime'' (as_pointer (JSONTime W)) = Some (ts_StartTime t)"
    and "required fs ''try'' as_int = Some (ts_Try t)"
    using assms(1) by (auto simp: json_target_status_def bind_eq_Some_conv)
  from read_time [OF this(1)] this(2) have "ts_StartTime t \<noteq> None" "in_int64 (ts_Try t)"
    by (auto simp: required_def dest: as_int_Some split: option.splits)
  with assms(2) show ?thesis by (simp add: fits_target_status_def zero_is_set_def)
qed

lemma read_targets_fit:
  assumes "optional fs n [] (as_array (json_target_status W)) = Some ts" "\<forall>t \<in> set ts. \<not> zero_is_set (ts_StartTime t)"
  shows "list_all fits_target_status ts"
  using assms read_target_fits as_array_Some [of "json_target_status W" _ ts]
  by (fastforce simp: optional_def list_all_iff split: option.splits)

lemma admitted_is_kept:
  assumes "admitted_status W st" "\<not> zero_is_set (bst_StartTime st)" "\<forall>t \<in> set (bst_Targets st). \<not> zero_is_set (ts_StartTime t)"
  shows "kept st"
proof (cases "st = zero_session_status")
  case False
  then obtain j where "json_session_status W j = Some st" using assms(1) by (auto simp: admitted_status_def)
  then obtain fs where "required fs ''startTime'' (as_pointer (JSONTime W)) = Some (bst_StartTime st)"
    and "optional fs ''target'' [] (as_array (json_target_status W)) = Some (bst_Targets st)"
    by (auto simp: json_session_status_def bind_eq_Some_conv)
  from read_time [OF this(1)] read_targets_fit [OF this(2) assms(3)] assms(2) show ?thesis
    by (simp add: kept_def fits_session_status_def zero_is_set_def)
qed (simp add: kept_def)

lemma admitted_restore_fits:
  assumes "json_restore_status W j = Some st" "\<forall>t \<in> set (rst_Targets st). \<not> zero_is_set (ts_StartTime t)"
  shows "fits_restore_status st"
proof -
  obtain fs where "optional fs ''targets'' [] (as_array (json_target_status W)) = Some (rst_Targets st)"
    using assms(1) by (auto simp: json_restore_status_def bind_eq_Some_conv)
  with assms(2) read_targets_fit show ?thesis by (simp add: fits_restore_status_def)
qed

lemma reads_admittedD:
  assumes "reads_admitted W A" "no_zero_times A"
  shows "api_BackupSession A k w = (Inr s, w') \<Longrightarrow> kept (bs_Status s)"
    "api_ListBackupSessions A ns v w = (Inr xs, w') \<Longrightarrow> \<forall>s \<in> set xs. kept (bs_Status s) \<and> v \<in> set (sessionStateIndex s)"
    "api_RestoreSession A k w = (Inr r, w') \<Longrightarrow> fits_restore_status (rs_Status r)"
    "api_BackupConfiguration A k w = (Inr conf, w') \<Longrightarrow> declared W conf"
  using assms(1)[unfolded reads_admitted_def] assms(2)[unfolded no_zero_times_def] admitted_is_kept admitted_restore_fits
  by meson+

lemma emits_read:
  assumes "P c" and "\<And>w a w'. f w = (Inr a, w') \<Longrightarrow> Q a"
  shows "emits P (call (log_call c f)) Q"
proof (rule emitsI)
  fix w l
  obtain x w' where f: "f w = (x, w')" by (cases "f w")
  with assms show "\<exists>r w' l'. call (log_call c f) (w, l) = (r, (w', l @ l')) \<and> list_all P l' \<and>
      (\<forall>a. r = Ret a \<longrightarrow> Q a)"
    by (cases x) (auto simp: call_def log_call_def)
qed

text \<open>The checks keep the times and count the attempts no further than the limit.\<close>

lemma checkLoop_fits:
  assumes "\<not> tm_IsZero now" and "list_all fits_target tgs" and "list_all fits_target_status tss"
    and "checkLoop now tgs cur wt nxt i tss = Some (r, tss')"
  shows "list_all fits_target_status tss'"
  using assms(3,4)
proof (induction tss arbitrary: i r tss')
  case (Cons t ts)
  have limit: "in_int64 (ts_Try t + 1)" if "i < length tgs" "ts_Try t < tg_Retry (tgs ! i)"
    using assms(2) Cons.prems(1) that by (auto simp: list_all_length fits_target_def fits_target_status_def in_int64_def)
  have IH: "list_all fits_target_status ts'" if "checkLoop now tgs cur wt nxt (Suc i) ts = Some (q, ts')" for q ts'
    using Cons.IH [OF _ that] Cons.prems(1) by simp
  have marked: "fits_target_status (t\<lparr>ts_SessionState := st\<rparr>) = fits_target_status t"
    "fits_target_status (t\<lparr>ts_SessionState := st, ts_Try := n, ts_StartTime := Some now\<rparr>) = in_int64 n" for st n
    using assms(1) by (simp_all add: fits_target_status_def ptr_IsZero_def)
  show ?case
    using Cons.prems limit IH by (auto simp: marked split: if_splits)
qed simp

lemma initSession_fits:
  assumes "\<forall>i. \<not> tm_IsZero (now i)"
  shows "list_all fits_target_status (initSession now conf)"
  using assms by (auto simp: initSession_def list_all_iff fits_target_status_def ptr_IsZero_def in_int64_def)

lemma checks_fit:
  assumes "\<not> tm_IsZero now" and "fits_spec (bc_Spec conf)" and "list_all fits_target_status tss"
  shows "checkInitialized now tss conf = Some (r, tss') \<Longrightarrow> list_all fits_target_status tss'"
    "checkWaiting now tss conf = Some (r, tss') \<Longrightarrow> list_all fits_target_status tss'"
    "checkSuccess now tss conf = Some (r, tss') \<Longrightarrow> list_all fits_target_status tss'"
  using checkLoop_fits [OF assms(1) _ assms(3)] assms(2)
  unfolding checkInitialized_def checkWaiting_def checkSuccess_def checkSessionState_def fits_spec_def by blast+

lemma declared_fits: "declared W conf \<Longrightarrow> fits_spec (bc_Spec conf)"
  using declared_spec json_spec_facts(1) by metis

text \<open>What was accepted and is read back is again something the API server keeps.\<close>

lemma accepted_is_kept:
  assumes W: "wire_laws W" and "json_session_status W (session_status_json W s) = Some s'"
  shows "kept s'"
proof -
  have time: "ptr_IsZero (local_pointer W p) = ptr_IsZero p" for p
    by (auto simp: local_pointer_def ptr_IsZero_def local_time_def tm_IsZero_def split: option.split)
  have "fits_target_status (reread_target_status W t) = fits_target_status t" for t
    by (simp add: fits_target_status_def reread_target_status_def time)
  then have "fits_session_status (reread_session_status W s) = fits_session_status s"
    by (simp add: fits_session_status_def reread_session_status_def time list_all_iff)
  with assms(2) show ?thesis
    by (auto simp: codec.read_back [OF session_status_codec [OF W]] kept_def split: if_splits)
qed

subsection \<open>Every write of the controllers\<close>

lemma not_refused_reads [emits_intros]:
  "not_refused W (GetCall r k)" "not_refused W (ListCall ns v)" "not_refused W (DeleteCall x)"
  "not_refused W (CreateCall (OCronJob cj))" "not_refused W (CreateCall (OJob jb))"
  "not_refused W (CreateCall (OServiceAccount sa))" "not_refused W (CreateCall (ORole ro))"
  "not_refused W (CreateCall (ORoleBinding rb))" "not_refused W (CreateCall (OClusterRole ro))"
  "not_refused W (CreateCall (OClusterRoleBinding rb))"
  by (simp_all add: not_refused_def)

lemma switch_fits:
  assumes clock: "\<forall>i. \<not> tm_IsZero (now i)" and conf: "fits_spec (bc_Spec conf)" and s: "kept (bs_Status s)"
    and cleanup: "emits (not_refused W) (cleanupSessions L (logged A) conf) (\<lambda>_. True)"
  shows "emits (not_refused W) (backupSessionSwitch L (logged A) now conf s)
    (\<lambda>x. \<forall>st s'. x = Some (st, s') \<and> st \<noteq> Unset \<longrightarrow> fits_session_status (bs_Status s') \<and> bs_Spec s' = bs_Spec s)"
proof -
  have ongoing: "emits (not_refused W) (isBackupOngoing (logged A) conf) (\<lambda>_. True)"
    unfolding isBackupOngoing_def logged_sel by (intro emits_intros TrueI)
  have fits: "fits_session_status (bs_Status s)" if "bst_SessionState (bs_Status s) \<noteq> Unset"
    using s that by (auto simp: kept_def zero_session_status_def)
  have started: "fits_session_status ((bs_Status s)\<lparr>bst_StartTime := Some (now 0)\<rparr>)"
    using s clock by (auto simp: kept_def zero_session_status_def fits_session_status_def ptr_IsZero_def)
  note step = checks_fit [OF clock [rule_format] conf, of "bst_Targets (bs_Status s)"]
  let ?Q = "\<lambda>x. \<forall>st s'. x = Some (st, s') \<and> st \<noteq> Unset \<longrightarrow> fits_session_status (bs_Status s') \<and> bs_Spec s' = bs_Spec s"
  have check: "emits (not_refused W) (bind_go (of_option x) (\<lambda>(r, tss'). ret (Some (g r, with_targets tss' s)))) ?Q"
    if "bst_SessionState (bs_Status s) \<noteq> Unset" "\<And>r tss'. x = Some (r, tss') \<Longrightarrow> list_all fits_target_status tss'"
      for x :: "(session_state \<times> target_status list) option" and g
  proof (rule emits_bind [OF emits_of_option])
    fix a assume "x = Some a"
    with that(2) show "case a of (r, tss') \<Rightarrow> list_all fits_target_status tss'" by (cases a) simp
  next
    fix a :: "session_state \<times> target_status list"
    assume "case a of (r, tss') \<Rightarrow> list_all fits_target_status tss'"
    with fits [OF that(1)] show "emits (not_refused W) (case a of (r, tss') \<Rightarrow> ret (Some (g r, with_targets tss' s))) ?Q"
      by (cases a) (simp add: emits_ret with_targets_def fits_session_status_def)
  qed
  have new: "emits (not_refused W) (bind_go (isBackupOngoing (logged A) conf) (\<lambda>ongoing. if ongoing then ret None
      else ret (Some (Initializing, with_targets (initSession now conf) s)))) ?Q"
    if "bst_SessionState (bs_Status s) \<noteq> Unset"
    using fits [OF that] initSession_fits [OF clock]
    by (intro emits_bind_true ongoing emits_if emits_ret) (simp_all add: with_targets_def fits_session_status_def)
  have success: "emits (not_refused W) (bind_go (cleanupSessions L (logged A) conf) (\<lambda>_. ret (Some (Unset, s)))) ?Q"
    by (intro emits_bind_true cleanup emits_ret) simp
  have fits_all: "list_all fits_target_status (bst_Targets (bs_Status s))" if "bst_SessionState (bs_Status s) \<noteq> Unset"
    using fits [OF that] by (simp add: fits_session_status_def)
  show ?thesis
    unfolding backupSessionSwitch_def Let_def
    using new success started
    by (cases "bst_SessionState (bs_Status s)"; simp only: session_state.case; simp add: emits_ret)
      (rule check, simp, rule step [OF fits_all], simp_all)+
qed

lemma cleanup_accepted:
  assumes W: "wire_laws W" and A: "reads_admitted W A" "no_zero_times A" and sort: "sort_law L"
  shows "emits (not_refused W) (cleanupSessions L (logged A) conf) (\<lambda>_. True)"
proof -
  have loop: "emits (not_refused W) (cleanupLoop (logged A) n rt xs) (\<lambda>_. True)"
    if "\<And>s t. (s, t) \<in> set xs \<Longrightarrow> fits_session_status (bs_Status s)" for n rt xs
    using that
  proof (induction xs arbitrary: rt)
    case Nil
    then show ?case by (simp add: emits_ret)
  next
    case (Cons x xs)
    obtain s t where x: "x = (s, t)" by (cases x)
    have IH: "emits (not_refused W) (cleanupLoop (logged A) n rt' xs) (\<lambda>_. True)" for rt'
      by (rule Cons.IH) (metis Cons.prems list.set_intros(2))
    have keep: "not_refused W (StatusUpdateCall (OBackupSession (with_keep s keep)))" for keep
      using Cons.prems [of s t] unfolding not_refused_simps(2) [OF W] by (simp add: x with_keep_def fits_session_status_def)
    show ?case
      unfolding x cleanupLoop.simps Let_def logged_sel
      by (intro emits_intros IH keep)
  qed
  have items: "fits_session_status (bs_Status s)"
    if xs: "\<forall>s \<in> set xs. kept (bs_Status s) \<and> ''Success'' \<in> set (sessionStateIndex s)"
      and ts: "those (map timed xs) = Some ts" and "(s, t) \<in> set (SortByStartDesc L ts)" for xs ts s t
  proof -
    have "(s, t) \<in> set ts" using that(3) sort by (metis sort_law_def mset_eq_setD)
    moreover have "Some ` set ts = timed ` set xs" using ts unfolding those_eq_Some_iff by (metis list.set_map)
    ultimately obtain s' where "s' \<in> set xs" "timed s' = Some (s, t)" by (metis imageE imageI)
    then have "s \<in> set xs" by (auto simp: timed_def)
    with xs show ?thesis by (auto simp: kept_def zero_session_status_def sessionStateIndex_def)
  qed
  let ?R = "\<lambda>r. case r of Inl _ \<Rightarrow> True | Inr xs \<Rightarrow> \<forall>s \<in> set xs. kept (bs_Status s) \<and> ''Success'' \<in> set (sessionStateIndex s)"
  have read: "emits (not_refused W) (try_go (call (log_call (ListCall ns ''Success'') (api_ListBackupSessions A ns ''Success'')))) ?R" for ns
    by (rule emits_try [OF emits_read]) (use reads_admittedD(2) [OF A] in \<open>auto intro: not_refused_reads\<close>)
  show ?thesis
    unfolding cleanupSessions_def logged_sel state_string.simps
  proof (rule emits_bind [OF read])
    fix r assume R: "?R r"
    show "emits (not_refused W) (case r of Inl _ \<Rightarrow> ret ()
      | Inr items \<Rightarrow> if length items < 2 then ret ()
          else bind_go (of_option (those (map timed items)))
            (\<lambda>ts. cleanupLoop (logged A) (om_Name (bc_Meta conf)) (new_retention (bcs_Keep (bc_Spec conf)))
              (SortByStartDesc L ts))) (\<lambda>_. True)"
    proof (cases r)
      case (Inr xs)
      have "emits (not_refused W) (bind_go (of_option (those (map timed xs)))
          (\<lambda>ts. cleanupLoop (logged A) n rt (SortByStartDesc L ts))) (\<lambda>_. True)" for n rt
        by (rule emits_bind [OF emits_of_option [where Q = "\<lambda>ts. those (map timed xs) = Some ts"]])
          (use items R Inr in \<open>auto intro!: loop\<close>)
      with Inr show ?thesis by (simp add: emits_intros)
    qed (simp add: emits_intros)
  qed
qed

lemma session_writes_accepted:
  assumes W: "wire_laws W" and A: "reads_admitted W A" "no_zero_times A" and sort: "sort_law L" and clock: "\<forall>i. \<not> tm_IsZero (now i)"
  shows "emits (not_refused W) (reconcileBackupSession L (logged A) now req) (\<lambda>_. True)"
proof -
  note status = not_refused_simps(2) [OF W] and update = not_refused_simps(5) [OF W]
  have "emits (not_refused W) (backupSessionAdvance L (logged A) now conf s) (\<lambda>_. True)"
    if s: "kept (bs_Status s)" and conf: "fits_spec (bc_Spec conf)" for conf s
  proof -
    have "emits (not_refused W) (bind_go (backupSessionSwitch L (logged A) now conf s) (\<lambda>r. case r of
         None \<Rightarrow> ret \<lparr>RequeueAfter = 30\<rparr>
       | Some (newSessionState, s') \<Rightarrow>
           if newSessionState \<noteq> Unset then
             bind_go (call (api_StatusUpdate (logged A) (OBackupSession (with_state newSessionState s'))))
               (\<lambda>_. ret no_requeue)
           else ret no_requeue)) (\<lambda>_. True)"
    proof (rule emits_bind [OF switch_fits [OF clock conf s cleanup_accepted [OF W A sort]]])
      fix x :: "(session_state \<times> backup_session) option"
      assume x: "\<forall>st s'. x = Some (st, s') \<and> st \<noteq> Unset \<longrightarrow>
        fits_session_status (bs_Status s') \<and> bs_Spec s' = bs_Spec s"
      have "not_refused W (StatusUpdateCall (OBackupSession (with_state st s')))" if "x = Some (st, s')" "st \<noteq> Unset" for st s'
        using x that unfolding status by (simp add: with_state_def fits_session_status_def)
      then show "emits (not_refused W) (case x of None \<Rightarrow> ret \<lparr>RequeueAfter = 30\<rparr>
         | Some (st, s') \<Rightarrow> if st \<noteq> Unset then
             bind_go (call (api_StatusUpdate (logged A) (OBackupSession (with_state st s')))) (\<lambda>_. ret no_requeue)
           else ret no_requeue) (\<lambda>_. True)"
        unfolding logged_sel by (intro emits_intros TrueI) auto
    qed
    moreover have "emits (not_refused W) (bind_go (call (api_Update (logged A) (OBackupSession s'))) (\<lambda>_. ret no_requeue))
        (\<lambda>_. True)" for s'
      unfolding logged_sel by (intro emits_intros TrueI update)
    ultimately show ?thesis unfolding backupSessionAdvance_def by (intro emits_if)
  qed
  moreover have "emits (not_refused W) (backupSessionDeletion L (logged A) conf s) (\<lambda>_. True)" for conf s
    unfolding backupSessionDeletion_def deleteSnapshots_def Let_def logged_sel by (intro emits_intros TrueI update)
  ultimately have rest: "emits (not_refused W) (bind_go (backupSessionDeletion L (logged A) conf s)
      (\<lambda>done. case done of Some r \<Rightarrow> ret r | None \<Rightarrow> backupSessionAdvance L (logged A) now conf s)) (\<lambda>_. True)"
    if "kept (bs_Status s)" "fits_spec (bc_Spec conf)" for conf s
    using that by (intro emits_intros TrueI)
  have conf: "emits (not_refused W) (call (api_BackupConfiguration (logged A) k)) (\<lambda>conf. fits_spec (bc_Spec conf))" for k
    unfolding logged_sel
    by (rule emits_read, rule not_refused_reads(1), rule declared_fits, rule reads_admittedD(4) [OF A])
  have read: "emits (not_refused W) (try_go (call (api_BackupSession (logged A) req)))
      (\<lambda>r. case r of Inl _ \<Rightarrow> True | Inr s \<Rightarrow> kept (bs_Status s))"
    unfolding logged_sel
    by (rule emits_try, rule emits_read [where Q = "\<lambda>s. kept (bs_Status s)"], rule not_refused_reads(1),
      rule reads_admittedD(1) [OF A]) simp_all
  show ?thesis
    unfolding reconcileBackupSession_def
  proof (rule emits_bind [OF read])
    fix got :: "api_error + backup_session"
    assume got: "case got of Inl _ \<Rightarrow> True | Inr s \<Rightarrow> kept (bs_Status s)"
    show "emits (not_refused W) (case got of Inl e \<Rightarrow> if IsNotFound e then ret no_requeue else fail e
      | Inr s \<Rightarrow> bind_go (call (api_BackupConfiguration (logged A) (bss_Ref (bs_Spec s)))) (\<lambda>conf.
          bind_go (backupSessionDeletion L (logged A) conf s) (\<lambda>done. case done of
            Some r \<Rightarrow> ret r | None \<Rightarrow> backupSessionAdvance L (logged A) now conf s))) (\<lambda>_. True)"
      using got by (cases got) (auto intro!: emits_intros emits_bind [OF conf] rest simp del: logged_sel)
  qed
qed

lemma restore_writes_accepted:
  assumes W: "wire_laws W" and A: "reads_admitted W A" "no_zero_times A" and clock: "\<forall>i. \<not> tm_IsZero (now i)"
  shows "emits (not_refused W) (reconcileRestoreSession (logged A) now req) (\<lambda>_. True)"
proof -
  let ?Q = "\<lambda>x :: (session_state \<times> restore_session) option. \<forall>st s'. x = Some (st, s') \<longrightarrow> fits_restore_status (rs_Status s')"
  have ongoing: "emits (not_refused W) (isBackupOngoing (logged A) conf) (\<lambda>_. True)" for conf
    unfolding isBackupOngoing_def logged_sel by (intro emits_intros TrueI)
  have switch: "emits (not_refused W) (restoreSessionSwitch (logged A) now conf s) ?Q"
    if conf: "fits_spec (bc_Spec conf)" and s: "fits_restore_status (rs_Status s)" for conf s
  proof -
    have check: "emits (not_refused W) (bind_go (of_option x) (\<lambda>(r, tss'). ret (Some (g r, restore_with_targets tss' s)))) ?Q"
      if "\<And>r tss'. x = Some (r, tss') \<Longrightarrow> list_all fits_target_status tss'"
        for x :: "(session_state \<times> target_status list) option" and g
    proof (rule emits_bind [OF emits_of_option])
      fix a assume "x = Some a"
      with that show "case a of (r, tss') \<Rightarrow> list_all fits_target_status tss'" by (cases a) simp
    qed (auto simp: emits_ret restore_with_targets_def fits_restore_status_def split: prod.split)
    have new: "emits (not_refused W) (bind_go (isBackupOngoing (logged A) conf) (\<lambda>ongoing. if ongoing then ret None
        else ret (Some (Initializing, restore_with_targets (initSession now conf) s)))) ?Q"
      using initSession_fits [OF clock]
      by (intro emits_bind_true ongoing emits_if emits_ret) (simp_all add: restore_with_targets_def fits_restore_status_def)
    have "list_all fits_target_status (rst_Targets (rs_Status s))" using s by (simp add: fits_restore_status_def)
    note step = checks_fit [OF clock [rule_format] conf this]
    have started: "fits_restore_status ((rs_Status s)\<lparr>rst_StartTime := Some (now 0)\<rparr>)"
      using s by (simp add: fits_restore_status_def)
    show ?thesis
      unfolding restoreSessionSwitch_def Let_def
      using new started s
      by (cases "rst_SessionState (rs_Status s)"; simp only: session_state.case; simp add: emits_ret)
        (rule check, rule step, assumption)+
  qed
  have update: "emits (not_refused W) (restoreSessionUpdate (logged A) x) (\<lambda>_. True)" if "?Q x" for x
  proof -
    have "not_refused W (StatusUpdateCall (ORestoreSession (restore_with_state st s')))" if "x = Some (st, s')" for st s'
      using \<open>?Q x\<close> that unfolding not_refused_simps(3) [OF W] by (simp add: restore_with_state_def fits_restore_status_def)
    then show ?thesis unfolding restoreSessionUpdate_def logged_sel by (intro emits_intros TrueI) auto
  qed
  have conf: "emits (not_refused W) (call (api_BackupConfiguration (logged A) k)) (\<lambda>conf. fits_spec (bc_Spec conf))" for k
    unfolding logged_sel
    by (rule emits_read, rule not_refused_reads(1), rule declared_fits, rule reads_admittedD(4) [OF A])
  have read: "emits (not_refused W) (try_go (call (api_RestoreSession (logged A) req)))
      (\<lambda>r. case r of Inl _ \<Rightarrow> True | Inr s \<Rightarrow> fits_restore_status (rs_Status s))"
    unfolding logged_sel
    by (rule emits_try, rule emits_read [where Q = "\<lambda>s. fits_restore_status (rs_Status s)"], rule not_refused_reads(1),
      rule reads_admittedD(3) [OF A]) simp_all
  show ?thesis
    unfolding reconcileRestoreSession_def
  proof (rule emits_bind [OF read])
    fix got :: "api_error + restore_session"
    assume got: "case got of Inl _ \<Rightarrow> True | Inr s \<Rightarrow> fits_restore_status (rs_Status s)"
    show "emits (not_refused W) (case got of Inl e \<Rightarrow> if IsNotFound e then ret no_requeue else fail e
      | Inr s \<Rightarrow> bind_go (call (api_BackupConfiguration (logged A) (bss_Ref (bsr_Spec (rss_BackupSessionRef (rs_Spec s))))))
          (\<lambda>conf. bind_go (restoreSessionSwitch (logged A) now conf s) (restoreSessionUpdate (logged A)))) (\<lambda>_. True)"
      using got by (cases got)
        (auto intro!: emits_bind [OF conf] emits_bind [OF switch] update simp del: logged_sel intro: emits_intros)
  qed
qed

lemma configuration_writes_accepted:
  assumes W: "wire_laws W" and A: "reads_admitted W A" "no_zero_times A"
  shows "emits (not_refused W) (reconcileBackupConfiguration L (logged A) req) (\<lambda>_. True)"
proof -
  have others: "not_refused W (UpdateCall (OWorkload k wl))" "not_refused W (UpdateCall (OCronJob cj))"
    "not_refused W (UpdateCall (ORoleBinding rb))" "not_refused W (UpdateCall (OClusterRoleBinding rb))" for k wl cj rb
    by (simp_all add: not_refused_def)
  have finalizers: "not_refused W (UpdateCall (OBackupConfiguration (with_finalizers fs conf)))"
    if "fits_spec (bc_Spec conf)" for fs conf
    using that unfolding not_refused_simps(4) [OF W] by (simp add: with_finalizers_def)
  have release: "emits (not_refused W) (releaseConfiguration L (logged A) ns conf) (\<lambda>_. True)"
    if "fits_spec (bc_Spec conf)" for ns conf
    unfolding releaseConfiguration_def DeleteSidecar_def restore_target_def DeleteCronJob_def
      deleteRBAC_def delete_if_found_def logged_sel
    by (intro emits_intros TrueI others finalizers [OF that])
  have rbac: "emits (not_refused W) (createBSCreatorRBAC (logged A) ns) (\<lambda>_. True)"
    "emits (not_refused W) (createSidecarRBAC (logged A) ns p) (\<lambda>_. True)" for ns p
    unfolding createBSCreatorRBAC_def createSidecarRBAC_def create_if_missing_def bind_sidecar_def Let_def logged_sel
    by (intro emits_intros TrueI others)+
  have "emits (not_refused W) (AddCronJob L (logged A) conf) (\<lambda>_. True)" for conf
    unfolding AddCronJob_def Let_def logged_sel by (intro emits_intros TrueI others)
  moreover have "emits (not_refused W) (addSidecar (logged A) ns conf tg) (\<lambda>_. True)" for ns conf tg
    unfolding addSidecar_def Let_def logged_sel by (intro emits_intros TrueI others rbac)
  ultimately have installs: "emits (not_refused W) (setUpConfiguration L (logged A) ns conf) (\<lambda>_. True)" for ns conf
    unfolding setUpConfiguration_def logged_sel by (intro emits_intros TrueI rbac not_refused_simps(1) [OF W])
  have read: "emits (not_refused W) (try_go (call (api_BackupConfiguration (logged A) req)))
      (\<lambda>r. case r of Inl _ \<Rightarrow> True | Inr conf \<Rightarrow> fits_spec (bc_Spec conf))"
    unfolding logged_sel
    by (rule emits_try, rule emits_read [where Q = "\<lambda>conf. fits_spec (bc_Spec conf)"], rule not_refused_reads(1),
      rule declared_fits, rule reads_admittedD(4) [OF A]) simp_all
  show ?thesis
    unfolding reconcileBackupConfiguration_def
  proof (rule emits_bind [OF read])
    fix got :: "api_error + backup_configuration"
    assume got: "case got of Inl _ \<Rightarrow> True | Inr conf \<Rightarrow> fits_spec (bc_Spec conf)"
    have add: "emits (not_refused W) (bind_go (call (api_Update (logged A) (OBackupConfiguration (with_finalizers fs conf))))
        (\<lambda>_. ret no_requeue)) (\<lambda>_. True)" if "fits_spec (bc_Spec conf)" for fs conf
      unfolding logged_sel by (intro emits_intros TrueI finalizers [OF that])
    show "emits (not_refused W) (case got of Inl e \<Rightarrow> if IsNotFound e then ret no_requeue else fail e
      | Inr conf \<Rightarrow>
         if \<not> ptr_IsZero (om_DeletionTimestamp (bc_Meta conf)) then releaseConfiguration L (logged A) (fst req) conf
         else if \<not> ContainsFinalizer L (om_Finalizers (bc_Meta conf)) confFinalizerName then
           bind_go (call (api_Update (logged A) (OBackupConfiguration (with_finalizers
               (AddFinalizer L (om_Finalizers (bc_Meta conf)) confFinalizerName) conf)))) (\<lambda>_. ret no_requeue)
         else setUpConfiguration L (logged A) (fst req) conf) (\<lambda>_. True)"
      using got by (cases got) (auto intro!: release add installs simp del: logged_sel intro: emits_intros)
  qed
qed

subsection \<open>Property\<close>

text \<open>
  C12: no write of one of formol's own objects is refused as invalid. If the clock does not show the
  zero time and the API server hands out what it admitted, then in every reconciliation of the three
  controllers, whatever calls fail, every status and every spec of a configuration, session or
  restore that is written passes the checks of the API server again: the times that a session's
  status needs are there from its first write on, and counting an attempt does not leave the range of
  Go's \<open>int\<close>. Two kinds of objects are left out, which would be refused when written back: a
  configuration admitted without any spec, whose missing targets Go writes as null, and a status in
  which somebody spelled out the zero time, which Go writes as null too.
\<close>

theorem writes_are_accepted:
  assumes "wire_laws W" and "reads_admitted W A" and "no_zero_times A" and "sort_law L" and "\<forall>i. \<not> tm_IsZero (now i)"
  shows "list_all (\<lambda>c. validated W c \<noteq> Some False) (log_of (reconcileBackupSession L (logged A) now req) w)
   \<and> list_all (\<lambda>c. validated W c \<noteq> Some False) (log_of (reconcileRestoreSession (logged A) now req) w)
   \<and> list_all (\<lambda>c. validated W c \<noteq> Some False) (log_of (reconcileBackupConfiguration L (logged A) req) w)"
  unfolding log_of_def not_refused_def [symmetric]
  by (intro conjI emits_log [OF session_writes_accepted [OF assms]] emits_log [OF restore_writes_accepted [OF assms(1-3,5)]]
      emits_log [OF configuration_writes_accepted [OF assms(1-3)]])

text \<open>A client with one session that has a target to start, as it was read.\<close>

definition admitted_session :: backup_session where
  "admitted_session = (one_session Initializing Unset '''')\<lparr>
     bs_Status := reread_session_status sample_wire (bs_Status (one_session Initializing Unset ''''))\<rparr>"

definition admitted_api :: "unit api" where
  "admitted_api = fixed_api (Inr admitted_session) (Inr sample_declared) []"

lemma admitted_api_reads: "reads_admitted sample_wire admitted_api" "no_zero_times admitted_api"
proof -
  let ?st = "bs_Status (one_session Initializing Unset '''')"
  have "fits_session_status ?st"
    by (simp add: fits_session_status_def fits_target_status_def one_session_def sample_status_def ptr_IsZero_def
        tm_IsZero_def utc_def zero_time_def in_int64_def)
  then have "json_session_status sample_wire (session_status_json sample_wire ?st) = Some (bs_Status admitted_session)"
    by (simp add: codec.read_back [OF session_status_codec [OF sample_wire_laws]] admitted_session_def)
  then have "admitted_status sample_wire (bs_Status admitted_session)" by (auto simp: admitted_status_def)
  then show "reads_admitted sample_wire admitted_api"
    using sample_is_declared by (auto simp: reads_admitted_def admitted_api_def fixed_api_def)
  have "\<not> zero_is_set (bst_StartTime (bs_Status admitted_session)) \<and>
      (\<forall>t \<in> set (bst_Targets (bs_Status admitted_session)). \<not> zero_is_set (ts_StartTime t))"
    by (simp add: admitted_session_def reread_session_status_def reread_target_status_def one_session_def sample_status_def
        zero_is_set_def local_pointer_def local_time_def ptr_IsZero_def tm_IsZero_def utc_def zero_time_def)
  then show "no_zero_times admitted_api" by (auto simp: no_zero_times_def admitted_api_def fixed_api_def)
qed

theorem writes_are_accepted_witness:
  "list_all (\<lambda>c. validated sample_wire c \<noteq> Some False)
     (log_of (reconcileBackupSession sample_lib (logged admitted_api) (\<lambda>_. utc 9) (''demo'', ''run'')) ()) \<and>
   list_all (\<lambda>c. validated sample_wire c \<noteq> Some False)
     (log_of (reconcileBackupConfiguration sample_lib (logged admitted_api) (''demo'', ''backup-demo'')) ())"
proof -
  have "\<not> tm_IsZero (utc 9)" by (simp add: tm_IsZero_def utc_def zero_time_def)
  then show ?thesis
    using writes_are_accepted [OF sample_wire_laws admitted_api_reads sample_lib_sorts, of "\<lambda>_. utc 9"] by blast
qed

end
