(* ===== verification/Spec2Isabelle.thy ===== *)
theory Spec2Isabelle
  imports RunLog Fairness Sharing Scheme Rights Admission
begin

text \<open>
  \<^bold>\<open>Formol: a verification library for the backup operator\<close>

  Formol is a Kubernetes operator written in Go. A user declares a \<open>BackupConfiguration\<close> (what to
  back up, when, how many backups to keep) and a \<open>Repo\<close> (where the backups go). The operator puts
  a sidecar container next to every target, installs a cron job that creates \<open>BackupSession\<close>s, and
  drives every session, and every \<open>RestoreSession\<close>, through its states. The sidecars, which do the
  work on a target, are another program: they report by writing the status of their target.

  \<^bold>\<open>Parts of the program and theories.\<close> Paths are under \<open>src/\<close>.

  \<^item> Prelude: the effects of a Go reconciler. A method is a function from the world to an outcome
    (\<open>Ret\<close>, \<open>Fail\<close> with an error, \<open>Panic\<close>) and the next world; \<open>bind_go\<close> is sequencing with an early
    \<open>return err\<close>, \<open>try_go\<close> is \<open>x, err := f()\<close>, \<open>ignore_err\<close> a call whose error is dropped, \<open>for_each\<close>
    a \<open>for range\<close>. Two collections of rules, \<open>emits_intros\<close> and \<open>no_panic_intros\<close>, follow the
    syntax of a method and say which calls it can make and that it does not panic.
  \<^item> GoTime, GoStrings: the parts of Go's \<open>time\<close>, \<open>strings\<close> and \<open>path/filepath\<close> the code uses.
  \<^item> ApiTypes: the types of \<open>api/v1alpha1\<close> and the fields of the Kubernetes objects the controllers
    read or write.
  \<^item> Client, Cluster: the API server. It is a parameter: the record \<open>api\<close> has one field per call, of
    any world type, with any answers. \<open>logged\<close> records the calls made. \<open>client_laws\<close> states what a
    single-client API server promises (a get after a write, create, update, status update and delete,
    and that an object being deleted goes with its last finalizer); \<open>mem_api\<close> satisfies the laws and runs the witnesses. The library functions of controller-runtime and
    \<open>sort\<close> are the record \<open>lib\<close> with \<open>finalizer_laws\<close>, \<open>owner_law\<close> and \<open>sort_law\<close>.
  \<^item> Session (\<open>controllers/session.go\<close>): the three checks and their loop.
  \<^item> SessionMachine: the session state machine, controllers and sidecars interleaved.
  \<^item> Retention (\<open>cleanupSessions\<close> in \<open>controllers/backupsession_controller_helper.go\<close>).
  \<^item> BackupSession (\<open>controllers/backupsession_controller.go\<close> and \<open>deleteSnapshots\<close>).
  \<^item> RestoreSession (\<open>controllers/restoresession_controller.go\<close>).
  \<^item> Common (\<open>api/v1alpha1/common.go\<close>): the sidecar container, its mounts and paths.
  \<^item> Rbac, CronJob, Sidecar (\<open>controllers/backupconfiguration_controller_helpers.go\<close>): access
    rights, cron job and the pod templates of the targets. Access evaluates the roles they create.
  \<^item> BackupConf (\<open>controllers/backupconfiguration_controller.go\<close>): the reconciliation that composes
    the three.
  \<^item> Manager (\<open>main.go\<close> and the \<open>SetupWithManager\<close> methods): flags, options, the registration of the
    controllers, the field index and the probes, and the start.
  \<^item> Scheme (\<open>api/v1alpha1/groupversion_info.go\<close>, the \<open>init\<close> functions of the types and of \<open>main.go\<close>):
    which kinds the client knows.
  \<^item> Wire (the field tags and the validation and default markers of \<open>api/v1alpha1/*_types.go\<close>): how
    objects are written, checked, completed and read. Admission composes it with the controllers.
  \<^item> Rights (the \<open>kubebuilder:rbac\<close> markers above the \<open>Reconcile\<close> methods): the operator's own rights.
  \<^item> SessionStore, SystemRun, RunLog, Fairness: the stored sessions of a cluster under reconciliations
    of any of them, reports of the sidecars, creations and deletions; RunLog keeps the log of a run,
    Fairness has infinite runs in which controller and sidecars keep working.
  \<^item> Memory, Layout, DeepCopy, Sharing (\<open>api/v1alpha1/zz_generated.deepcopy.go\<close>): a memory with
    pointers and slices, the types as they lie in it, the generated copy functions, and what they share.
  \<^item> Samples: concrete inputs for the witnesses.

  A Go function has the definition of the same name; a long one is split at its loops and branches,
  and the composition of the pieces is the function. A Go slice is a list, a nil and an empty slice
  are not distinguished where the code only takes its length or ranges over it; in theory Wire, where
  the difference can be written, the two fields that could be null (\<open>targets\<close>, \<open>containers\<close>) are
  arrays in every spec that was admitted. A pointer to an
  optional scalar is an option, and its dereference a panic on None. \<open>int32\<close> counters are
  \<open>32 word\<close>s read by \<open>sint\<close>; Go's \<open>int\<close> is \<open>int\<close>.

  \<^bold>\<open>What the lemmas show.\<close>

  \<^item> Session: the loop with early returns equals a description by the first unsettled target
    (\<open>checks_follow_the_frontier\<close>); it panics exactly for a failed target without a
    configured counterpart. The locale \<open>phase_check\<close> is the contract of a check, interpreted for the three.
  \<^item> SessionMachine: in every interleaving of reconciliations and reports the phase invariant holds,
    there is one status per configured target, one target is worked on at a time, a check never panics, success follows a moment at which all
    backups were over, failure means that a target has no attempt left, every session ends and no
    session is stuck. The locale \<open>session_controller\<close> says when a controller's switch takes the
    steps of the machine; both session controllers are interpretations.
  \<^item> BackupSession, RestoreSession: refinement of the machine for any client, what is written outside
    its states, one status write per reconciliation, the release of a deleted session, the deletion job.
  \<^item> Retention: the code equals a plan computed from the decisions of five independent rules, each a
    \<open>budget_rule\<close> or \<open>spaced_rule\<close> (locales); over the calls of \<open>cleanupSessions\<close> itself, the newest
    sessions are kept and a second pass deletes nothing; the counters do not wrap.
  \<^item> Rbac, CronJob, Sidecar, BackupConf: effect on the cluster under \<open>client_laws\<close>, idempotence,
    deletion as the inverse of creation, completion of the set-up, which the next reconciliation
    leaves as it is, release of a deleted configuration.
  \<^item> Common: where the sidecar finds a path, and when the search goes wrong.
  \<^item> Access, Rights: the grants are exact on any cluster, with roles and bindings of others and with
    bindings to roles that do not exist, releasing a configuration takes away those of the others
    in its namespace, every call the operator makes is covered by its rights, and so is what it grants.
  \<^item> Manager, Scheme: nothing is started unless all is registered, and every kind is known.
  \<^item> SessionStore, SystemRun, RunLog: two sessions can start together; in every run the stored sessions
    are reachable states of the machine and no reconciliation panics; snapshots are deleted only
    for sessions that a user asked to delete or that had expired under the retention policy.
  \<^item> Fairness: in a fair run the sessions of a namespace all end; a running session whose configuration
    is gone blocks the others for ever. A run settles because the steps of the machine descend in a
    well-founded order, and where it has settled nothing but the guard can hold a session back.
  \<^item> Wire, Admission: specs survive being written and read, statuses are accepted when their times
    are there (the locale \<open>codec\<close> pairs a writer with its reader), an admitted configuration does
    not make its controller panic, and the API server refuses no object of formol's own kinds that a
    controller writes (the other kinds have validation rules outside the repository).
  \<^item> Sharing: a deep copy has none of the cells of its original (locales \<open>reading\<close> and \<open>copier\<close>), so
    that writes through one are not seen through the other.
  \<^item> This theory: a configuration that is set up and deleted leaves the cluster as it was.

  \<^bold>\<open>Hypotheses.\<close> Whatever is not in this repository is a parameter with named laws: \<open>client_laws\<close>,
  \<open>well_keyed\<close> (an API server with one client; the last finalizer taken from an object being
  deleted removes it), \<open>session_laws\<close> and \<open>shared_store\<close> (the
  stored sessions, for a client whose calls may fail), \<open>reads_admitted\<close> and \<open>no_zero_times\<close> (it hands
  out what it admitted, and nobody wrote the zero time), \<open>serves\<close>, \<open>served_fairly\<close> and \<open>reported_fairly\<close> (how often the API server answers and the
  sidecars report), \<open>finalizer_laws\<close>, \<open>owner_law\<close>, \<open>sort_law\<close>, \<open>scheme_laws\<close>, \<open>foreign_laws\<close>, \<open>wire_laws\<close> (libraries),
  \<open>sidecar_protocol\<close>, \<open>sidecar_keeps_targets\<close> and \<open>sidecar_live\<close> (the sidecar program). Every property with a hypothesis has
  a witness that discharges it on a concrete input.

  \<^bold>\<open>Bounds and fuel.\<close> No definition has fuel: all loops of the code range over a slice and are
  structural recursions on lists. A reconciliation is one run; that a session ends is a
  well-founded order on the steps of the machine (\<open>progress_order\<close>).

  \<^bold>\<open>Not modelled.\<close> Log messages and the logger's flags, event emission, the text form of JSON, the
  YAML files (the validation is modelled from the markers they are generated from), tests, and a
  \<open>DeepCopyInto\<close> whose two arguments are the same object. No controller reads the \<open>Function\<close>
  type. Optimistic-concurrency conflicts appear as error answers of the client, for which the
  theorems about any client hold.
\<close>

section \<open>The life of a configuration\<close>

text \<open>The user's deletion request, which the API server answers by setting the deletion timestamp.\<close>

definition deleted_at :: "go_time \<Rightarrow> backup_configuration \<Rightarrow> backup_configuration" where
  "deleted_at t conf = conf\<lparr>bc_Meta := (bc_Meta conf)\<lparr>om_DeletionTimestamp := Some t\<rparr>\<rparr>"

definition request_deletion :: "object_key \<Rightarrow> go_time \<Rightarrow> backup_configuration \<Rightarrow> cluster \<Rightarrow> cluster" where
  "request_deletion req t conf c = c\<lparr>cl_Confs := (cl_Confs c)(req \<mapsto> deleted_at t conf)\<rparr>"

definition share_namespace :: "pod_spec \<Rightarrow> pod_spec" where
  "share_namespace ps = ps\<lparr>ps_ShareProcessNamespace := Some True\<rparr>"

lemma deleted_active_keys:
  "bc_Spec (deleted_at t (active_status conf)) = bc_Spec conf"
  "repo_key (deleted_at t (active_status conf)) = repo_key conf"
  "cronjob_key (deleted_at t (active_status conf)) = cronjob_key conf"
  "target_key (deleted_at t (active_status conf)) tg = target_key conf tg"
  "workload_key (deleted_at t (active_status conf)) = workload_key conf"
  "target_present (deleted_at t (active_status conf)) c tg = target_present conf c tg"
  "om_Finalizers (bc_Meta (deleted_at t (active_status conf))) = om_Finalizers (bc_Meta conf)"
  by (auto simp: deleted_at_def active_status_def repo_key_def cronjob_key_def target_key_def
      workload_key_def target_present_def)

lemma on_targets_deleted: "on_targets f (deleted_at t (active_status conf)) = on_targets f conf"
  by (simp add: on_targets_def fun_eq_iff deleted_active_keys)

lemma untouched_no_sidecar: "untouched ps \<Longrightarrow> hasSidecar (ps_Containers ps) = None"
proof (rule ccontr)
  assume clean: "untouched ps" and "hasSidecar (ps_Containers ps) \<noteq> None"
  then obtain i where "ps_Containers ps ! i \<in> set (ps_Containers ps)" "ct_Name (ps_Containers ps ! i) = SIDECARCONTAINER_NAME"
    using hasSidecar_Some nth_mem by blast
  with clean show False by (auto simp: untouched_def)
qed

lemma restore_sidecar_pod:
  "untouched ps \<Longrightarrow> restore_pod tg (sidecar_pod conf tg r ps) = share_namespace ps"
  by (simp add: sidecar_pod_def untouched_no_sidecar restore_add_sidecar share_namespace_def)

lemma dom_on_targets: "dom (on_targets f conf tgs m) = dom m"
  by (induction tgs arbitrary: m) (auto simp: on_targets_simps split: if_splits)

lemma sidecars_present:
  assumes "target_present conf c tg" "cl_Workloads c' = on_targets f conf tgs (cl_Workloads c)"
  shows "target_present conf c' tg"
  using assms(1) by (rule target_present_mono) (simp add: assms(2) dom_on_targets)

lemma without_rbac_view:
  assumes "without_rbac ns c' = (without_rbac ns c)\<lparr>cl_Confs := cs, cl_Workloads := ws, cl_CronJobs := js\<rparr>"
  shows "cl_Confs c' = cs" "cl_Workloads c' = ws" "cl_CronJobs c' = js" "cl_Repos c' = cl_Repos c"
  using arg_cong [OF assms, of cl_Confs] arg_cong [OF assms, of cl_Workloads]
    arg_cong [OF assms, of cl_CronJobs] arg_cong [OF assms, of cl_Repos] by simp_all

text \<open>
  C5: a configuration leaves no trace. Take a cluster in which the repository and the workloads of
  the targets are in place, the targets name different workloads with untouched pod templates, and
  there is neither a cron job of the configuration nor any of the access objects. One
  reconciliation sets the configuration up; whenever its deletion is requested, the next one
  takes everything back: the cluster is as it was before the first, but for the process namespaces
  of the targets, which stay shared, and for the configuration itself, which is gone, unless it has
  finalizers of others: then it stays, being deleted, without formol's finalizer (\<open>released\<close>).
\<close>

theorem configuration_leaves_no_trace:
  assumes laws: "client_laws A view" and keyed: "well_keyed (view w)" and owner: "owner_law L"
    and conf: "cl_Confs (view w) req = Some conf"
    and alive: "ptr_IsZero (om_DeletionTimestamp (bc_Meta conf))"
    and fin: "ContainsFinalizer L (om_Finalizers (bc_Meta conf)) confFinalizerName"
    and s: "bcs_Suspend (bc_Spec conf) = Some s"
    and repo: "cl_Repos (view w) (repo_key conf) = Some r"
    and targets: "\<forall>tg \<in> set (bcs_Targets (bc_Spec conf)). target_present conf (view w) tg"
    and different: "distinct (map (workload_key conf) (bcs_Targets (bc_Spec conf)))"
    and clean: "\<forall>tg \<in> set (bcs_Targets (bc_Spec conf)). \<forall>wl.
      cl_Workloads (view w) (workload_key conf tg) = Some wl \<longrightarrow> untouched (wl_PodSpec wl)"
    and fresh: "cl_CronJobs (view w) (cronjob_key conf) = None" "without_rbac (fst req) (view w) = view w"
    and t: "\<not> tm_IsZero t"
  shows "\<exists>w1. reconcileBackupConfiguration L A req w = (Ret no_requeue, w1) \<and>
    cl_Confs (view w1) req = Some (active_status conf) \<and>
    (\<forall>w2. view w2 = request_deletion req t (active_status conf) (view w1) \<longrightarrow>
      (\<exists>w3. reconcileBackupConfiguration L A req w2 = (Ret no_requeue, w3) \<and>
        view w3 = (view w)\<lparr>
          cl_Confs := (cl_Confs (view w))(req := released L (deleted_at t (active_status conf))),
          cl_Workloads := on_targets (\<lambda>_. share_namespace) conf (bcs_Targets (bc_Spec conf))
            (cl_Workloads (view w))\<rparr>))"
proof -
  let ?tgs = "bcs_Targets (bc_Spec conf)" and ?conf = "deleted_at t (active_status conf)"
  let ?ns = "fst req" and ?sidecars = "on_targets (\<lambda>tg. sidecar_pod conf tg r) conf"
  obtain w1 cj where w1: "reconcileBackupConfiguration L A req w = (Ret no_requeue, w1)"
    "meta_key (cj_Meta cj) = cronjob_key conf" "well_keyed (view w1)"
    and view1: "without_rbac ?ns (view w1) = (without_rbac ?ns (view w))\<lparr>
      cl_Confs := (cl_Confs (view w))(req \<mapsto> active_status conf),
      cl_Workloads := ?sidecars ?tgs (cl_Workloads (view w)),
      cl_CronJobs := (cl_CronJobs (view w))(cronjob_key conf \<mapsto> cj)\<rparr>"
    using set_up_run [OF laws keyed owner conf alive fin s repo targets] by blast
  note after = without_rbac_view [OF view1]
  have key: "meta_key (bc_Meta ?conf) = req"
    using well_keyedD(1) [OF keyed conf] by (simp add: deleted_at_def active_status_def meta_key_def)
  have undone: "on_targets restore_pod conf ?tgs (?sidecars ?tgs (cl_Workloads (view w))) =
      on_targets (\<lambda>_. share_namespace) conf ?tgs (cl_Workloads (view w))"
    using different clean by (intro on_targets_comp restore_sidecar_pod) blast+
  have "\<exists>w3. reconcileBackupConfiguration L A req w2 = (Ret no_requeue, w3) \<and>
      view w3 = (view w)\<lparr>cl_Confs := (cl_Confs (view w))(req := released L ?conf),
        cl_Workloads := on_targets (\<lambda>_. share_namespace) conf ?tgs (cl_Workloads (view w))\<rparr>"
    if w2: "view w2 = request_deletion req t (active_status conf) (view w1)" for w2
  proof -
    have k2: "well_keyed (view w2)" using w1(3) key by (auto simp: w2 request_deletion_def well_keyed_def)
    have dead: "\<not> ptr_IsZero (om_DeletionTimestamp (bc_Meta ?conf))"
      using t by (simp add: deleted_at_def ptr_IsZero_def)
    have present: "\<forall>tg \<in> set (bcs_Targets (bc_Spec ?conf)). target_present ?conf (view w2) tg"
      using targets sidecars_present [where c = "view w"] after(2)
      by (simp add: deleted_active_keys w2 request_deletion_def target_present_def)
    obtain w3 where "reconcileBackupConfiguration L A req w2 = (Ret no_requeue, w3)"
      "view w3 = (without_rbac ?ns (view w2))\<lparr>
        cl_Confs := (cl_Confs (view w2))(req := released L ?conf),
        cl_Workloads := on_targets restore_pod ?conf (bcs_Targets (bc_Spec ?conf)) (cl_Workloads (view w2)),
        cl_CronJobs := (cl_CronJobs (view w2))(cronjob_key ?conf := None)\<rparr>"
      using release_run [OF laws k2 _ dead _ _ present, where r = r and cj = cj and L = L and req = req] after repo fin
      by (auto simp: deleted_active_keys w2 request_deletion_def)
    moreover have "(cl_CronJobs (view w))(cronjob_key conf := None) = cl_CronJobs (view w)"
      using fresh(1) by (rule fun_upd_idem)
    ultimately show ?thesis
      using fresh(2) after undone
      by (simp add: deleted_active_keys on_targets_deleted w2 request_deletion_def view1)
  qed
  with w1(1) after(1) show ?thesis by simp
qed

lemma demo_facts:
  "bc_Meta ready_conf = (named_meta ''demo'' ''backup-demo'')\<lparr>om_Finalizers := [confFinalizerName]\<rparr>"
  "bcs_Targets (bc_Spec ready_conf) = [sample_target ''apache'' 2]"
  "bcs_Suspend (bc_Spec ready_conf) = Some True"
  "repo_key ready_conf = (''demo'', ''repo-minio'')"
  "workload_key ready_conf (sample_target ''apache'' 2) = (DeploymentWorkload, (''demo'', ''apache''))"
  by (simp_all add: ready_conf_def with_finalizers_def demo_conf_def sample_conf_def named_meta_def
      repo_key_def workload_key_def target_key_def sample_target_def)

definition demo_world :: cluster where
  "demo_world = demo_cluster\<lparr>cl_Confs := [(''demo'', ''backup-demo'') \<mapsto> ready_conf]\<rparr>"

lemma demo_world_facts:
  "well_keyed demo_world" "cl_Confs demo_world (''demo'', ''backup-demo'') = Some ready_conf"
  "cl_Repos demo_world (repo_key ready_conf) = Some sample_repo"
  "cl_Workloads demo_world = [(DeploymentWorkload, (''demo'', ''apache'')) \<mapsto>
     \<lparr>wl_Meta = named_meta ''demo'' ''apache'', wl_PodSpec = apache_pod\<rparr>]"
  "cl_CronJobs demo_world = Map.empty" "without_rbac ns demo_world = demo_world"
proof -
  have "meta_key (bc_Meta ready_conf) = (''demo'', ''backup-demo'')"
    by (simp add: demo_facts meta_key_def named_meta_def)
  with demo_keyed show "well_keyed demo_world" by (simp add: well_keyed_def demo_world_def)
qed (simp_all add: demo_world_def demo_facts demo_cluster_def empty_cluster_def without_rbac_def)

theorem configuration_leaves_no_trace_witness:
  "\<exists>w1 w3. reconcileBackupConfiguration sample_lib mem_api (''demo'', ''backup-demo'') demo_world = (Ret no_requeue, w1) \<and>
    reconcileBackupConfiguration sample_lib mem_api (''demo'', ''backup-demo'')
      (request_deletion (''demo'', ''backup-demo'') (utc 5) (active_status ready_conf) w1) = (Ret no_requeue, w3) \<and>
    w3 = demo_world\<lparr>
      cl_Confs := Map.empty,
      cl_Workloads := [(DeploymentWorkload, (''demo'', ''apache'')) \<mapsto>
        \<lparr>wl_Meta = named_meta ''demo'' ''apache'', wl_PodSpec = share_namespace apache_pod\<rparr>]\<rparr>"
proof -
  have alive: "ptr_IsZero (om_DeletionTimestamp (bc_Meta ready_conf))"
    "ContainsFinalizer sample_lib (om_Finalizers (bc_Meta ready_conf)) confFinalizerName"
    "RemoveFinalizer sample_lib (om_Finalizers (bc_Meta ready_conf)) confFinalizerName = []"
    by (simp_all add: demo_facts ptr_IsZero_def sample_lib_def named_meta_def)
  have targets: "\<forall>tg \<in> set (bcs_Targets (bc_Spec ready_conf)). target_present ready_conf demo_world tg"
    using demo_facts(5) by (simp add: demo_facts(2) target_present_def demo_world_facts(4) workload_key_def sample_target_def)
  have rest: "distinct (map (workload_key ready_conf) (bcs_Targets (bc_Spec ready_conf)))"
    "\<forall>tg \<in> set (bcs_Targets (bc_Spec ready_conf)). \<forall>wl.
      cl_Workloads demo_world (workload_key ready_conf tg) = Some wl \<longrightarrow> untouched (wl_PodSpec wl)"
    "\<not> tm_IsZero (utc 5)"
    by (simp_all add: demo_facts demo_world_facts(4) apache_pod_untouched tm_IsZero_def utc_def zero_time_def)
  have confs: "cl_Confs demo_world = [(''demo'', ''backup-demo'') \<mapsto> ready_conf]" by (simp add: demo_world_def)
  show ?thesis
    using configuration_leaves_no_trace [OF mem_api_laws demo_world_facts(1) sample_lib_owner demo_world_facts(2)
        alive(1,2) demo_facts(3) demo_world_facts(3) targets rest(1,2) _ _ rest(3)]
    by (auto simp: demo_world_facts(4,5,6) confs alive(3) demo_facts(2,5) on_targets_simps on_pod_def released_def
        deleted_active_keys)
qed

end
